theory Spec2Isabelle
  imports Complex_Main "HOL-Library.Sublist" "HOL-Library.AList"
begin

section \<open>JavaScript values\<close>

text \<open>
  The functions of \<^verbatim>\<open>validation.ts\<close> take \<^verbatim>\<open>any\<close>; the orchestrator hands them what
  \<^verbatim>\<open>JSON.parse\<close> returned. A value is therefore \<^verbatim>\<open>null\<close>, a boolean, a number, a
  string, an array or a plain object. An object is the list of its own properties in
  property order. An array carries, besides its elements, the named properties that
  an assignment such as \<^verbatim>\<open>normalized.tomDeVoz.manter = []\<close> creates when the section is an
  array (arrays are extensible objects); \<^verbatim>\<open>JSON.parse\<close> returns arrays without any.

  A number is the real value of the double. The code only compares numbers with
  \<^verbatim>\<open>0\<close>, \<^verbatim>\<open>3\<close>, \<^verbatim>\<open>10\<close> and schema bounds and never computes with them, and
  \<^verbatim>\<open>JSON.parse\<close> never returns \<^verbatim>\<open>NaN\<close>. A \<^typ>\<open>char\<close> stands for one code unit of a
  string; the code copies and compares code units and never inspects one.
  \<^verbatim>\<open>undefined\<close> is the \<^term>\<open>None\<close> of a property read.
\<close>

datatype json =
    JNull
  | JBool bool
  | JNum real
  | JStr string
  | JArr "json list" "(string \<times> json) list"
  | JObj "(string \<times> json) list"

text \<open>What a \<^verbatim>\<open>throw\<close> carries: the native errors of the engine, or \<^verbatim>\<open>new Error(msg)\<close>.\<close>

datatype exn = TypeError | SyntaxError | Error string

text \<open>
  The built-in operations of the engine that the code relies on and that are not part
  of this repository. \<^verbatim>\<open>ToNumber\<close> and \<^verbatim>\<open>ToString\<close> are only consulted for strings,
  arrays and objects (for the other values the result is written out below);
  \<^verbatim>\<open>ToNumber\<close> returns \<^term>\<open>None\<close> for \<^verbatim>\<open>NaN\<close> and may throw (an object whose own
  \<^verbatim>\<open>toString\<close> is not callable). \<^verbatim>\<open>ObjectPrototype\<close> lists the property names every
  plain object inherits (\<^verbatim>\<open>toString\<close>, \<^verbatim>\<open>constructor\<close>, ...).
\<close>

record engine =
  NumberToString :: "real \<Rightarrow> string"
  ToNumber :: "json \<Rightarrow> exn + real option"
  ToString :: "json \<Rightarrow> exn + string"
  JSON_parse :: "string \<Rightarrow> exn + json"
  ObjectPrototype :: "string list"

text \<open>Sequencing of computations that may throw.\<close>

definition bind :: "exn + 'a \<Rightarrow> ('a \<Rightarrow> exn + 'b) \<Rightarrow> exn + 'b" where
  "bind m f = (case m of Inl e \<Rightarrow> Inl e | Inr a \<Rightarrow> f a)"

text \<open>\<^verbatim>\<open>!v\<close> is \<^term>\<open>\<not> truthy v\<close>; \<^verbatim>\<open>!undefined\<close> is true.\<close>

fun truthy :: "json \<Rightarrow> bool" where
  "truthy JNull = False"
| "truthy (JBool b) = b"
| "truthy (JNum r) = (r \<noteq> 0)"
| "truthy (JStr s) = (s \<noteq> [])"
| "truthy (JArr xs ps) = True"
| "truthy (JObj kvs) = True"

definition truthy_opt :: "json option \<Rightarrow> bool" where
  "truthy_opt v = (case v of None \<Rightarrow> False | Some x \<Rightarrow> truthy x)"

text \<open>Decimal numerals of array indices (\<^verbatim>\<open>`${index}`\<close>: an index is below \<open>2^32\<close>).\<close>

definition digit :: "nat \<Rightarrow> char" where
  "digit d = ''0123456789'' ! d"

fun show_nat :: "nat \<Rightarrow> string" where
  "show_nat n = (if n < 10 then [digit n] else show_nat (n div 10) @ [digit (n mod 10)])"

declare show_nat.simps [simp del]

text \<open>\<^verbatim>\<open>ToNumber(v)\<close>, as the relational operators apply it to an operand.\<close>

definition js_number :: "engine \<Rightarrow> json \<Rightarrow> exn + real option" where
  "js_number E v = (case v of
      JNum r \<Rightarrow> Inr (Some r)
    | JNull \<Rightarrow> Inr (Some 0)
    | JBool b \<Rightarrow> Inr (Some (if b then 1 else 0))
    | _ \<Rightarrow> ToNumber E v)"

text \<open>\<^verbatim>\<open>v < r\<close> and \<^verbatim>\<open>v > r\<close> for a number \<^verbatim>\<open>r\<close>; a comparison with \<^verbatim>\<open>NaN\<close> is false.\<close>

definition js_lt :: "engine \<Rightarrow> json \<Rightarrow> real \<Rightarrow> exn + bool" where
  "js_lt E v r = bind (js_number E v) (\<lambda>n. Inr (case n of None \<Rightarrow> False | Some x \<Rightarrow> x < r))"

definition js_gt :: "engine \<Rightarrow> json \<Rightarrow> real \<Rightarrow> exn + bool" where
  "js_gt E v r = bind (js_number E v) (\<lambda>n. Inr (case n of None \<Rightarrow> False | Some x \<Rightarrow> x > r))"

text \<open>\<^verbatim>\<open>xs.join(sep)\<close> on an array of strings.\<close>

fun join :: "string \<Rightarrow> string list \<Rightarrow> string" where
  "join sep [] = []"
| "join sep [x] = x"
| "join sep (x # y # ys) = x @ sep @ join sep (y # ys)"

section \<open>Schema validator (\<^verbatim>\<open>validation.ts\<close>, \<^verbatim>\<open>validateJsonSchema\<close>)\<close>

text \<open>
  A schema node is dispatched on its \<^verbatim>\<open>type\<close>: one constructor for each branch of
  \<^verbatim>\<open>validate\<close>, holding the attributes that branch reads (an absent attribute is
  \<^term>\<open>None\<close>), and \<open>SOther\<close> for a node no branch matches.
\<close>

datatype schema =
    SObject "(string \<times> schema) list option" "string list option"
  | SArray "real option" "real option" "schema option"
  | SString "string list option"
  | SNumber "real option" "real option"
  | SBoolean
  | SUnion "string list"
  | SOther

record ValidationError =
  message :: string
  path :: string

record ValidationResult =
  valid :: bool
  errors :: "ValidationError list"

text \<open>\<^verbatim>\<open>field in obj\<close> for a plain object: an own property or an inherited one.\<close>

definition js_in :: "engine \<Rightarrow> string \<Rightarrow> (string \<times> json) list \<Rightarrow> bool" where
  "js_in E field kvs = (field \<in> set (map fst kvs) \<or> field \<in> set (ObjectPrototype E))"

definition missing_required :: "engine \<Rightarrow> (string \<times> json) list \<Rightarrow> string \<Rightarrow> string list \<Rightarrow> ValidationError list" where
  "missing_required E kvs p req =
     map (\<lambda>field. \<lparr>message = ''Missing required field: '' @ field, path = p @ ''.'' @ field\<rparr>)
       (filter (\<lambda>field. \<not> js_in E field kvs) req)"

text \<open>One case of the \<^verbatim>\<open>switch\<close> inside \<^verbatim>\<open>objSchema.type.some(...)\<close>.\<close>

definition type_matches :: "json \<Rightarrow> string \<Rightarrow> bool" where
  "type_matches obj t =
     (if t = ''null'' then obj = JNull
      else if t = ''string'' then (case obj of JStr s \<Rightarrow> True | _ \<Rightarrow> False)
      else if t = ''number'' then (case obj of JNum r \<Rightarrow> True | _ \<Rightarrow> False)
      else if t = ''boolean'' then (case obj of JBool b \<Rightarrow> True | _ \<Rightarrow> False)
      else if t = ''array'' then (case obj of JArr xs ps \<Rightarrow> True | _ \<Rightarrow> False)
      else if t = ''object'' then (case obj of JObj kvs \<Rightarrow> True | _ \<Rightarrow> False)
      else False)"

text \<open>
  The inner \<^verbatim>\<open>validate(obj, objSchema, path)\<close>. It returns the errors it pushes, in
  the order it pushes them, or the exception that a comparison of a non-number with a
  bound throws. \<open>validate_entries\<close> is the \<^verbatim>\<open>Object.entries(obj).forEach\<close> loop and
  \<open>validate_items\<close> the \<^verbatim>\<open>obj.forEach\<close> loop, from index \<open>i\<close> on.
\<close>

fun validate :: "engine \<Rightarrow> json \<Rightarrow> schema \<Rightarrow> string \<Rightarrow> exn + ValidationError list"
and validate_entries :: "engine \<Rightarrow> (string \<times> json) list \<Rightarrow> (string \<times> schema) list option \<Rightarrow> string \<Rightarrow> exn + ValidationError list"
and validate_items :: "engine \<Rightarrow> json list \<Rightarrow> nat \<Rightarrow> schema \<Rightarrow> string \<Rightarrow> exn + ValidationError list"
where
  "validate E obj (SObject props req) p =
     (case obj of
        JObj kvs \<Rightarrow>
          bind (validate_entries E kvs props p) (\<lambda>es.
            Inr ((case req of None \<Rightarrow> [] | Some r \<Rightarrow> missing_required E kvs p r) @ es))
      | _ \<Rightarrow> Inr [\<lparr>message = ''Expected object at '' @ p, path = p\<rparr>])"
| "validate E obj (SArray minItems maxItems items) p =
     (case obj of
        JArr xs ps \<Rightarrow>
          bind (case items of None \<Rightarrow> Inr [] | Some s \<Rightarrow> validate_items E xs 0 s p) (\<lambda>es.
            Inr ((case minItems of
                    None \<Rightarrow> []
                  | Some m \<Rightarrow>
                      if m \<noteq> 0 \<and> real (length xs) < m
                      then [\<lparr>message = ''Array must have at least '' @ NumberToString E m @ '' items'', path = p\<rparr>]
                      else [])
               @ (case maxItems of
                    None \<Rightarrow> []
                  | Some m \<Rightarrow>
                      if m \<noteq> 0 \<and> real (length xs) > m
                      then [\<lparr>message = ''Array must have at most '' @ NumberToString E m @ '' items'', path = p\<rparr>]
                      else [])
               @ es))
      | _ \<Rightarrow> Inr [\<lparr>message = ''Expected array at '' @ p, path = p\<rparr>])"
| "validate E obj (SString enum) p =
     Inr ((case obj of JStr s \<Rightarrow> [] | _ \<Rightarrow> [\<lparr>message = ''Expected string at '' @ p, path = p\<rparr>])
        @ (case enum of
             None \<Rightarrow> []
           | Some vs \<Rightarrow>
               if (case obj of JStr s \<Rightarrow> s \<in> set vs | _ \<Rightarrow> False) then []
               else [\<lparr>message = ''Value must be one of: '' @ join '', '' vs, path = p\<rparr>]))"
| "validate E obj (SNumber minimum maximum) p =
     bind (case minimum of None \<Rightarrow> Inr False | Some m \<Rightarrow> js_lt E obj m) (\<lambda>below.
     bind (case maximum of None \<Rightarrow> Inr False | Some m \<Rightarrow> js_gt E obj m) (\<lambda>above.
       Inr ((case obj of JNum r \<Rightarrow> [] | _ \<Rightarrow> [\<lparr>message = ''Expected number at '' @ p, path = p\<rparr>])
          @ (if below then [\<lparr>message = ''Value must be >= '' @ NumberToString E (the minimum), path = p\<rparr>] else [])
          @ (if above then [\<lparr>message = ''Value must be <= '' @ NumberToString E (the maximum), path = p\<rparr>] else []))))"
| "validate E obj SBoolean p =
     Inr (case obj of JBool b \<Rightarrow> [] | _ \<Rightarrow> [\<lparr>message = ''Expected boolean at '' @ p, path = p\<rparr>])"
| "validate E obj (SUnion types) p =
     Inr (if list_ex (type_matches obj) types then []
          else [\<lparr>message = ''Expected one of types: '' @ join '', '' types, path = p\<rparr>])"
| "validate E obj SOther p = Inr []"
| "validate_entries E [] props p = Inr []"
| "validate_entries E ((key, v) # kvs) props p =
     bind (case props of
             None \<Rightarrow> Inr []
           | Some ps \<Rightarrow> (case map_of ps key of None \<Rightarrow> Inr [] | Some fieldSchema \<Rightarrow> validate E v fieldSchema (p @ ''.'' @ key))) (\<lambda>es.
     bind (validate_entries E kvs props p) (\<lambda>es'. Inr (es @ es')))"
| "validate_items E [] i s p = Inr []"
| "validate_items E (item # xs) i s p =
     bind (validate E item s (p @ ''['' @ show_nat i @ '']'')) (\<lambda>es.
     bind (validate_items E xs (Suc i) s p) (\<lambda>es'. Inr (es @ es')))"

definition validateJsonSchema :: "engine \<Rightarrow> json \<Rightarrow> schema \<Rightarrow> exn + ValidationResult" where
  "validateJsonSchema E data schema =
     bind (validate E data schema ''root'') (\<lambda>es. Inr \<lparr>valid = (es = []), errors = es\<rparr>)"

text \<open>
  An engine for the closed examples of this theory. Its \<^verbatim>\<open>NumberToString\<close> is the
  decimal numeral, which is what the engine prints for the naturals below \<open>10^21\<close>; the
  coercions give what they give for a plain object without a \<^verbatim>\<open>toString\<close> of its own
  (\<^verbatim>\<open>NaN\<close>, \<^verbatim>\<open>"[object Object]"\<close>); its \<^verbatim>\<open>JSON.parse\<close> knows the two texts that the
  examples parse, \<^verbatim>\<open>{"tomDeVoz":{"manter":"x"}}\<close> and \<^verbatim>\<open>{"jobToBeDone":"x"}\<close> (\<open>0x22\<close> is
  the double quote). The general theorems hold for every engine.
\<close>

definition violating_text :: string where
  "violating_text =
     ''{'' @ [CHR 0x22] @ ''tomDeVoz'' @ [CHR 0x22] @ '':{'' @ [CHR 0x22] @ ''manter'' @ [CHR 0x22]
       @ '':'' @ [CHR 0x22] @ ''x'' @ [CHR 0x22] @ ''}}''"

definition violating_document :: json where
  "violating_document = JObj [(''tomDeVoz'', JObj [(''manter'', JStr ''x'')])]"

definition primitive_text :: string where
  "primitive_text =
     ''{'' @ [CHR 0x22] @ ''jobToBeDone'' @ [CHR 0x22] @ '':'' @ [CHR 0x22] @ ''x'' @ [CHR 0x22] @ ''}''"

definition primitive_document :: json where
  "primitive_document = JObj [(''jobToBeDone'', JStr ''x'')]"

definition sample_engine :: engine where
  "sample_engine =
     \<lparr>NumberToString = (\<lambda>r. show_nat (nat \<lfloor>r\<rfloor>)),
      ToNumber = (\<lambda>v. Inr None),
      ToString = (\<lambda>v. Inr ''[object Object]''),
      JSON_parse = (\<lambda>s. if s = violating_text then Inr violating_document
                           else if s = primitive_text then Inr primitive_document
                           else Inl SyntaxError),
      ObjectPrototype = [''constructor'', ''hasOwnProperty'', ''isPrototypeOf'',
        ''propertyIsEnumerable'', ''toLocaleString'', ''toString'', ''valueOf'']\<rparr>"

text \<open>The error of line 36 of \<^verbatim>\<open>validation.ts\<close>, for \<^verbatim>\<open>minItems = m\<close> at path \<open>p\<close>.\<close>

definition too_few :: "engine \<Rightarrow> real \<Rightarrow> string \<Rightarrow> ValidationError" where
  "too_few E m p = \<lparr>message = ''Array must have at least '' @ NumberToString E m @ '' items'', path = p\<rparr>"


text \<open>The error of line 40, for \<^verbatim>\<open>maxItems = m\<close> at path \<open>p\<close>, and the errors of lines 39-41.\<close>

definition too_many :: "engine \<Rightarrow> real \<Rightarrow> string \<Rightarrow> ValidationError" where
  "too_many E m p = \<lparr>message = ''Array must have at most '' @ NumberToString E m @ '' items'', path = p\<rparr>"

definition maxItems_errors :: "engine \<Rightarrow> real option \<Rightarrow> nat \<Rightarrow> string \<Rightarrow> ValidationError list" where
  "maxItems_errors E maxItems n p =
     (case maxItems of None \<Rightarrow> [] | Some m \<Rightarrow> if m \<noteq> 0 \<and> real n > m then [too_many E m p] else [])"

text \<open>The path \<^verbatim>\<open>`${path}[${index}]`\<close> of line 44.\<close>

definition item_path :: "string \<Rightarrow> nat \<Rightarrow> string" where
  "item_path p i = p @ ''['' @ show_nat i @ '']''"

text \<open>
  \<open>bound_free s\<close>: no \<^verbatim>\<open>number\<close> node of the schema \<open>s\<close> has a \<^verbatim>\<open>minimum\<close> or a
  \<^verbatim>\<open>maximum\<close>, so that validating against \<open>s\<close> compares nothing (lines 57 and 60).
\<close>

fun bound_free :: "schema \<Rightarrow> bool" where
  "bound_free (SObject props req) =
     (case props of None \<Rightarrow> True | Some ps \<Rightarrow> list_all (\<lambda>ks. bound_free (snd ks)) ps)"
| "bound_free (SArray minItems maxItems items) = (case items of None \<Rightarrow> True | Some s \<Rightarrow> bound_free s)"
| "bound_free (SNumber minimum maximum) = (minimum = None \<and> maximum = None)"
| "bound_free s = True"

text \<open>
  An engine that differs from the sample engine in \<^verbatim>\<open>ToNumber\<close> of a plain object whose
  own \<^verbatim>\<open>valueOf\<close> and \<^verbatim>\<open>toString\<close> both hide the inherited methods: a property of a parsed
  document is never callable, so the conversion to a primitive finds no method to call
  and throws a \<^verbatim>\<open>TypeError\<close>.
\<close>

definition coercing_engine :: engine where
  "coercing_engine =
     sample_engine
       \<lparr>ToNumber := (\<lambda>v. case v of
           JObj kvs \<Rightarrow>
             if map_of kvs ''valueOf'' \<noteq> None \<and> map_of kvs ''toString'' \<noteq> None then Inl TypeError
             else Inr None
         | _ \<Rightarrow> Inr None)\<rparr>"
section \<open>Normalizer (\<^verbatim>\<open>validation.ts\<close>, \<^verbatim>\<open>normalizeV6Data\<close>)\<close>

text \<open>
  Reading the property \<open>k\<close> of a value that is not \<^verbatim>\<open>null\<close>, for the property names
  that the normalizer uses: none of them is an array index and none but \<^verbatim>\<open>length\<close>
  is defined by a prototype. The normalizer reads properties of truthy values only.
\<close>

fun get_named :: "json \<Rightarrow> string \<Rightarrow> json option" where
  "get_named (JObj kvs) k = map_of kvs k"
| "get_named (JArr xs ps) k = (if k = ''length'' then Some (JNum (real (length xs))) else map_of ps k)"
| "get_named (JStr s) k = (if k = ''length'' then Some (JNum (real (length s))) else None)"
| "get_named v k = None"

text \<open>
  The assignment \<^verbatim>\<open>target.k = v\<close> for such a name \<open>k \<noteq> length\<close>, returning the target
  after the assignment. The module is an ES module, hence strict code: assigning a
  property of a primitive throws a \<^verbatim>\<open>TypeError\<close>. On an object or array the property
  is overwritten in place or appended after the existing ones.
\<close>

fun set_named :: "json \<Rightarrow> string \<Rightarrow> json \<Rightarrow> exn + json" where
  "set_named (JObj kvs) k v = Inr (JObj (AList.update k v kvs))"
| "set_named (JArr xs ps) k v = Inr (JArr xs (AList.update k v ps))"
| "set_named t k v = Inl TypeError"

text \<open>The own enumerable properties that \<^verbatim>\<open>{ ...data }\<close> copies.\<close>

fun spread :: "json \<Rightarrow> (string \<times> json) list" where
  "spread (JObj kvs) = kvs"
| "spread (JArr xs ps) = zip (map show_nat [0..<length xs]) xs @ ps"
| "spread (JStr s) = zip (map show_nat [0..<length s]) (map (\<lambda>c. JStr [c]) s)"
| "spread v = []"

text \<open>\<^verbatim>\<open>if (!target.k) { target.k = d; }\<close>\<close>

definition default_if_falsy :: "json \<Rightarrow> string \<Rightarrow> json \<Rightarrow> exn + json" where
  "default_if_falsy target k d =
     (if truthy_opt (get_named target k) then Inr target else set_named target k d)"

text \<open>
  Statements that work on \<^verbatim>\<open>target.k\<close> in place: \<open>f\<close> is their effect on the child, and
  the parent afterwards holds the changed child. Reading a property of \<^verbatim>\<open>undefined\<close>
  throws.
\<close>

definition in_child :: "json \<Rightarrow> string \<Rightarrow> (json \<Rightarrow> exn + json) \<Rightarrow> exn + json" where
  "in_child target k f =
     (case get_named target k of
        None \<Rightarrow> Inl TypeError
      | Some c \<Rightarrow> bind (f c) (\<lambda>c'. set_named target k c'))"

definition default_avaliacao :: json where
  "default_avaliacao =
     JObj [(''atinge'', JBool False), (''justificativa'', JStr ''''), (''sugestoes'', JArr [] [])]"

definition default_jobToBeDone :: json where
  "default_jobToBeDone = JObj [(''placeholderExemplo'', JStr ''''), (''avaliacao'', default_avaliacao)]"

definition default_tomDeVoz :: json where
  "default_tomDeVoz = JObj [(''nota'', JNum 0), (''manter'', JArr [] []), (''mudar'', JArr [] [])]"

definition default_cta :: json where
  "default_cta = JObj [(''principal'', JNull), (''clareza'', JNum 0), (''recomendacao'', JStr '''')]"

definition default_experiencia :: json where
  "default_experiencia =
     JObj [(''nota'', JNum 0), (''usabilidade'', JArr [] []), (''visual'', JArr [] []),
           (''acessibilidade'', JArr [] []), (''cta'', default_cta)]"

text \<open>
  The placeholder entry of lines 179-182; the letters outside ASCII are written by
  their code unit (\<open>0xE3\<close> is a with tilde, \<open>0xE1\<close> is a with acute).
\<close>

definition default_prioridadesTop3 :: json where
  "default_prioridadesTop3 =
     JArr [JObj [(''resumo'', JStr (''Prioridade n'' @ [CHR 0xE3] @ ''o identificada'')),
                 (''motivo'', JStr (''An'' @ [CHR 0xE1] @ ''lise incompleta ou dados insuficientes''))]] []"

text \<open>Lines 101-127.\<close>

definition ensure_jobToBeDone :: "json \<Rightarrow> exn + json" where
  "ensure_jobToBeDone normalized =
     (if \<not> truthy_opt (get_named normalized ''jobToBeDone'')
      then set_named normalized ''jobToBeDone'' default_jobToBeDone
      else in_child normalized ''jobToBeDone'' (\<lambda>j.
        bind (default_if_falsy j ''placeholderExemplo'' (JStr '''')) (\<lambda>j.
          if \<not> truthy_opt (get_named j ''avaliacao'')
          then set_named j ''avaliacao'' default_avaliacao
          else in_child j ''avaliacao'' (\<lambda>a. default_if_falsy a ''sugestoes'' (JArr [] [])))))"

text \<open>Lines 129-143.\<close>

definition ensure_tomDeVoz :: "json \<Rightarrow> exn + json" where
  "ensure_tomDeVoz normalized =
     (if \<not> truthy_opt (get_named normalized ''tomDeVoz'')
      then set_named normalized ''tomDeVoz'' default_tomDeVoz
      else in_child normalized ''tomDeVoz'' (\<lambda>t.
        bind (default_if_falsy t ''manter'' (JArr [] [])) (\<lambda>t.
          default_if_falsy t ''mudar'' (JArr [] []))))"

text \<open>Lines 145-175.\<close>

definition ensure_experiencia :: "json \<Rightarrow> exn + json" where
  "ensure_experiencia normalized =
     (if \<not> truthy_opt (get_named normalized ''experiencia'')
      then set_named normalized ''experiencia'' default_experiencia
      else in_child normalized ''experiencia'' (\<lambda>e.
        bind (default_if_falsy e ''usabilidade'' (JArr [] [])) (\<lambda>e.
        bind (default_if_falsy e ''visual'' (JArr [] [])) (\<lambda>e.
        bind (default_if_falsy e ''acessibilidade'' (JArr [] [])) (\<lambda>e.
          default_if_falsy e ''cta'' default_cta)))))"

text \<open>
  Lines 177-183: \<^verbatim>\<open>!p || p.length === 0\<close>. The strict equality holds for the number
  \<open>0\<close> only.
\<close>

definition ensure_prioridadesTop3 :: "json \<Rightarrow> exn + json" where
  "ensure_prioridadesTop3 normalized =
     (case get_named normalized ''prioridadesTop3'' of
        None \<Rightarrow> set_named normalized ''prioridadesTop3'' default_prioridadesTop3
      | Some p \<Rightarrow>
          if \<not> truthy p \<or> get_named p ''length'' = Some (JNum 0)
          then set_named normalized ''prioridadesTop3'' default_prioridadesTop3
          else Inr normalized)"

text \<open>
  \<^verbatim>\<open>p.slice(0, 3)\<close>: arrays and strings have the method; on anything else the call is
  a call of \<^verbatim>\<open>undefined\<close> or of a value that is not a function.
\<close>

fun slice3 :: "json \<Rightarrow> exn + json" where
  "slice3 (JArr xs ps) = Inr (JArr (take 3 xs) [])"
| "slice3 (JStr s) = Inr (JStr (take 3 s))"
| "slice3 v = Inl TypeError"

text \<open>Lines 185-188: \<^verbatim>\<open>undefined > 3\<close> is false.\<close>

definition cap_prioridadesTop3 :: "engine \<Rightarrow> json \<Rightarrow> exn + json" where
  "cap_prioridadesTop3 E normalized =
     in_child normalized ''prioridadesTop3'' (\<lambda>p.
       case get_named p ''length'' of
         None \<Rightarrow> Inr p
       | Some l \<Rightarrow> bind (js_gt E l 3) (\<lambda>longer. if longer then slice3 p else Inr p))"

text \<open>\<^verbatim>\<open>typeof v === 'number' && !(v < 0) && !(v > 10)\<close>\<close>

definition in_range :: "json option \<Rightarrow> bool" where
  "in_range v = (case v of Some (JNum r) \<Rightarrow> 0 \<le> r \<and> r \<le> 10 | _ \<Rightarrow> False)"

text \<open>\<^verbatim>\<open>if (typeof target.k !== 'number' || target.k < 0 || target.k > 10) target.k = 0\<close>\<close>

definition fix_range :: "json \<Rightarrow> string \<Rightarrow> exn + json" where
  "fix_range target k = (if in_range (get_named target k) then Inr target else set_named target k (JNum 0))"

text \<open>
  Lines 195-201, for \<open>section\<close> one of \<^verbatim>\<open>tomDeVoz\<close> and \<^verbatim>\<open>experiencia\<close>: the test reads
  \<^verbatim>\<open>normalized.section?.nota\<close>, the assignment \<^verbatim>\<open>normalized.section.nota\<close>.
\<close>

definition fix_nota :: "json \<Rightarrow> string \<Rightarrow> exn + json" where
  "fix_nota normalized section = in_child normalized section (\<lambda>s. fix_range s ''nota'')"

text \<open>Lines 203-205.\<close>

definition fix_clareza :: "json \<Rightarrow> exn + json" where
  "fix_clareza normalized =
     in_child normalized ''experiencia'' (\<lambda>e. in_child e ''cta'' (\<lambda>c. fix_range c ''clareza''))"

definition normalizeV6Data :: "engine \<Rightarrow> json \<Rightarrow> exn + json" where
  "normalizeV6Data E data =
     bind (set_named (JObj (spread data)) ''schemaVersion'' (JStr ''v6'')) (\<lambda>normalized.
     bind (default_if_falsy normalized ''objetivoInferido'' (JStr '''')) (\<lambda>normalized.
     bind (ensure_jobToBeDone normalized) (\<lambda>normalized.
     bind (ensure_tomDeVoz normalized) (\<lambda>normalized.
     bind (ensure_experiencia normalized) (\<lambda>normalized.
     bind (ensure_prioridadesTop3 normalized) (\<lambda>normalized.
     bind (cap_prioridadesTop3 E normalized) (\<lambda>normalized.
     bind (fix_range normalized ''pontuacaoGeral'') (\<lambda>normalized.
     bind (fix_nota normalized ''tomDeVoz'') (\<lambda>normalized.
     bind (fix_nota normalized ''experiencia'') (\<lambda>normalized.
       fix_clareza normalized))))))))))"

subsection \<open>Vocabulary for the properties of the normalizer\<close>

text \<open>What \<^verbatim>\<open>typeof v === 'object' && v !== null\<close> accepts: a plain object or an array.\<close>

fun is_object :: "json \<Rightarrow> bool" where
  "is_object (JObj kvs) = True"
| "is_object (JArr xs ps) = True"
| "is_object v = False"

fun is_plain :: "json \<Rightarrow> bool" where
  "is_plain (JObj kvs) = True"
| "is_plain v = False"

fun elements :: "json \<Rightarrow> json list" where
  "elements (JArr xs ps) = xs"
| "elements v = []"

text \<open>
  \<open>same_except t t' ks\<close>: \<open>t'\<close> has every property of \<open>t\<close> outside \<open>ks\<close>, with the same
  value, and the same array elements. \<open>kept_or t t' k d\<close>: the property \<open>k\<close> of \<open>t'\<close> is
  that of \<open>t\<close> when it was truthy and the default \<open>d\<close> otherwise. \<open>kept_range t t' k\<close>:
  it is that of \<open>t\<close> when that was a number in \<open>[0,10]\<close> and \<open>0\<close> otherwise.
\<close>

definition same_except :: "json \<Rightarrow> json \<Rightarrow> string list \<Rightarrow> bool" where
  "same_except t t' ks =
     ((\<forall>k. k \<notin> set ks \<longrightarrow> get_named t' k = get_named t k) \<and> elements t' = elements t)"

definition kept_or :: "json \<Rightarrow> json \<Rightarrow> string \<Rightarrow> json \<Rightarrow> bool" where
  "kept_or t t' k d =
     (get_named t' k = (if truthy_opt (get_named t k) then get_named t k else Some d))"

definition kept_range :: "json \<Rightarrow> json \<Rightarrow> string \<Rightarrow> bool" where
  "kept_range t t' k =
     (get_named t' k = (if in_range (get_named t k) then get_named t k else Some (JNum 0)))"

text \<open>
  \<open>section_or old d new R\<close>: the section \<open>new\<close> is the default \<open>d\<close> when it was absent or
  falsy, and otherwise the supplied object, changed as \<open>R\<close> says.
\<close>

definition section_or :: "json option \<Rightarrow> json \<Rightarrow> json \<Rightarrow> (json \<Rightarrow> json \<Rightarrow> bool) \<Rightarrow> bool" where
  "section_or old d new R =
     (case old of
        None \<Rightarrow> new = d
      | Some s \<Rightarrow> if truthy s then is_object s \<and> is_object new \<and> R s new else new = d)"

definition avaliacao_rel :: "json \<Rightarrow> json \<Rightarrow> bool" where
  "avaliacao_rel a a' = (same_except a a' [''sugestoes''] \<and> kept_or a a' ''sugestoes'' (JArr [] []))"

definition jobToBeDone_rel :: "json \<Rightarrow> json \<Rightarrow> bool" where
  "jobToBeDone_rel j j' =
     (same_except j j' [''placeholderExemplo'', ''avaliacao'']
      \<and> kept_or j j' ''placeholderExemplo'' (JStr '''')
      \<and> (\<exists>a'. get_named j' ''avaliacao'' = Some a'
            \<and> section_or (get_named j ''avaliacao'') default_avaliacao a' avaliacao_rel))"

definition tomDeVoz_rel :: "json \<Rightarrow> json \<Rightarrow> bool" where
  "tomDeVoz_rel t t' =
     (same_except t t' [''manter'', ''mudar'', ''nota'']
      \<and> kept_or t t' ''manter'' (JArr [] [])
      \<and> kept_or t t' ''mudar'' (JArr [] [])
      \<and> kept_range t t' ''nota'')"

definition cta_rel :: "json \<Rightarrow> json \<Rightarrow> bool" where
  "cta_rel c c' = (same_except c c' [''clareza''] \<and> kept_range c c' ''clareza'')"

definition experiencia_rel :: "json \<Rightarrow> json \<Rightarrow> bool" where
  "experiencia_rel e e' =
     (same_except e e' [''usabilidade'', ''visual'', ''acessibilidade'', ''cta'', ''nota'']
      \<and> kept_or e e' ''usabilidade'' (JArr [] [])
      \<and> kept_or e e' ''visual'' (JArr [] [])
      \<and> kept_or e e' ''acessibilidade'' (JArr [] [])
      \<and> kept_range e e' ''nota''
      \<and> (\<exists>c'. get_named e' ''cta'' = Some c'
            \<and> section_or (get_named e ''cta'') default_cta c' cta_rel))"

text \<open>The first three entries of a list or string that has more, the value itself otherwise.\<close>

fun first3 :: "json \<Rightarrow> json" where
  "first3 (JArr xs ps) = (if 3 < length xs then JArr (take 3 xs) [] else JArr xs ps)"
| "first3 (JStr s) = (if 3 < length s then JStr (take 3 s) else JStr s)"
| "first3 v = v"

definition prioridadesTop3_rel :: "json option \<Rightarrow> json \<Rightarrow> bool" where
  "prioridadesTop3_rel old new =
     (case old of
        None \<Rightarrow> new = default_prioridadesTop3
      | Some p \<Rightarrow>
          if \<not> truthy p \<or> get_named p ''length'' = Some (JNum 0) then new = default_prioridadesTop3
          else new = first3 p)"

text \<open>The seven properties of the document that the normalizer assigns.\<close>

definition handled :: "string list" where
  "handled = [''schemaVersion'', ''objetivoInferido'', ''jobToBeDone'', ''tomDeVoz'',
              ''experiencia'', ''prioridadesTop3'', ''pontuacaoGeral'']"

text \<open>
  \<open>normalized_from X y\<close>: what the document \<open>y\<close> keeps of the document \<open>X\<close> and what it
  replaces, property by property.
\<close>

definition normalized_from :: "json \<Rightarrow> json \<Rightarrow> bool" where
  "normalized_from X y =
     (is_plain y
      \<and> same_except X y handled
      \<and> get_named y ''schemaVersion'' = Some (JStr ''v6'')
      \<and> kept_or X y ''objetivoInferido'' (JStr '''')
      \<and> kept_range X y ''pontuacaoGeral''
      \<and> (\<exists>j'. get_named y ''jobToBeDone'' = Some j'
            \<and> section_or (get_named X ''jobToBeDone'') default_jobToBeDone j' jobToBeDone_rel)
      \<and> (\<exists>t'. get_named y ''tomDeVoz'' = Some t'
            \<and> section_or (get_named X ''tomDeVoz'') default_tomDeVoz t' tomDeVoz_rel)
      \<and> (\<exists>e'. get_named y ''experiencia'' = Some e'
            \<and> section_or (get_named X ''experiencia'') default_experiencia e' experiencia_rel)
      \<and> (\<exists>p'. get_named y ''prioridadesTop3'' = Some p'
            \<and> prioridadesTop3_rel (get_named X ''prioridadesTop3'') p'))"

text \<open>No further statement changes a list of priorities that satisfies \<open>capped\<close>.\<close>

definition capped :: "engine \<Rightarrow> json \<Rightarrow> bool" where
  "capped E p = (truthy p \<and> get_named p ''length'' \<noteq> Some (JNum 0)
     \<and> (case get_named p ''length'' of None \<Rightarrow> True | Some l \<Rightarrow> js_gt E l 3 = Inr False))"

text \<open>
  \<open>object_or_unset v\<close>: the property is absent, falsy or an object (an array counts).
  \<open>child_of v k\<close>: the property \<open>k\<close> of a truthy section \<open>v\<close>.
  \<open>sections_well_typed x\<close>: the three sections of \<open>x\<close>, \<^verbatim>\<open>jobToBeDone.avaliacao\<close> and
  \<^verbatim>\<open>experiencia.cta\<close> are absent, falsy or objects, and \<^verbatim>\<open>prioridadesTop3\<close> is not a
  plain object with a \<^verbatim>\<open>length\<close> of its own.
\<close>

definition object_or_unset :: "json option \<Rightarrow> bool" where
  "object_or_unset v = (case v of None \<Rightarrow> True | Some s \<Rightarrow> truthy s \<longrightarrow> is_object s)"

definition child_of :: "json option \<Rightarrow> string \<Rightarrow> json option" where
  "child_of v k = (case v of None \<Rightarrow> None | Some s \<Rightarrow> if truthy s then get_named s k else None)"

definition no_own_length :: "json option \<Rightarrow> bool" where
  "no_own_length v = (case v of Some (JObj kvs) \<Rightarrow> map_of kvs ''length'' = None | _ \<Rightarrow> True)"

definition sections_well_typed :: "json \<Rightarrow> bool" where
  "sections_well_typed x =
     (object_or_unset (get_named (JObj (spread x)) ''jobToBeDone'')
      \<and> object_or_unset (child_of (get_named (JObj (spread x)) ''jobToBeDone'') ''avaliacao'')
      \<and> object_or_unset (get_named (JObj (spread x)) ''tomDeVoz'')
      \<and> object_or_unset (get_named (JObj (spread x)) ''experiencia'')
      \<and> object_or_unset (child_of (get_named (JObj (spread x)) ''experiencia'') ''cta'')
      \<and> no_own_length (get_named (JObj (spread x)) ''prioridadesTop3''))"

text \<open>The three sections that the normalizer fills in.\<close>

definition sections :: "string list" where
  "sections = [''jobToBeDone'', ''tomDeVoz'', ''experiencia'']"

section \<open>The schema of the analysis (\<^verbatim>\<open>schemas.ts\<close>)\<close>

text \<open>
  \<^verbatim>\<open>ANALYSIS_SCHEMA\<close>, node by node. The attributes that \<^verbatim>\<open>validate\<close> never reads
  (\<^verbatim>\<open>description\<close>, \<^verbatim>\<open>additionalProperties\<close>) are left out.
\<close>

definition string_or_null :: schema where
  "string_or_null = SUnion [''string'', ''null'']"

definition score :: schema where
  "score = SNumber (Some 0) (Some 10)"

definition change_item :: schema where
  "change_item =
     SObject (Some [(''elemento'', SString None), (''antes'', string_or_null),
                    (''depois'', SString None), (''porque'', SString None)])
             (Some [''elemento'', ''depois'', ''porque''])"

definition ANALYSIS_SCHEMA :: schema where
  "ANALYSIS_SCHEMA =
     SObject (Some
       [(''schemaVersion'', SString (Some [''v6''])),
        (''pontuacaoGeral'', score),
        (''objetivoInferido'', SString None),
        (''jobToBeDone'',
           SObject (Some
             [(''placeholderExemplo'', SString None),
              (''avaliacao'',
                 SObject (Some
                   [(''atinge'', SBoolean),
                    (''justificativa'', SString None),
                    (''sugestoes'', SArray None None (Some (SString None)))])
                   (Some [''atinge'', ''justificativa'']))])
             (Some [''placeholderExemplo'', ''avaliacao''])),
        (''tomDeVoz'',
           SObject (Some
             [(''nota'', score),
              (''manter'',
                 SArray None None (Some
                   (SObject (Some [(''elemento'', SString None), (''motivo'', SString None)])
                            (Some [''elemento'', ''motivo''])))),
              (''mudar'', SArray None None (Some change_item))])
             (Some [''nota''])),
        (''experiencia'',
           SObject (Some
             [(''nota'', score),
              (''usabilidade'', SArray None None (Some change_item)),
              (''visual'', SArray None None (Some change_item)),
              (''acessibilidade'',
                 SArray None None (Some
                   (SObject (Some [(''elemento'', SString None), (''wcag'', string_or_null),
                                   (''antes'', string_or_null), (''depois'', SString None),
                                   (''porque'', SString None)])
                            (Some [''elemento'', ''depois'', ''porque''])))),
              (''cta'',
                 SObject (Some
                   [(''principal'', string_or_null),
                    (''clareza'', score),
                    (''recomendacao'', SString None)])
                   (Some [''clareza'', ''recomendacao'']))])
             (Some [''nota''])),
        (''prioridadesTop3'',
           SArray (Some 1) (Some 3) (Some
             (SObject (Some [(''resumo'', SString None), (''motivo'', SString None)])
                      (Some [''resumo'', ''motivo'']))))])
       (Some [''schemaVersion'', ''pontuacaoGeral'', ''jobToBeDone'', ''tomDeVoz'',
              ''experiencia'', ''prioridadesTop3''])"

text \<open>The schema that \<^verbatim>\<open>validate\<close> reaches along a path of property names.\<close>

fun subschema :: "schema \<Rightarrow> string list \<Rightarrow> schema option" where
  "subschema s [] = Some s"
| "subschema (SObject (Some props) req) (k # ks) =
     (case map_of props k of None \<Rightarrow> None | Some s \<Rightarrow> subschema s ks)"
| "subschema s (k # ks) = None"

text \<open>The value along a path of property names (\<^verbatim>\<open>a?.b?.c\<close>) and the path as \<^verbatim>\<open>validate\<close> writes it.\<close>

fun get_path :: "json \<Rightarrow> string list \<Rightarrow> json option" where
  "get_path v [] = Some v"
| "get_path v (k # ks) = (case get_named v k of None \<Rightarrow> None | Some c \<Rightarrow> get_path c ks)"



text \<open>The property at a path of the document that a call returned, if it returned one.\<close>

definition field_of :: "exn + json \<Rightarrow> string list \<Rightarrow> json option" where
  "field_of r p = (case r of Inl e \<Rightarrow> None | Inr y \<Rightarrow> get_path y p)"

text \<open>A document for the closed examples, and what the normalizer returns for it.\<close>

definition example_document :: json where
  "example_document =
     JObj [(''pontuacaoGeral'', JNum 15),
           (''tomDeVoz'', JObj [(''manter'', JNull)]),
           (''experiencia'', JObj [(''cta'', JObj [(''clareza'', JNum 15)])]),
           (''prioridadesTop3'', JArr [JNum 1, JNum 2, JNum 3, JNum 4] [])]"

definition example_normalized :: json where
  "example_normalized =
     JObj [(''pontuacaoGeral'', JNum 0),
           (''tomDeVoz'', JObj [(''manter'', JArr [] []), (''mudar'', JArr [] []), (''nota'', JNum 0)]),
           (''experiencia'',
              JObj [(''cta'', JObj [(''clareza'', JNum 0)]), (''usabilidade'', JArr [] []),
                    (''visual'', JArr [] []), (''acessibilidade'', JArr [] []), (''nota'', JNum 0)]),
           (''prioridadesTop3'', JArr [JNum 1, JNum 2, JNum 3] []),
           (''schemaVersion'', JStr ''v6''),
           (''objetivoInferido'', JStr ''''),
           (''jobToBeDone'', default_jobToBeDone)]"

section \<open>Prompt builder (\<^verbatim>\<open>index.ts\<close>, \<^verbatim>\<open>AnalysisService.buildPrompt\<close>)\<close>

text \<open>
  \<open>find_first pat s\<close> splits \<open>s\<close> at the first occurrence of \<open>pat\<close> into what is before it
  and what is after it.
\<close>

fun find_first :: "string \<Rightarrow> string \<Rightarrow> (string \<times> string) option" where
  "find_first pat [] = (if pat = [] then Some ([], []) else None)"
| "find_first pat (c # cs) =
     (if prefix pat (c # cs) then Some ([], drop (length pat) (c # cs))
      else map_option (\<lambda>(pre, post). (c # pre, post)) (find_first pat cs))"

text \<open>
  The replacement text of \<^verbatim>\<open>String.prototype.replace\<close> for a string pattern
  (\<^verbatim>\<open>GetSubstitution\<close> without captures): \<^verbatim>\<open>$$\<close> is a dollar sign, \<^verbatim>\<open>$&\<close> the matched
  text, \<^verbatim>\<open>$`\<close> (\<open>0x60\<close>) the text before the match, \<^verbatim>\<open>$'\<close> (\<open>0x27\<close>) the text after it;
  any other character, a dollar sign included, stands for itself.
\<close>

fun substitution :: "string \<Rightarrow> string \<Rightarrow> string \<Rightarrow> string \<Rightarrow> string" where
  "substitution matched pre post [] = []"
| "substitution matched pre post [c] = [c]"
| "substitution matched pre post (d # c # r) =
     (if d = CHR ''$'' \<and> c = CHR ''$'' then CHR ''$'' # substitution matched pre post r
      else if d = CHR ''$'' \<and> c = CHR ''&'' then matched @ substitution matched pre post r
      else if d = CHR ''$'' \<and> c = CHR 0x60 then pre @ substitution matched pre post r
      else if d = CHR ''$'' \<and> c = CHR 0x27 then post @ substitution matched pre post r
      else d # substitution matched pre post (c # r))"

text \<open>\<^verbatim>\<open>s.replace(pat, replacement)\<close> for strings \<open>pat\<close> and \<open>replacement\<close>.\<close>

definition js_replace :: "string \<Rightarrow> string \<Rightarrow> string \<Rightarrow> string" where
  "js_replace s pat replacement =
     (case find_first pat s of
        None \<Rightarrow> s
      | Some (pre, post) \<Rightarrow> pre @ substitution pat pre post replacement @ post)"

record AIConfig =
  system_prompt :: string
  prompt_template :: string

record BrandManual =
  voice_principles :: string
  rules :: string

text \<open>
  \<^verbatim>\<open>ToString\<close> of a property of the request body, as \<^verbatim>\<open>replace\<close> and the template
  literals apply it; \<^term>\<open>None\<close> is \<^verbatim>\<open>undefined\<close>.
\<close>

definition js_string :: "engine \<Rightarrow> json option \<Rightarrow> exn + string" where
  "js_string E v = (case v of
      None \<Rightarrow> Inr ''undefined''
    | Some JNull \<Rightarrow> Inr ''null''
    | Some (JBool b) \<Rightarrow> Inr (if b then ''true'' else ''false'')
    | Some (JNum r) \<Rightarrow> Inr (NumberToString E r)
    | Some (JStr s) \<Rightarrow> Inr s
    | Some x \<Rightarrow> ToString E x)"

text \<open>
  The four replacements of lines 148-152, each applied to the result of the one before.
  The rows of the configuration tables are strings; the properties of the request
  body are whatever the caller sent.
\<close>

definition buildPrompt :: "engine \<Rightarrow> AIConfig \<Rightarrow> BrandManual \<Rightarrow> json \<Rightarrow> exn + string" where
  "buildPrompt E aiConfig brandManual requestBody =
     bind (js_string E (get_named requestBody ''context'')) (\<lambda>context.
     bind (js_string E (get_named requestBody ''jtbd'')) (\<lambda>jtbd.
       Inr (js_replace (js_replace (js_replace (js_replace (prompt_template aiConfig)
              ''{{CONTEXT}}'' context)
              ''{{JTBD}}'' jtbd)
              ''{{VOICE_PRINCIPLES}}'' (voice_principles brandManual))
              ''{{RULES}}'' (rules brandManual))))"

section \<open>Event stream (\<^verbatim>\<open>sse-utils.ts\<close>)\<close>

text \<open>
  The payload of an error event (\<^verbatim>\<open>ErrorResponse\<close> of \<^verbatim>\<open>types.ts\<close>). The \<^verbatim>\<open>message\<close> is a
  literal or the \<^verbatim>\<open>message\<close> of the error that was caught; the engine chooses the text
  of its own errors.
\<close>

datatype error_text = Text string | MessageOf exn

fun message_of :: "exn \<Rightarrow> error_text" where
  "message_of (Error s) = Text s"
| "message_of e = MessageOf e"

record ErrorResponse =
  error :: string
  error_message :: "error_text option"
  code :: "string option"
  details :: "ValidationError list option"
  schema_version :: "string option"
  timestamp :: "string option"

datatype sse_data =
    Progress string string
  | Result json
  | Failure ErrorResponse

record SSEMessage =
  type :: string
  data :: sse_data

text \<open>
  The writer of the stream is the sequence of the calls of \<^verbatim>\<open>writer.write\<close> and
  \<^verbatim>\<open>writer.close\<close> made on it so far, the attempts on a closed writer included (they
  reject, and an awaited rejection throws). The consumer is taken to keep reading: a
  write on an open writer succeeds. The section on request lifecycles has the same
  functions for a consumer that cancels or stops reading.
\<close>

datatype action = Write SSEMessage | Close

type_synonym writer = "action list"

type_synonym 'a io = "writer \<Rightarrow> (exn + 'a) \<times> writer"

definition closed :: "writer \<Rightarrow> bool" where
  "closed w = (Close \<in> set w)"

definition io_return :: "'a \<Rightarrow> 'a io" where
  "io_return a w = (Inr a, w)"

definition io_throw :: "exn \<Rightarrow> 'a io" where
  "io_throw e w = (Inl e, w)"

text \<open>An awaited call of an external service, or a pure computation that may throw.\<close>

definition io_lift :: "exn + 'a \<Rightarrow> 'a io" where
  "io_lift r w = (r, w)"

definition io_bind :: "'a io \<Rightarrow> ('a \<Rightarrow> 'b io) \<Rightarrow> 'b io" where
  "io_bind m f w = (case m w of (Inl e, w') \<Rightarrow> (Inl e, w') | (Inr a, w') \<Rightarrow> f a w')"

text \<open>\<^verbatim>\<open>try { m } catch (error) { h error }\<close> and \<^verbatim>\<open>try { m } finally { c }\<close>.\<close>

definition io_catch :: "'a io \<Rightarrow> (exn \<Rightarrow> 'a io) \<Rightarrow> 'a io" where
  "io_catch m h w = (case m w of (Inl e, w') \<Rightarrow> h e w' | (Inr a, w') \<Rightarrow> (Inr a, w'))"

definition io_finally :: "'a io \<Rightarrow> unit io \<Rightarrow> 'a io" where
  "io_finally m c w =
     (case m w of (r, w') \<Rightarrow> (case c w' of (Inl e, w'') \<Rightarrow> (Inl e, w'') | (Inr u, w'') \<Rightarrow> (r, w'')))"

definition sendSSEMessage :: "string \<Rightarrow> sse_data \<Rightarrow> unit io" where
  "sendSSEMessage t d w =
     (if closed w then Inl TypeError else Inr (), w @ [Write \<lparr>type = t, data = d\<rparr>])"

text \<open>\<^verbatim>\<open>closeWriter\<close> catches what \<^verbatim>\<open>writer.close()\<close> throws.\<close>

definition closeWriter :: "unit io" where
  "closeWriter w = (Inr (), w @ [Close])"

definition sendErrorResponse :: "ErrorResponse \<Rightarrow> unit io" where
  "sendErrorResponse err = io_bind (sendSSEMessage ''error'' (Failure err)) (\<lambda>u. closeWriter)"

definition sendProgressUpdate :: "string \<Rightarrow> string \<Rightarrow> unit io" where
  "sendProgressUpdate step msg = sendSSEMessage ''progress'' (Progress step msg)"

definition sendResult :: "json \<Rightarrow> unit io" where
  "sendResult result = sendSSEMessage ''result'' (Result result)"

section \<open>Completion client (\<^verbatim>\<open>openai-service.ts\<close>)\<close>

record ImageContent =
  url :: "json option"

record CompletionParams =
  model :: string
  system_content :: string
  user_text :: string
  image_content :: ImageContent
  json_schema :: schema
  max_completion_tokens :: nat
  reasoning_effort :: string
  verbosity :: string

text \<open>
  \<^verbatim>\<open>image.startsWith\<close> (here \<open>img\<close>) is a function for a string only; calling it on anything else
  throws.
\<close>

definition prepareImageContent :: "engine \<Rightarrow> json option \<Rightarrow> json option \<Rightarrow> exn + ImageContent" where
  "prepareImageContent E img imageType =
     (if imageType = Some (JStr ''url'') then Inr \<lparr>url = img\<rparr>
      else case img of
        Some (JStr s) \<Rightarrow>
          if prefix ''http'' s then Inr \<lparr>url = img\<rparr>
          else if prefix ''data:'' s then Inr \<lparr>url = img\<rparr>
          else bind (if truthy_opt imageType then js_string E imageType else Inr ''jpeg'') (\<lambda>format.
                 Inr \<lparr>url = Some (JStr (''data:image/'' @ format @ '';base64,'' @ s))\<rparr>)
      | _ \<Rightarrow> Inl TypeError)"

definition buildCompletionParams :: "schema \<Rightarrow> string \<Rightarrow> string \<Rightarrow> ImageContent \<Rightarrow> CompletionParams" where
  "buildCompletionParams schema systemPrompt userPrompt imageContent =
     \<lparr>model = ''gpt-5-mini'', system_content = systemPrompt, user_text = userPrompt,
      image_content = imageContent, json_schema = schema, max_completion_tokens = 6000,
      reasoning_effort = ''medium'', verbosity = ''medium''\<rparr>"

text \<open>
  A completion is the list of its choices, each the \<^verbatim>\<open>message?.content\<close> of the choice
  (\<^term>\<open>None\<close> when there is none). \<^verbatim>\<open>completion.choices[0]?.message?.content || ''\<close>
\<close>

type_synonym completion = "string option list"

definition extractAnalysisResult :: "completion \<Rightarrow> string" where
  "extractAnalysisResult completion =
     (case completion of [] \<Rightarrow> '''' | None # cs \<Rightarrow> '''' | Some content # cs \<Rightarrow> content)"

section \<open>Orchestrator (\<^verbatim>\<open>index.ts\<close>)\<close>

text \<open>
  What the world outside the function gives to one request: whether the clients can be
  constructed, the two rows of the configuration store as \<^verbatim>\<open>{ data, error }\<close> (or the
  exception of the query), the completion of the provider for the parameters it is sent,
  and the time stamp. Every awaited call is taken to settle; the section on request
  lifecycles has the same functions for calls that may never settle.
\<close>

datatype 'a query = Query "'a option" bool

record services =
  createClients :: "exn + unit"
  getAIConfig :: "exn + AIConfig query"
  getBrandManual :: "exn + BrandManual query"
  createCompletion :: "CompletionParams \<Rightarrow> exn + completion"
  now :: string

record request =
  http_method :: string
  json_body :: "exn + json"

datatype Response = CORSResponse | JSONResponse nat string error_text | EventStream

abbreviation (input) a_acute :: char where "a_acute \<equiv> CHR 0xE1"
abbreviation (input) a_circumflex :: char where "a_circumflex \<equiv> CHR 0xE2"
abbreviation (input) a_tilde :: char where "a_tilde \<equiv> CHR 0xE3"
abbreviation (input) c_cedilla :: char where "c_cedilla \<equiv> CHR 0xE7"
abbreviation (input) e_acute :: char where "e_acute \<equiv> CHR 0xE9"
abbreviation (input) o_acute :: char where "o_acute \<equiv> CHR 0xF3"
abbreviation (input) o_tilde :: char where "o_tilde \<equiv> CHR 0xF5"
abbreviation (input) quote :: char where "quote \<equiv> CHR 0x27"

definition schema_violation :: "ValidationError list \<Rightarrow> ErrorResponse" where
  "schema_violation es =
     \<lparr>error = ''Erro de valida'' @ [c_cedilla, a_tilde] @ ''o do schema'',
      error_message = None,
      code = Some ''LLM_SCHEMA_VIOLATION'',
      details = Some es,
      schema_version = Some ''v6'',
      timestamp = None\<rparr>"

definition analysis_error :: "services \<Rightarrow> exn \<Rightarrow> ErrorResponse" where
  "analysis_error S e =
     \<lparr>error = ''Erro na an'' @ [a_acute] @ ''lise'',
      error_message = Some (message_of e),
      code = None, details = None, schema_version = None,
      timestamp = Some (now S)\<rparr>"

text \<open>\<^verbatim>\<open>if (error || !data) throw new Error(msg)\<close>\<close>

definition required_row :: "'a query \<Rightarrow> string \<Rightarrow> 'a io" where
  "required_row r msg = (case r of Query (Some row) False \<Rightarrow> io_return row | _ \<Rightarrow> io_throw (Error msg))"

definition processAnalysis :: "engine \<Rightarrow> services \<Rightarrow> json \<Rightarrow> unit io" where
  "processAnalysis E S requestBody =
     io_catch
      (io_bind (sendProgressUpdate ''configuracao'' (''Carregando configura'' @ [c_cedilla, o_tilde] @ ''es...'')) (\<lambda>u.
       io_bind (io_lift (getAIConfig S)) (\<lambda>r.
       io_bind (required_row r (''Configura'' @ [c_cedilla, o_tilde] @ ''es da IA n'' @ [a_tilde] @ ''o encontradas'')) (\<lambda>aiConfig.
       io_bind (sendProgressUpdate ''manual'' ''Carregando manual da marca...'') (\<lambda>u.
       io_bind (io_lift (getBrandManual S)) (\<lambda>r.
       io_bind (required_row r (''Manual da marca n'' @ [a_tilde] @ ''o encontrado'')) (\<lambda>brandManual.
       io_bind (sendProgressUpdate ''prompt'' (''Preparando an'' @ [a_acute] @ ''lise...'')) (\<lambda>u.
       io_bind (io_lift (buildPrompt E aiConfig brandManual requestBody)) (\<lambda>finalPrompt.
       io_bind (io_lift (prepareImageContent E (get_named requestBody ''image'')
                           (get_named requestBody ''imageType''))) (\<lambda>imageContent.
       io_bind (sendProgressUpdate ''api'' ''Analisando com IA...'') (\<lambda>u.
       io_bind (io_lift (createCompletion S
                  (buildCompletionParams ANALYSIS_SCHEMA (system_prompt aiConfig) finalPrompt imageContent))) (\<lambda>completion.
       io_bind (sendProgressUpdate ''processando'' ''Processando resultado...'') (\<lambda>u.
       io_bind (if extractAnalysisResult completion = [] then io_throw (Error ''Resposta vazia da IA'')
                else io_return (extractAnalysisResult completion)) (\<lambda>analysisResult.
       io_bind (io_lift (JSON_parse E analysisResult)) (\<lambda>parsedResult.
       io_bind (io_lift (normalizeV6Data E parsedResult)) (\<lambda>normalizedData.
       io_bind (io_lift (validateJsonSchema E normalizedData ANALYSIS_SCHEMA)) (\<lambda>validation.
         if \<not> valid validation then sendErrorResponse (schema_violation (errors validation))
         else sendResult normalizedData)))))))))))))))))
      (\<lambda>e. sendErrorResponse (analysis_error S e))"

text \<open>
  \<^verbatim>\<open>!requestBody.context || !requestBody.jtbd || !requestBody.image\<close>; reading a
  property of \<^verbatim>\<open>null\<close> throws.
\<close>

definition missing_parameters :: "json \<Rightarrow> exn + bool" where
  "missing_parameters requestBody =
     (case requestBody of
        JNull \<Rightarrow> Inl TypeError
      | _ \<Rightarrow> Inr (\<not> truthy_opt (get_named requestBody ''context'')
                \<or> \<not> truthy_opt (get_named requestBody ''jtbd'')
                \<or> \<not> truthy_opt (get_named requestBody ''image'')))"

definition missing_parameters_error :: ErrorResponse where
  "missing_parameters_error =
     \<lparr>error = ''Par'' @ [a_circumflex] @ ''metros obrigat'' @ [o_acute] @ ''rios ausentes'',
      error_message = Some (Text (''Os campos '' @ [quote] @ ''context'' @ [quote] @ '', '' @ [quote] @ ''jtbd''
         @ [quote] @ '' e '' @ [quote] @ ''image'' @ [quote] @ '' s'' @ [a_tilde] @ ''o obrigat'' @ [o_acute] @ ''rios'')),
      code = None, details = None, schema_version = None, timestamp = None\<rparr>"

text \<open>\<^verbatim>\<open>error.message || "Erro desconhecido"\<close>\<close>

definition internal_error :: "services \<Rightarrow> exn \<Rightarrow> ErrorResponse" where
  "internal_error S e =
     \<lparr>error = ''Erro interno do servidor'',
      error_message = Some (if message_of e = Text [] then Text ''Erro desconhecido'' else message_of e),
      code = None, details = None, schema_version = None,
      timestamp = Some (now S)\<rparr>"

definition processRequest :: "engine \<Rightarrow> services \<Rightarrow> request \<Rightarrow> unit io" where
  "processRequest E S req =
     io_finally
      (io_catch
        (io_bind (sendProgressUpdate ''inicializando'' (''Iniciando an'' @ [a_acute] @ ''lise...'')) (\<lambda>u.
         io_bind (io_lift (createClients S)) (\<lambda>u.
         io_bind (io_lift (json_body req)) (\<lambda>requestBody.
         io_bind (io_lift (missing_parameters requestBody)) (\<lambda>missing.
           if missing then sendErrorResponse missing_parameters_error
           else processAnalysis E S requestBody)))))
        (\<lambda>e. sendErrorResponse (internal_error S e)))
      closeWriter"

text \<open>
  \<^verbatim>\<open>handleRequest\<close> returns the response at once and lets \<^verbatim>\<open>processRequest\<close> run on the
  writer of the stream it has created; the result here is the response together with
  everything that is then done on that writer (nothing when no stream is created).
\<close>

definition method_not_allowed :: Response where
  "method_not_allowed =
     JSONResponse 405 (''M'' @ [e_acute] @ ''todo n'' @ [a_tilde] @ ''o permitido'')
       (Text (''Esta API aceita apenas requisi'' @ [c_cedilla, o_tilde] @ ''es POST''))"

definition handleRequest :: "engine \<Rightarrow> services \<Rightarrow> request \<Rightarrow> Response \<times> writer" where
  "handleRequest E S req =
     (if http_method req = ''OPTIONS'' then (CORSResponse, [])
      else if http_method req \<noteq> ''POST'' then (method_not_allowed, [])
      else (EventStream, snd (processRequest E S req [])))"

subsection \<open>The handler before streaming (\<^verbatim>\<open>serve\<close> of the two older \<^verbatim>\<open>index.ts\<close>)\<close>

text \<open>
  The older handler up to the check of the request body: the response it returns there,
  or \<^term>\<open>None\<close> when it goes on to the configuration store and the provider. It never
  creates a stream.
\<close>

definition legacy_server_error :: "exn \<Rightarrow> Response" where
  "legacy_server_error e =
     JSONResponse 500 ''Erro interno do servidor''
       (if message_of e = Text [] then Text ''Erro desconhecido'' else message_of e)"

definition legacy_bad_request :: Response where
  "legacy_bad_request =
     JSONResponse 400 (''Par'' @ [a_circumflex] @ ''metros obrigat'' @ [o_acute] @ ''rios ausentes'')
       (Text (''Os campos '' @ [quote] @ ''context'' @ [quote] @ '' e '' @ [quote] @ ''image'' @ [quote]
          @ '' s'' @ [a_tilde] @ ''o obrigat'' @ [o_acute] @ ''rios''))"

definition legacy_serve_check :: "services \<Rightarrow> request \<Rightarrow> Response option" where
  "legacy_serve_check S req =
     (if http_method req = ''OPTIONS'' then Some CORSResponse
      else case createClients S of
        Inl e \<Rightarrow> Some (legacy_server_error e)
      | Inr u \<Rightarrow>
          if http_method req \<noteq> ''POST'' then Some method_not_allowed
          else case json_body req of
            Inl e \<Rightarrow> Some (legacy_server_error e)
          | Inr requestBody \<Rightarrow>
              (case requestBody of
                 JNull \<Rightarrow> Some (legacy_server_error TypeError)
               | _ \<Rightarrow>
                   if \<not> truthy_opt (get_named requestBody ''context'')
                      \<or> \<not> truthy_opt (get_named requestBody ''image'')
                   then Some legacy_bad_request
                   else None))"

subsection \<open>The protocol of the stream\<close>

fun is_progress :: "action \<Rightarrow> bool" where
  "is_progress (Write m) = (type m = ''progress'')"
| "is_progress Close = False"

fun is_terminal :: "action \<Rightarrow> bool" where
  "is_terminal (Write m) = (type m = ''result'' \<or> type m = ''error'')"
| "is_terminal Close = False"

text \<open>
  \<open>Open \<rightarrow> Progress* \<rightarrow> (Result | Error) \<rightarrow> Closed\<close>: progress events, then one terminal
  event, then nothing but closing.
\<close>

definition stream_protocol :: "writer \<Rightarrow> bool" where
  "stream_protocol w =
     (case dropWhile is_progress w of
        [] \<Rightarrow> False
      | t # rest \<Rightarrow> is_terminal t \<and> rest \<noteq> [] \<and> list_all (\<lambda>a. a = Close) rest)"

text \<open>Services and a request for the closed examples.\<close>

definition sample_services :: "string \<Rightarrow> services" where
  "sample_services content =
     \<lparr>createClients = Inr (),
      getAIConfig = Inr (Query (Some \<lparr>system_prompt = ''s'', prompt_template = ''{{CONTEXT}}''\<rparr>) False),
      getBrandManual = Inr (Query (Some \<lparr>voice_principles = ''v'', rules = ''r''\<rparr>) False),
      createCompletion = (\<lambda>params. Inr [Some content]),
      now = ''2025-01-01T00:00:00.000Z''\<rparr>"

definition sample_body :: json where
  "sample_body = JObj [(''context'', JStr ''c''), (''jtbd'', JStr ''j''), (''image'', JStr ''http://i'')]"

text \<open>
  \<open>only_progress m\<close>: on an open writer \<open>m\<close> writes progress events and nothing else,
  whether it returns or throws. \<open>ends_stream m\<close>: on an open writer \<open>m\<close> either throws
  having written progress events only, or returns having written progress events, then
  one terminal event, and having closed the writer at most once after it.
  \<open>completes m\<close>: the same, and \<open>m\<close> does not throw.
\<close>

definition only_progress :: "'a io \<Rightarrow> bool" where
  "only_progress m =
     (\<forall>w. \<not> closed w \<longrightarrow> (\<exists>ps. list_all is_progress ps \<and> snd (m w) = w @ ps))"

definition ends_stream :: "'a io \<Rightarrow> bool" where
  "ends_stream m =
     (\<forall>w. \<not> closed w \<longrightarrow> (\<exists>ps. list_all is_progress ps \<and>
        (case fst (m w) of
           Inl e \<Rightarrow> snd (m w) = w @ ps
         | Inr a \<Rightarrow> \<exists>t cs. is_terminal t \<and> (cs = [] \<or> cs = [Close]) \<and> snd (m w) = w @ ps @ [t] @ cs)))"

definition completes :: "unit io \<Rightarrow> bool" where
  "completes m =
     (\<forall>w. \<not> closed w \<longrightarrow> (\<exists>ps t cs. list_all is_progress ps \<and> is_terminal t
        \<and> (cs = [] \<or> cs = [Close]) \<and> m w = (Inr (), w @ ps @ [t] @ cs)))"

text \<open>The progress events of \<^verbatim>\<open>processAnalysis\<close> up to the validation.\<close>

definition analysis_progress :: "action list" where
  "analysis_progress =
     [Write \<lparr>type = ''progress'',
             data = Progress ''configuracao'' (''Carregando configura'' @ [c_cedilla, o_tilde] @ ''es...'')\<rparr>,
      Write \<lparr>type = ''progress'', data = Progress ''manual'' ''Carregando manual da marca...''\<rparr>,
      Write \<lparr>type = ''progress'', data = Progress ''prompt'' (''Preparando an'' @ [a_acute] @ ''lise...'')\<rparr>,
      Write \<lparr>type = ''progress'', data = Progress ''api'' ''Analisando com IA...''\<rparr>,
      Write \<lparr>type = ''progress'', data = Progress ''processando'' ''Processando resultado...''\<rparr>]"

definition request_progress :: action where
  "request_progress =
     Write \<lparr>type = ''progress'', data = Progress ''inicializando'' (''Iniciando an'' @ [a_acute] @ ''lise...'')\<rparr>"

text \<open>
  \<open>reaches_document E S requestBody document\<close>: the configuration rows are there, the
  prompt and the image are built, the provider answers with a text, and the text parses
  to \<open>document\<close>. This is \<^verbatim>\<open>processAnalysis\<close> up to line 107.
\<close>

definition reaches_document :: "engine \<Rightarrow> services \<Rightarrow> json \<Rightarrow> json \<Rightarrow> bool" where
  "reaches_document E S requestBody document =
     (\<exists>aiConfig brandManual finalPrompt imageContent completion.
        getAIConfig S = Inr (Query (Some aiConfig) False)
      \<and> getBrandManual S = Inr (Query (Some brandManual) False)
      \<and> buildPrompt E aiConfig brandManual requestBody = Inr finalPrompt
      \<and> prepareImageContent E (get_named requestBody ''image'') (get_named requestBody ''imageType'')
          = Inr imageContent
      \<and> createCompletion S
           (buildCompletionParams ANALYSIS_SCHEMA (system_prompt aiConfig) finalPrompt imageContent)
          = Inr completion
      \<and> extractAnalysisResult completion \<noteq> []
      \<and> JSON_parse E (extractAnalysisResult completion) = Inr document)"

section \<open>Request lifecycles with a consumer and services that may fail\<close>

text \<open>
  The definitions of the orchestrator above are those of a request whose consumer keeps
  reading the stream and whose awaited calls all settle. The definitions of this section
  are the same functions without that assumption. An awaited promise either fulfils,
  rejects, or never settles; in the last case the \<^verbatim>\<open>async\<close> function that awaits it never
  goes on, and runs neither its \<^verbatim>\<open>catch\<close> nor its \<^verbatim>\<open>finally\<close>.
\<close>

datatype 'a outcome = Returned 'a | Thrown exn | Pending

text \<open>
  The consumer of the response body. It keeps reading; or it cancels the body once a
  number of calls have been made on the writer, and the stream is errored with the reason
  of the cancellation, with which every later write rejects; or it stops reading without
  cancelling, and the write that waits for it never settles.
\<close>

datatype consumer = KeepsReading | CancelsAfter nat exn | StallsAfter nat

text \<open>The awaited calls of the outside world: \<^verbatim>\<open>req.json()\<close> and the three service calls.\<close>

datatype call = RequestJson | GetAIConfig | GetBrandManual | CreateCompletion

record lifecycle =
  reader :: consumer
  settles :: "call \<Rightarrow> bool"

type_synonym 'a task = "writer \<Rightarrow> 'a outcome \<times> writer"

definition settled :: "exn + 'a \<Rightarrow> 'a outcome" where
  "settled r = (case r of Inl e \<Rightarrow> Thrown e | Inr a \<Rightarrow> Returned a)"

definition task_return :: "'a \<Rightarrow> 'a task" where
  "task_return a w = (Returned a, w)"

definition task_throw :: "exn \<Rightarrow> 'a task" where
  "task_throw e w = (Thrown e, w)"

text \<open>A computation that is not awaited, and an awaited call that returns \<open>r\<close> if it settles.\<close>

definition task_lift :: "exn + 'a \<Rightarrow> 'a task" where
  "task_lift r w = (settled r, w)"

definition awaited :: "lifecycle \<Rightarrow> call \<Rightarrow> exn + 'a \<Rightarrow> 'a task" where
  "awaited L c r w = (if settles L c then settled r else Pending, w)"

definition task_bind :: "'a task \<Rightarrow> ('a \<Rightarrow> 'b task) \<Rightarrow> 'b task" where
  "task_bind m f w =
     (case m w of
        (Returned a, w') \<Rightarrow> f a w'
      | (Thrown e, w') \<Rightarrow> (Thrown e, w')
      | (Pending, w') \<Rightarrow> (Pending, w'))"

definition task_catch :: "'a task \<Rightarrow> (exn \<Rightarrow> 'a task) \<Rightarrow> 'a task" where
  "task_catch m h w =
     (case m w of
        (Returned a, w') \<Rightarrow> (Returned a, w')
      | (Thrown e, w') \<Rightarrow> h e w'
      | (Pending, w') \<Rightarrow> (Pending, w'))"

definition task_finally :: "'a task \<Rightarrow> unit task \<Rightarrow> 'a task" where
  "task_finally m c w =
     (case m w of
        (Pending, w') \<Rightarrow> (Pending, w')
      | (r, w') \<Rightarrow>
          (case c w' of
             (Returned u, w'') \<Rightarrow> (r, w'')
           | (Thrown e, w'') \<Rightarrow> (Thrown e, w'')
           | (Pending, w'') \<Rightarrow> (Pending, w'')))"

text \<open>
  What becomes of \<^verbatim>\<open>await writer.write(...)\<close> (line 36 of \<^verbatim>\<open>sse-utils.ts\<close>) when the calls
  \<open>w\<close> have been made on the writer.
\<close>

definition write_fate :: "consumer \<Rightarrow> writer \<Rightarrow> unit outcome" where
  "write_fate c w =
     (if closed w then Thrown TypeError
      else case c of
        KeepsReading \<Rightarrow> Returned ()
      | CancelsAfter n reason \<Rightarrow> if length w < n then Returned () else Thrown reason
      | StallsAfter n \<Rightarrow> if length w < n then Returned () else Pending)"

definition sendSSEMessage_in :: "lifecycle \<Rightarrow> string \<Rightarrow> sse_data \<Rightarrow> unit task" where
  "sendSSEMessage_in L t d w = (write_fate (reader L) w, w @ [Write \<lparr>type = t, data = d\<rparr>])"

text \<open>
  \<^verbatim>\<open>closeWriter\<close> catches the rejection of \<^verbatim>\<open>writer.close()\<close>; closing waits for no read, and
  every earlier write has been awaited.
\<close>

definition closeWriter_in :: "unit task" where
  "closeWriter_in w = (Returned (), w @ [Close])"

definition sendErrorResponse_in :: "lifecycle \<Rightarrow> ErrorResponse \<Rightarrow> unit task" where
  "sendErrorResponse_in L err =
     task_bind (sendSSEMessage_in L ''error'' (Failure err)) (\<lambda>u. closeWriter_in)"

definition sendProgressUpdate_in :: "lifecycle \<Rightarrow> string \<Rightarrow> string \<Rightarrow> unit task" where
  "sendProgressUpdate_in L step msg = sendSSEMessage_in L ''progress'' (Progress step msg)"

definition sendResult_in :: "lifecycle \<Rightarrow> json \<Rightarrow> unit task" where
  "sendResult_in L result = sendSSEMessage_in L ''result'' (Result result)"

definition required_row_in :: "'a query \<Rightarrow> string \<Rightarrow> 'a task" where
  "required_row_in r msg =
     (case r of Query (Some row) False \<Rightarrow> task_return row | _ \<Rightarrow> task_throw (Error msg))"

definition processAnalysis_in :: "lifecycle \<Rightarrow> engine \<Rightarrow> services \<Rightarrow> json \<Rightarrow> unit task" where
  "processAnalysis_in L E S requestBody =
     task_catch
      (task_bind (sendProgressUpdate_in L ''configuracao'' (''Carregando configura'' @ [c_cedilla, o_tilde] @ ''es...'')) (\<lambda>u.
       task_bind (awaited L GetAIConfig (getAIConfig S)) (\<lambda>r.
       task_bind (required_row_in r (''Configura'' @ [c_cedilla, o_tilde] @ ''es da IA n'' @ [a_tilde] @ ''o encontradas'')) (\<lambda>aiConfig.
       task_bind (sendProgressUpdate_in L ''manual'' ''Carregando manual da marca...'') (\<lambda>u.
       task_bind (awaited L GetBrandManual (getBrandManual S)) (\<lambda>r.
       task_bind (required_row_in r (''Manual da marca n'' @ [a_tilde] @ ''o encontrado'')) (\<lambda>brandManual.
       task_bind (sendProgressUpdate_in L ''prompt'' (''Preparando an'' @ [a_acute] @ ''lise...'')) (\<lambda>u.
       task_bind (task_lift (buildPrompt E aiConfig brandManual requestBody)) (\<lambda>finalPrompt.
       task_bind (task_lift (prepareImageContent E (get_named requestBody ''image'')
                           (get_named requestBody ''imageType''))) (\<lambda>imageContent.
       task_bind (sendProgressUpdate_in L ''api'' ''Analisando com IA...'') (\<lambda>u.
       task_bind (awaited L CreateCompletion (createCompletion S
                  (buildCompletionParams ANALYSIS_SCHEMA (system_prompt aiConfig) finalPrompt imageContent))) (\<lambda>completion.
       task_bind (sendProgressUpdate_in L ''processando'' ''Processando resultado...'') (\<lambda>u.
       task_bind (if extractAnalysisResult completion = [] then task_throw (Error ''Resposta vazia da IA'')
                  else task_return (extractAnalysisResult completion)) (\<lambda>analysisResult.
       task_bind (task_lift (JSON_parse E analysisResult)) (\<lambda>parsedResult.
       task_bind (task_lift (normalizeV6Data E parsedResult)) (\<lambda>normalizedData.
       task_bind (task_lift (validateJsonSchema E normalizedData ANALYSIS_SCHEMA)) (\<lambda>validation.
         if \<not> valid validation then sendErrorResponse_in L (schema_violation (errors validation))
         else sendResult_in L normalizedData)))))))))))))))))
      (\<lambda>e. sendErrorResponse_in L (analysis_error S e))"

definition processRequest_in :: "lifecycle \<Rightarrow> engine \<Rightarrow> services \<Rightarrow> request \<Rightarrow> unit task" where
  "processRequest_in L E S req =
     task_finally
      (task_catch
        (task_bind (sendProgressUpdate_in L ''inicializando'' (''Iniciando an'' @ [a_acute] @ ''lise...'')) (\<lambda>u.
         task_bind (task_lift (createClients S)) (\<lambda>u.
         task_bind (awaited L RequestJson (json_body req)) (\<lambda>requestBody.
         task_bind (task_lift (missing_parameters requestBody)) (\<lambda>missing.
           if missing then sendErrorResponse_in L missing_parameters_error
           else processAnalysis_in L E S requestBody)))))
        (\<lambda>e. sendErrorResponse_in L (internal_error S e)))
      closeWriter_in"

text \<open>
  The response of \<^verbatim>\<open>handleRequest\<close>, how the \<^verbatim>\<open>processRequest\<close> that it started ends, and
  the calls made on the writer of the stream it created.
\<close>

definition handleRequest_in :: "lifecycle \<Rightarrow> engine \<Rightarrow> services \<Rightarrow> request \<Rightarrow> Response \<times> unit outcome \<times> writer" where
  "handleRequest_in L E S req =
     (if http_method req = ''OPTIONS'' then (CORSResponse, Returned (), [])
      else if http_method req \<noteq> ''POST'' then (method_not_allowed, Returned (), [])
      else (EventStream, processRequest_in L E S req []))"

text \<open>
  The events that reach the consumer: the writes that were accepted, \<open>made\<close> being the
  calls made on the writer earlier.
\<close>

fun accepted :: "consumer \<Rightarrow> writer \<Rightarrow> writer \<Rightarrow> action list" where
  "accepted c made [] = []"
| "accepted c made (Write m # rest) =
     (if write_fate c made = Returned () then [Write m] else []) @ accepted c (made @ [Write m]) rest"
| "accepted c made (Close # rest) = accepted c (made @ [Close]) rest"

definition delivered :: "consumer \<Rightarrow> writer \<Rightarrow> action list" where
  "delivered c w = accepted c [] w"

text \<open>
  A lifecycle without failures, one whose consumer goes away after the second event, and
  one whose provider never answers.
\<close>

definition reliable :: lifecycle where
  "reliable = \<lparr>reader = KeepsReading, settles = (\<lambda>c. True)\<rparr>"

definition consumer_gone :: lifecycle where
  "consumer_gone = \<lparr>reader = CancelsAfter 2 (Error ''cancelled''), settles = (\<lambda>c. True)\<rparr>"

definition provider_silent :: lifecycle where
  "provider_silent = \<lparr>reader = KeepsReading, settles = (\<lambda>c. c \<noteq> CreateCompletion)\<rparr>"

text \<open>A computation of the orchestrator above, seen as one of this section.\<close>

definition lifted :: "'a io \<Rightarrow> 'a task" where
  "lifted m w = (case m w of (r, w') \<Rightarrow> (settled r, w'))"

definition sample_request :: request where
  "sample_request = \<lparr>http_method = ''POST'', json_body = Inr sample_body\<rparr>"

section \<open>Basic facts\<close>

lemma bind_Inr_iff: "bind m f = Inr y \<longleftrightarrow> (\<exists>a. m = Inr a \<and> f a = Inr y)"
  by (cases m) (simp_all add: bind_def)

lemma bind_Inl_iff: "bind m f = Inl e \<longleftrightarrow> (m = Inl e \<or> (\<exists>a. m = Inr a \<and> f a = Inl e))"
  by (cases m) (simp_all add: bind_def)

lemma bind_Inr [simp]: "bind (Inr a) f = f a"
  by (simp add: bind_def)

lemma bind_Inl [simp]: "bind (Inl e) f = Inl e"
  by (simp add: bind_def)

section \<open>Properties of the validator\<close>

text \<open>Every error that a call of \<^verbatim>\<open>validate\<close> pushes lies at or below the path of the call.\<close>

lemma validate_prefix:
  "validate E obj s p = Inr es \<Longrightarrow> e \<in> set es \<Longrightarrow> prefix p (path e)"
  "validate_entries E kvs props p = Inr es \<Longrightarrow> e \<in> set es \<Longrightarrow> prefix p (path e)"
  "validate_items E xs i s p = Inr es \<Longrightarrow> e \<in> set es \<Longrightarrow> prefix p (path e)"
proof (induction E obj s p and E kvs props p and E xs i s p arbitrary: es and es and es
       rule: validate_validate_entries_validate_items.induct)
  case (1 E obj props req p)
  then show ?case
    by (auto simp: bind_Inr_iff missing_required_def split: json.splits option.splits)
next
  case (2 E obj minItems maxItems items p)
  then show ?case
    by (auto simp: bind_Inr_iff split: json.splits option.splits if_splits)
next
  case (3 E obj enum p)
  then show ?case by (auto split: json.splits option.splits if_splits)
next
  case (4 E obj minimum maximum p)
  then show ?case by (auto simp: bind_Inr_iff split: json.splits option.splits if_splits)
next
  case (5 E obj p)
  then show ?case by (auto split: json.splits)
next
  case (6 E obj types p)
  then show ?case by (auto split: if_splits)
next
  case (7 E obj p)
  then show ?case by simp
next
  case (8 E props p)
  then show ?case by simp
next
  case (9 E key v kvs props p)
  then show ?case
    by (fastforce simp: bind_Inr_iff split: option.splits dest: append_prefixD)
next
  case (10 E i s p)
  then show ?case by simp
next
  case (11 E item xs i s p)
  then show ?case
    by (fastforce simp: bind_Inr_iff dest: append_prefixD)
qed

lemma validate_items_nth:
  "validate_items E xs i s p = Inr es \<Longrightarrow> j < length xs \<Longrightarrow>
   \<exists>esj. validate E (xs ! j) s (p @ ''['' @ show_nat (i + j) @ '']'') = Inr esj \<and> set esj \<subseteq> set es"
proof (induction xs arbitrary: i j es)
  case Nil
  then show ?case by simp
next
  case (Cons x xs)
  from Cons.prems(1) obtain a b where
    a: "validate E x s (p @ ''['' @ show_nat i @ '']'') = Inr a" and
    b: "validate_items E xs (Suc i) s p = Inr b" and es: "es = a @ b"
    by (auto simp: bind_Inr_iff)
  show ?case
  proof (cases j)
    case 0
    with a es show ?thesis by simp
  next
    case (Suc k)
    with Cons.prems(2) have "k < length xs" by simp
    from Cons.IH [OF b this] Suc es show ?thesis by auto
  qed
qed

text \<open>The errors of the elements lie strictly below the array: none is at the array's path.\<close>

lemma validate_items_path:
  assumes "validate_items E xs i s p = Inr es" and "e \<in> set es"
  shows "path e \<noteq> p"
  using assms
proof (induction xs arbitrary: i es)
  case Nil
  then show ?case by simp
next
  case (Cons x xs)
  from Cons.prems(1) obtain a b where
    a: "validate E x s (p @ ''['' @ show_nat i @ '']'') = Inr a" and
    b: "validate_items E xs (Suc i) s p = Inr b" and es: "es = a @ b"
    by (auto simp: bind_Inr_iff)
  show ?case
  proof (cases "e \<in> set a")
    case True
    from validate_prefix(1) [OF a True] show ?thesis
      by (auto simp: prefix_def)
  next
    case False
    with Cons.prems(2) es have "e \<in> set b" by simp
    from Cons.IH [OF b this] show ?thesis .
  qed
qed

text \<open>
  Validation returns whenever the schema has no numeric bound: only the comparisons of
  lines 57 and 60 can throw.
\<close>

lemma validate_returns:
  "bound_free s \<Longrightarrow> \<exists>es. validate E obj s p = Inr es"
  "(case props of None \<Rightarrow> True | Some ps \<Rightarrow> list_all (\<lambda>ks. bound_free (snd ks)) ps)
     \<Longrightarrow> \<exists>es. validate_entries E kvs props p = Inr es"
  "bound_free s \<Longrightarrow> \<exists>es. validate_items E xs i s p = Inr es"
proof (induction E obj s p and E kvs props p and E xs i s p
       rule: validate_validate_entries_validate_items.induct)
  case (1 E obj props req p)
  then show ?case by (auto simp: bind_Inr_iff split: json.splits)
next
  case (2 E obj minItems maxItems items p)
  then show ?case by (auto simp: bind_Inr_iff split: json.splits option.splits)
next
  case (4 E obj minimum maximum p)
  then show ?case by simp
next
  case (9 E key v kvs props p)
  show ?case
  proof (cases props)
    case None
    with 9 show ?thesis by (auto simp: bind_Inr_iff)
  next
    case (Some ps)
    show ?thesis
    proof (cases "map_of ps key")
      case None
      with Some 9 show ?thesis by (auto simp: bind_Inr_iff)
    next
      case (Some fieldSchema)
      then have "(key, fieldSchema) \<in> set ps" by (rule map_of_SomeD)
      with "9.prems" \<open>props = Some ps\<close> have "bound_free fieldSchema"
        by (auto simp: list_all_iff)
      with 9 Some \<open>props = Some ps\<close> show ?thesis by (auto simp: bind_Inr_iff)
    qed
  qed
next
  case (11 E item xs i s p)
  then show ?case by (auto simp: bind_Inr_iff)
qed simp_all

text \<open>
  \<^verbatim>\<open>prioridadesTop3\<close> is the one array of \<^verbatim>\<open>ANALYSIS_SCHEMA\<close> with a \<^verbatim>\<open>minItems\<close>; its
  \<^verbatim>\<open>items\<close> schema has no numeric bound.
\<close>

lemma prioridadesTop3_bound_free:
  "\<exists>s. subschema ANALYSIS_SCHEMA [''prioridadesTop3''] = Some (SArray (Some 1) (Some 3) (Some s))
       \<and> bound_free s"
  by (simp add: ANALYSIS_SCHEMA_def)

text \<open>
  The \<^verbatim>\<open>forEach\<close> of line 44 pushes the errors of the elements, element by element, and
  nothing else.
\<close>

lemma validate_items_concat:
  assumes "\<forall>j<length xs. \<exists>e. validate E (xs ! j) s (item_path p (i + j)) = Inr e"
  shows "\<exists>ess. length ess = length xs
           \<and> (\<forall>j<length xs. validate E (xs ! j) s (item_path p (i + j)) = Inr (ess ! j))
           \<and> validate_items E xs i s p = Inr (concat ess)"
  using assms
proof (induction xs arbitrary: i)
  case Nil
  then show ?case by simp
next
  case (Cons x xs)
  from Cons.prems have "\<exists>e. validate E ((x # xs) ! 0) s (item_path p (i + 0)) = Inr e" by blast
  then obtain e where e: "validate E x s (item_path p i) = Inr e" by auto
  have "\<forall>j<length xs. \<exists>e. validate E (xs ! j) s (item_path p (Suc i + j)) = Inr e"
  proof (intro allI impI)
    fix j assume "j < length xs"
    then have "Suc j < length (x # xs)" by simp
    with Cons.prems have "\<exists>e. validate E ((x # xs) ! Suc j) s (item_path p (i + Suc j)) = Inr e"
      by blast
    then show "\<exists>e. validate E (xs ! j) s (item_path p (Suc i + j)) = Inr e" by simp
  qed
  from Cons.IH [OF this] obtain ess where ess: "length ess = length xs"
    "\<forall>j<length xs. validate E (xs ! j) s (item_path p (Suc i + j)) = Inr (ess ! j)"
    "validate_items E xs (Suc i) s p = Inr (concat ess)" by blast
  have "\<forall>j<length (x # xs). validate E ((x # xs) ! j) s (item_path p (i + j)) = Inr ((e # ess) ! j)"
  proof (intro allI impI)
    fix j assume j: "j < length (x # xs)"
    show "validate E ((x # xs) ! j) s (item_path p (i + j)) = Inr ((e # ess) ! j)"
    proof (cases j)
      case 0
      with e show ?thesis by simp
    next
      case (Suc k)
      with j ess(2) show ?thesis by simp
    qed
  qed
  moreover from e ess(3) have "validate_items E (x # xs) i s p = Inr (concat (e # ess))"
    by (simp add: item_path_def)
  moreover from ess(1) have "length (e # ess) = length (x # xs)" by simp
  ultimately show ?case by blast
qed

text \<open>
  Claim C7, as the code has it. Take an array with fewer elements than the schema's
  \<^verbatim>\<open>minItems\<close>, validated at path \<open>p\<close>, such that validating each present element against
  the \<^verbatim>\<open>items\<close> schema returns, as it always does when that schema has no \<^verbatim>\<open>minimum\<close> and
  no \<^verbatim>\<open>maximum\<close>. Then \<^verbatim>\<open>validate\<close> returns, and the errors it pushed are: the error "Array
  must have at least N items" with path \<open>p\<close>, once; the error of \<^verbatim>\<open>maxItems\<close> if that is
  violated too; and then, element by element, exactly the errors of validating each
  present element against the \<^verbatim>\<open>items\<close> schema at its own path \<open>p[i]\<close>. Nothing is pushed
  for an element that is missing.
\<close>

theorem minItems_reported_once:
  assumes "real (length xs) < m"
    and "\<forall>s. items = Some s \<longrightarrow>
           bound_free s \<or> (\<forall>i<length xs. \<exists>e. validate E (xs ! i) s (item_path p i) = Inr e)"
  shows "\<exists>ess. validate E (JArr xs ps) (SArray (Some m) maxItems items) p
                 = Inr (too_few E m p # maxItems_errors E maxItems (length xs) p @ concat ess)
           \<and> length (filter (\<lambda>e. e = too_few E m p)
                (too_few E m p # maxItems_errors E maxItems (length xs) p @ concat ess)) = 1
           \<and> (case items of
                None \<Rightarrow> ess = []
              | Some s \<Rightarrow> length ess = length xs
                  \<and> (\<forall>i<length xs. validate E (xs ! i) s (item_path p i) = Inr (ess ! i)))"
proof -
  from assms(1) have m: "m \<noteq> 0" by auto
  have "\<exists>ess. (case items of None \<Rightarrow> Inr [] | Some s \<Rightarrow> validate_items E xs 0 s p) = Inr (concat ess)
      \<and> (case items of
            None \<Rightarrow> ess = []
          | Some s \<Rightarrow> length ess = length xs
              \<and> (\<forall>i<length xs. validate E (xs ! i) s (item_path p i) = Inr (ess ! i)))"
  proof (cases items)
    case None
    then show ?thesis by simp
  next
    case (Some s)
    have "\<forall>j<length xs. \<exists>e. validate E (xs ! j) s (item_path p (0 + j)) = Inr e"
      using assms(2) Some validate_returns(1) [of s E _ _] by auto
    from validate_items_concat [OF this] Some show ?thesis by auto
  qed
  then obtain ess where its:
    "(case items of None \<Rightarrow> Inr [] | Some s \<Rightarrow> validate_items E xs 0 s p) = Inr (concat ess)"
    and each: "(case items of
            None \<Rightarrow> ess = []
          | Some s \<Rightarrow> length ess = length xs
              \<and> (\<forall>i<length xs. validate E (xs ! i) s (item_path p i) = Inr (ess ! i)))"
    by blast
  from its m assms(1) have run: "validate E (JArr xs ps) (SArray (Some m) maxItems items) p
      = Inr (too_few E m p # maxItems_errors E maxItems (length xs) p @ concat ess)"
    by (simp add: too_few_def too_many_def maxItems_errors_def split: option.splits)
  have "e \<noteq> too_few E m p" if "e \<in> set (concat ess)" for e
  proof (cases items)
    case None
    with each that show ?thesis by simp
  next
    case (Some s)
    with its have "validate_items E xs 0 s p = Inr (concat ess)" by simp
    from validate_items_path [OF this that] show ?thesis by (auto simp: too_few_def)
  qed
  then have "filter (\<lambda>e. e = too_few E m p) (concat ess) = []"
    by (auto simp: filter_empty_conv)
  moreover have "filter (\<lambda>e. e = too_few E m p) (maxItems_errors E maxItems (length xs) p) = []"
    by (auto simp: maxItems_errors_def too_few_def too_many_def split: option.splits)
  ultimately have "length (filter (\<lambda>e. e = too_few E m p)
      (too_few E m p # maxItems_errors E maxItems (length xs) p @ concat ess)) = 1"
    by simp
  with run each show ?thesis by blast
qed

theorem minItems_reported_once_witness:
  "real (length [JStr ''a'', JNum 5]) < 3
   \<and> bound_free (SString None)
   \<and> validate sample_engine (JArr [JStr ''a'', JNum 5] []) (SArray (Some 3) (Some 5) (Some (SString None))) ''root.xs'' =
       Inr [\<lparr>message = ''Array must have at least 3 items'', path = ''root.xs''\<rparr>,
            \<lparr>message = ''Expected string at root.xs[1]'', path = ''root.xs[1]''\<rparr>]"
proof -
  have run: "validate sample_engine (JArr [JStr ''a'', JNum 5] []) (SArray (Some 3) (Some 5) (Some (SString None))) ''root.xs'' =
    Inr [\<lparr>message = ''Array must have at least 3 items'', path = ''root.xs''\<rparr>,
         \<lparr>message = ''Expected string at root.xs[1]'', path = ''root.xs[1]''\<rparr>]"
    by (simp add: sample_engine_def show_nat.simps digit_def)
  have short: "real (length [JStr ''a'', JNum 5]) < 3" by simp
  have free: "\<forall>s. Some (SString None) = Some s \<longrightarrow>
      bound_free s \<or> (\<forall>i<length [JStr ''a'', JNum 5].
        \<exists>e. validate sample_engine ([JStr ''a'', JNum 5] ! i) s (item_path ''root.xs'' i) = Inr e)"
    by simp
  from minItems_reported_once [OF short free, of "[]" "Some 5"] run short show ?thesis by simp
qed

text \<open>
  The claim as stated fails on a short array with an element on which the comparison of
  line 57 throws: for \<^verbatim>\<open>[{"valueOf": 0, "toString": 0}]\<close> and the schema
  \<^verbatim>\<open>{type: 'array', minItems: 2, items: {type: 'number', minimum: 0}}\<close> the call throws
  and reports no error at all.
\<close>

theorem minItems_reported_once_counterexample:
  "validateJsonSchema coercing_engine
     (JArr [JObj [(''valueOf'', JNum 0), (''toString'', JNum 0)]] [])
     (SArray (Some 2) None (Some (SNumber (Some 0) None)))
   = Inl TypeError"
  by (simp add: validateJsonSchema_def coercing_engine_def js_lt_def js_number_def)

text \<open>
  A required key that is neither an own property of the object nor a name that every
  object inherits is reported, at the path of the object extended with the key.
\<close>

lemma required_key_reported:
  assumes "validate E (JObj kvs) (SObject props (Some req)) p = Inr es"
    and "field \<in> set req" and "field \<notin> fst ` set kvs" and "field \<notin> set (ObjectPrototype E)"
  shows "\<lparr>message = ''Missing required field: '' @ field, path = p @ ''.'' @ field\<rparr> \<in> set es"
  using assms by (auto simp: bind_Inr_iff missing_required_def js_in_def)

text \<open>
  Claim C8 fails on the code for a required key that every object inherits: line 17
  tests \<^verbatim>\<open>field in obj\<close>, which is true of \<^verbatim>\<open>toString\<close> for the empty object, so the
  object passes as valid and no error names \<^verbatim>\<open>root.toString\<close>.
\<close>

theorem inherited_required_key_unreported:
  "validateJsonSchema sample_engine (JObj []) (SObject None (Some [''toString'']))
     = Inr \<lparr>valid = True, errors = []\<rparr>"
  by (simp add: validateJsonSchema_def missing_required_def js_in_def sample_engine_def)

section \<open>Properties of the normalizer\<close>

lemma is_object_truthy: "is_object t \<Longrightarrow> truthy t"
  by (cases t) simp_all

lemma set_named_Inr_iff: "(\<exists>t'. set_named t k v = Inr t') \<longleftrightarrow> is_object t"
  by (cases t) simp_all

lemma set_named_Inl: "set_named t k v = Inl e \<Longrightarrow> e = TypeError \<and> \<not> is_object t"
  by (cases t) simp_all

lemma set_named_not_object: "\<not> is_object t \<Longrightarrow> set_named t k v = Inl TypeError"
  by (cases t) simp_all

lemma set_named_is_object: "set_named t k v = Inr t' \<Longrightarrow> is_object t \<and> is_object t'"
  by (cases t) auto

lemma get_set_same: "set_named t k v = Inr t' \<Longrightarrow> k \<noteq> ''length'' \<Longrightarrow> get_named t' k = Some v"
  by (cases t) (auto simp: update_conv')

lemma get_set_other: "set_named t k v = Inr t' \<Longrightarrow> k' \<noteq> k \<Longrightarrow> get_named t' k' = get_named t k'"
  by (cases t) (auto simp: update_conv')

lemma elements_set: "set_named t k v = Inr t' \<Longrightarrow> elements t' = elements t"
  by (cases t) auto

lemma set_named_same: "get_named t k = Some v \<Longrightarrow> k \<noteq> ''length'' \<Longrightarrow> set_named t k v = Inr t"
  by (cases t) (auto simp: update_triv)

lemma get_named_is_object: "get_named t k = Some v \<Longrightarrow> k \<noteq> ''length'' \<Longrightarrow> is_object t"
  by (cases t) (auto split: if_splits)

lemma same_except_refl: "same_except t t ks"
  by (simp add: same_except_def)

lemma same_except_set: "set_named t k v = Inr t' \<Longrightarrow> same_except t t' [k]"
  by (simp add: same_except_def get_set_other elements_set)

lemma same_except_trans:
  "same_except t t' ks \<Longrightarrow> same_except t' t'' ks' \<Longrightarrow> set ks \<union> set ks' \<subseteq> set ks'' \<Longrightarrow> same_except t t'' ks''"
  unfolding same_except_def by (metis UnCI subsetD)

lemma same_exceptD: "same_except t t' ks \<Longrightarrow> k \<notin> set ks \<Longrightarrow> get_named t' k = get_named t k"
  by (simp add: same_except_def)

text \<open>The statement \<^verbatim>\<open>if (!target.k) target.k = d\<close>.\<close>

lemma default_if_falsy_Inr:
  assumes "default_if_falsy t k d = Inr t'" and "k \<noteq> ''length''"
  shows "is_object t \<and> is_object t' \<and> same_except t t' [k] \<and> kept_or t t' k d"
proof (cases "truthy_opt (get_named t k)")
  case True
  with assms have "t' = t" by (simp add: default_if_falsy_def)
  moreover from True obtain v where "get_named t k = Some v"
    by (auto simp: truthy_opt_def split: option.splits)
  from this assms(2) have "is_object t" by (rule get_named_is_object)
  ultimately show ?thesis using True
    by (simp add: same_except_refl kept_or_def)
next
  case False
  with assms have s: "set_named t k d = Inr t'" by (simp add: default_if_falsy_def)
  from set_named_is_object [OF s] same_except_set [OF s] get_set_same [OF s assms(2)] False
  show ?thesis by (simp add: kept_or_def)
qed

lemma default_if_falsy_Inl: "default_if_falsy t k d = Inl e \<Longrightarrow> e = TypeError \<and> \<not> is_object t"
  by (auto simp: default_if_falsy_def split: if_splits dest: set_named_Inl)

lemma default_if_falsy_object: "is_object t \<Longrightarrow> \<exists>t'. default_if_falsy t k d = Inr t'"
  using set_named_Inr_iff [of t k d] by (auto simp: default_if_falsy_def)

lemma default_if_falsy_id:
  "truthy_opt (get_named t k) \<or> get_named t k = Some d \<Longrightarrow> k \<noteq> ''length'' \<Longrightarrow> default_if_falsy t k d = Inr t"
  by (auto simp: default_if_falsy_def set_named_same)

lemma fix_range_Inr:
  assumes "fix_range t k = Inr t'" and "k \<noteq> ''length''"
  shows "is_object t \<and> is_object t' \<and> same_except t t' [k] \<and> kept_range t t' k"
proof (cases "in_range (get_named t k)")
  case True
  with assms have "t' = t" by (simp add: fix_range_def)
  moreover from True obtain v where "get_named t k = Some v"
    by (auto simp: in_range_def split: option.splits)
  from this assms(2) have "is_object t" by (rule get_named_is_object)
  ultimately show ?thesis using True
    by (simp add: same_except_refl kept_range_def)
next
  case False
  with assms have s: "set_named t k (JNum 0) = Inr t'" by (simp add: fix_range_def)
  from set_named_is_object [OF s] same_except_set [OF s] get_set_same [OF s assms(2)] False
  show ?thesis by (simp add: kept_range_def)
qed

lemma fix_range_id: "in_range (get_named t k) \<Longrightarrow> fix_range t k = Inr t"
  by (simp add: fix_range_def)

lemma fix_range_object: "is_object t \<Longrightarrow> \<exists>t'. fix_range t k = Inr t'"
  using set_named_Inr_iff [of t k "JNum 0"] by (auto simp: fix_range_def)

lemma fix_range_Inl: "fix_range t k = Inl e \<Longrightarrow> e = TypeError \<and> \<not> is_object t"
  by (auto simp: fix_range_def split: if_splits dest: set_named_Inl)

text \<open>Statements that work on a child in place.\<close>

lemma in_child_Inr:
  assumes "in_child t k f = Inr t'" and "k \<noteq> ''length''"
  shows "\<exists>c c'. get_named t k = Some c \<and> f c = Inr c' \<and> get_named t' k = Some c'
           \<and> is_object t \<and> is_object t' \<and> same_except t t' [k]"
proof -
  from assms(1) obtain c c' where c: "get_named t k = Some c" and f: "f c = Inr c'"
    and s: "set_named t k c' = Inr t'"
    by (auto simp: in_child_def bind_Inr_iff split: option.splits)
  from set_named_is_object [OF s] same_except_set [OF s] get_set_same [OF s assms(2)] c f
  show ?thesis by blast
qed

lemma in_child_id: "get_named t k = Some c \<Longrightarrow> f c = Inr c \<Longrightarrow> k \<noteq> ''length'' \<Longrightarrow> in_child t k f = Inr t"
  by (simp add: in_child_def set_named_same)

lemma in_child_returns:
  "get_named t k = Some c \<Longrightarrow> f c = Inr c' \<Longrightarrow> k \<noteq> ''length'' \<Longrightarrow> \<exists>t'. in_child t k f = Inr t'"
  using set_named_Inr_iff [of t k c'] get_named_is_object [of t k c]
  by (auto simp: in_child_def)

lemma in_child_throws: "get_named t k = Some c \<Longrightarrow> f c = Inl e \<Longrightarrow> in_child t k f = Inl e"
  by (simp add: in_child_def)

text \<open>The steps of the normalizer, one lemma for each.\<close>

lemma section_or_default: "\<not> truthy_opt old \<Longrightarrow> section_or old d d R"
  by (auto simp: section_or_def truthy_opt_def split: option.splits)

lemma section_or_truthy:
  "old = Some s \<Longrightarrow> truthy s \<Longrightarrow> is_object s \<Longrightarrow> is_object new \<Longrightarrow> R s new \<Longrightarrow> section_or old d new R"
  by (simp add: section_or_def)

lemma truthy_optE: "truthy_opt v \<Longrightarrow> (\<And>s. v = Some s \<Longrightarrow> truthy s \<Longrightarrow> P) \<Longrightarrow> P"
  by (cases v) (simp_all add: truthy_opt_def)

lemma avaliacao_step:
  assumes "(if \<not> truthy_opt (get_named j ''avaliacao'')
            then set_named j ''avaliacao'' default_avaliacao
            else in_child j ''avaliacao'' (\<lambda>a. default_if_falsy a ''sugestoes'' (JArr [] []))) = Inr j'"
  shows "is_object j \<and> is_object j' \<and> same_except j j' [''avaliacao'']
       \<and> (\<exists>a'. get_named j' ''avaliacao'' = Some a'
            \<and> section_or (get_named j ''avaliacao'') default_avaliacao a' avaliacao_rel)"
proof (cases "truthy_opt (get_named j ''avaliacao'')")
  case False
  with assms have s: "set_named j ''avaliacao'' default_avaliacao = Inr j'" by simp
  from set_named_is_object [OF s] same_except_set [OF s] get_set_same [OF s] section_or_default [OF False]
  show ?thesis by simp
next
  case True
  with assms have "in_child j ''avaliacao'' (\<lambda>a. default_if_falsy a ''sugestoes'' (JArr [] [])) = Inr j'"
    by simp
  from in_child_Inr [OF this] obtain a a' where a: "get_named j ''avaliacao'' = Some a"
    and d: "default_if_falsy a ''sugestoes'' (JArr [] []) = Inr a'"
    and a': "get_named j' ''avaliacao'' = Some a'"
    and o: "is_object j" "is_object j'" "same_except j j' [''avaliacao'']"
    by auto
  from default_if_falsy_Inr [OF d] have r: "is_object a" "is_object a'" "avaliacao_rel a a'"
    by (simp_all add: avaliacao_rel_def)
  from True a have "truthy a" by (simp add: truthy_opt_def)
  with a r have "section_or (get_named j ''avaliacao'') default_avaliacao a' avaliacao_rel"
    by (simp add: section_or_def)
  with a' o show ?thesis by simp
qed

lemma ensure_jobToBeDone_Inr:
  assumes "ensure_jobToBeDone n = Inr n'"
  shows "is_object n \<and> is_object n' \<and> same_except n n' [''jobToBeDone'']
       \<and> (\<exists>j'. get_named n' ''jobToBeDone'' = Some j'
            \<and> section_or (get_named n ''jobToBeDone'') default_jobToBeDone j' jobToBeDone_rel)"
proof (cases "truthy_opt (get_named n ''jobToBeDone'')")
  case False
  with assms have s: "set_named n ''jobToBeDone'' default_jobToBeDone = Inr n'"
    by (simp add: ensure_jobToBeDone_def)
  from set_named_is_object [OF s] same_except_set [OF s] get_set_same [OF s] section_or_default [OF False]
  show ?thesis by simp
next
  case True
  with assms have "in_child n ''jobToBeDone'' (\<lambda>j.
        bind (default_if_falsy j ''placeholderExemplo'' (JStr '''')) (\<lambda>j.
          if \<not> truthy_opt (get_named j ''avaliacao'')
          then set_named j ''avaliacao'' default_avaliacao
          else in_child j ''avaliacao'' (\<lambda>a. default_if_falsy a ''sugestoes'' (JArr [] [])))) = Inr n'"
    by (simp add: ensure_jobToBeDone_def)
  from in_child_Inr [OF this] obtain j j' where j: "get_named n ''jobToBeDone'' = Some j"
    and f: "bind (default_if_falsy j ''placeholderExemplo'' (JStr '''')) (\<lambda>j.
          if \<not> truthy_opt (get_named j ''avaliacao'')
          then set_named j ''avaliacao'' default_avaliacao
          else in_child j ''avaliacao'' (\<lambda>a. default_if_falsy a ''sugestoes'' (JArr [] []))) = Inr j'"
    and j': "get_named n' ''jobToBeDone'' = Some j'"
    and o: "is_object n" "is_object n'" "same_except n n' [''jobToBeDone'']"
    by auto
  from f obtain j1 where d: "default_if_falsy j ''placeholderExemplo'' (JStr '''') = Inr j1"
    and g: "(if \<not> truthy_opt (get_named j1 ''avaliacao'')
          then set_named j1 ''avaliacao'' default_avaliacao
          else in_child j1 ''avaliacao'' (\<lambda>a. default_if_falsy a ''sugestoes'' (JArr [] []))) = Inr j'"
    by (auto simp: bind_Inr_iff)
  from default_if_falsy_Inr [OF d] have 1: "is_object j" "same_except j j1 [''placeholderExemplo'']"
    "kept_or j j1 ''placeholderExemplo'' (JStr '''')" by simp_all
  from avaliacao_step [OF g] obtain a' where 2: "is_object j'" "same_except j1 j' [''avaliacao'']"
    "get_named j' ''avaliacao'' = Some a'"
    "section_or (get_named j1 ''avaliacao'') default_avaliacao a' avaliacao_rel"
    by auto
  from 1(2) 2(2) have s: "same_except j j' [''placeholderExemplo'', ''avaliacao'']"
    by (rule same_except_trans) simp
  from 1(2) have "get_named j1 ''avaliacao'' = get_named j ''avaliacao''"
    by (simp add: same_except_def)
  moreover from 2(2) have "get_named j' ''placeholderExemplo'' = get_named j1 ''placeholderExemplo''"
    by (simp add: same_except_def)
  ultimately have "jobToBeDone_rel j j'"
    using s 1(3) 2(3,4) by (auto simp: jobToBeDone_rel_def kept_or_def)
  moreover from True j have "truthy j" by (simp add: truthy_opt_def)
  ultimately have "section_or (get_named n ''jobToBeDone'') default_jobToBeDone j' jobToBeDone_rel"
    using j 1(1) 2(1) by (simp add: section_or_def)
  with j' o show ?thesis by simp
qed

lemma ensure_tomDeVoz_Inr:
  assumes "ensure_tomDeVoz n = Inr n'"
  shows "is_object n \<and> is_object n' \<and> same_except n n' [''tomDeVoz'']
       \<and> (\<exists>t'. get_named n' ''tomDeVoz'' = Some t'
            \<and> section_or (get_named n ''tomDeVoz'') default_tomDeVoz t'
                 (\<lambda>t t'. same_except t t' [''manter'', ''mudar'']
                    \<and> kept_or t t' ''manter'' (JArr [] []) \<and> kept_or t t' ''mudar'' (JArr [] [])))"
proof (cases "truthy_opt (get_named n ''tomDeVoz'')")
  case False
  with assms have s: "set_named n ''tomDeVoz'' default_tomDeVoz = Inr n'"
    by (simp add: ensure_tomDeVoz_def)
  from set_named_is_object [OF s] same_except_set [OF s] get_set_same [OF s] section_or_default [OF False]
  show ?thesis by simp
next
  case True
  with assms have "in_child n ''tomDeVoz'' (\<lambda>t.
        bind (default_if_falsy t ''manter'' (JArr [] [])) (\<lambda>t.
          default_if_falsy t ''mudar'' (JArr [] []))) = Inr n'"
    by (simp add: ensure_tomDeVoz_def)
  from in_child_Inr [OF this] obtain t t' where t: "get_named n ''tomDeVoz'' = Some t"
    and f: "bind (default_if_falsy t ''manter'' (JArr [] [])) (\<lambda>t.
          default_if_falsy t ''mudar'' (JArr [] [])) = Inr t'"
    and t': "get_named n' ''tomDeVoz'' = Some t'"
    and o: "is_object n" "is_object n'" "same_except n n' [''tomDeVoz'']"
    by auto
  from f obtain t1 where d1: "default_if_falsy t ''manter'' (JArr [] []) = Inr t1"
    and d2: "default_if_falsy t1 ''mudar'' (JArr [] []) = Inr t'"
    by (auto simp: bind_Inr_iff)
  from default_if_falsy_Inr [OF d1] have 1: "is_object t" "same_except t t1 [''manter'']"
    "kept_or t t1 ''manter'' (JArr [] [])" by simp_all
  from default_if_falsy_Inr [OF d2] have 2: "is_object t'" "same_except t1 t' [''mudar'']"
    "kept_or t1 t' ''mudar'' (JArr [] [])" by simp_all
  from 1(2) 2(2) have s: "same_except t t' [''manter'', ''mudar'']"
    by (rule same_except_trans) simp
  from 1(2) have "get_named t1 ''mudar'' = get_named t ''mudar''"
    by (simp add: same_except_def)
  moreover from 2(2) have "get_named t' ''manter'' = get_named t1 ''manter''"
    by (simp add: same_except_def)
  ultimately have "kept_or t t' ''manter'' (JArr [] [])" "kept_or t t' ''mudar'' (JArr [] [])"
    using 1(3) 2(3) by (simp_all add: kept_or_def)
  moreover from True t have "truthy t" by (simp add: truthy_opt_def)
  ultimately have "section_or (get_named n ''tomDeVoz'') default_tomDeVoz t'
                 (\<lambda>t t'. same_except t t' [''manter'', ''mudar'']
                    \<and> kept_or t t' ''manter'' (JArr [] []) \<and> kept_or t t' ''mudar'' (JArr [] []))"
    using t s 1(1) 2(1) by (simp add: section_or_def)
  with t' o show ?thesis by simp
qed

lemma ensure_experiencia_Inr:
  assumes "ensure_experiencia n = Inr n'"
  shows "is_object n \<and> is_object n' \<and> same_except n n' [''experiencia'']
       \<and> (\<exists>e'. get_named n' ''experiencia'' = Some e'
            \<and> section_or (get_named n ''experiencia'') default_experiencia e'
                 (\<lambda>e e'. same_except e e' [''usabilidade'', ''visual'', ''acessibilidade'', ''cta'']
                    \<and> kept_or e e' ''usabilidade'' (JArr [] [])
                    \<and> kept_or e e' ''visual'' (JArr [] [])
                    \<and> kept_or e e' ''acessibilidade'' (JArr [] [])
                    \<and> kept_or e e' ''cta'' default_cta))"
proof (cases "truthy_opt (get_named n ''experiencia'')")
  case False
  with assms have s: "set_named n ''experiencia'' default_experiencia = Inr n'"
    by (simp add: ensure_experiencia_def)
  from set_named_is_object [OF s] same_except_set [OF s] get_set_same [OF s] section_or_default [OF False]
  show ?thesis by simp
next
  case True
  with assms have "in_child n ''experiencia'' (\<lambda>e.
        bind (default_if_falsy e ''usabilidade'' (JArr [] [])) (\<lambda>e.
        bind (default_if_falsy e ''visual'' (JArr [] [])) (\<lambda>e.
        bind (default_if_falsy e ''acessibilidade'' (JArr [] [])) (\<lambda>e.
          default_if_falsy e ''cta'' default_cta)))) = Inr n'"
    by (simp add: ensure_experiencia_def)
  from in_child_Inr [OF this] obtain e e' where e: "get_named n ''experiencia'' = Some e"
    and f: "bind (default_if_falsy e ''usabilidade'' (JArr [] [])) (\<lambda>e.
        bind (default_if_falsy e ''visual'' (JArr [] [])) (\<lambda>e.
        bind (default_if_falsy e ''acessibilidade'' (JArr [] [])) (\<lambda>e.
          default_if_falsy e ''cta'' default_cta))) = Inr e'"
    and e': "get_named n' ''experiencia'' = Some e'"
    and o: "is_object n" "is_object n'" "same_except n n' [''experiencia'']"
    by auto
  from f obtain e1 e2 e3 where d1: "default_if_falsy e ''usabilidade'' (JArr [] []) = Inr e1"
    and d2: "default_if_falsy e1 ''visual'' (JArr [] []) = Inr e2"
    and d3: "default_if_falsy e2 ''acessibilidade'' (JArr [] []) = Inr e3"
    and d4: "default_if_falsy e3 ''cta'' default_cta = Inr e'"
    by (auto simp: bind_Inr_iff)
  from default_if_falsy_Inr [OF d1] have 1: "is_object e" "same_except e e1 [''usabilidade'']"
    "kept_or e e1 ''usabilidade'' (JArr [] [])" by simp_all
  from default_if_falsy_Inr [OF d2] have 2: "same_except e1 e2 [''visual'']"
    "kept_or e1 e2 ''visual'' (JArr [] [])" by simp_all
  from default_if_falsy_Inr [OF d3] have 3: "same_except e2 e3 [''acessibilidade'']"
    "kept_or e2 e3 ''acessibilidade'' (JArr [] [])" by simp_all
  from default_if_falsy_Inr [OF d4] have 4: "is_object e'" "same_except e3 e' [''cta'']"
    "kept_or e3 e' ''cta'' default_cta" by simp_all
  from 1(2) 2(1) have "same_except e e2 [''usabilidade'', ''visual'']"
    by (rule same_except_trans) simp
  from this 3(1) have "same_except e e3 [''usabilidade'', ''visual'', ''acessibilidade'']"
    by (rule same_except_trans) simp
  from this 4(2) have s: "same_except e e' [''usabilidade'', ''visual'', ''acessibilidade'', ''cta'']"
    by (rule same_except_trans) simp
  from 1(2) 2(1) 3(1) 4(2) have g:
    "get_named e' ''usabilidade'' = get_named e1 ''usabilidade''"
    "get_named e' ''visual'' = get_named e2 ''visual''" "get_named e1 ''visual'' = get_named e ''visual''"
    "get_named e' ''acessibilidade'' = get_named e3 ''acessibilidade''"
    "get_named e2 ''acessibilidade'' = get_named e ''acessibilidade''"
    "get_named e3 ''cta'' = get_named e ''cta''"
    by (simp_all add: same_except_def)
  have "kept_or e e' ''usabilidade'' (JArr [] [])" "kept_or e e' ''visual'' (JArr [] [])"
    "kept_or e e' ''acessibilidade'' (JArr [] [])" "kept_or e e' ''cta'' default_cta"
    using 1(3) 2(2) 3(2) 4(3) g by (simp_all add: kept_or_def)
  moreover from True e have "truthy e" by (simp add: truthy_opt_def)
  ultimately have "section_or (get_named n ''experiencia'') default_experiencia e'
                 (\<lambda>e e'. same_except e e' [''usabilidade'', ''visual'', ''acessibilidade'', ''cta'']
                    \<and> kept_or e e' ''usabilidade'' (JArr [] [])
                    \<and> kept_or e e' ''visual'' (JArr [] [])
                    \<and> kept_or e e' ''acessibilidade'' (JArr [] [])
                    \<and> kept_or e e' ''cta'' default_cta)"
    using e s 1(1) 4(1) by (simp add: section_or_def)
  with e' o show ?thesis by simp
qed

lemma fix_nota_Inr:
  assumes "fix_nota n section = Inr n'" and "section \<noteq> ''length''"
  shows "is_object n \<and> is_object n' \<and> same_except n n' [section]
       \<and> (\<exists>s s'. get_named n section = Some s \<and> get_named n' section = Some s'
             \<and> fix_range s ''nota'' = Inr s')"
  using in_child_Inr [OF assms [unfolded fix_nota_def]] by blast

lemma fix_clareza_Inr:
  assumes "fix_clareza n = Inr n'"
  shows "is_object n \<and> is_object n' \<and> same_except n n' [''experiencia'']
       \<and> (\<exists>e e' c c'. get_named n ''experiencia'' = Some e \<and> get_named n' ''experiencia'' = Some e'
             \<and> get_named e ''cta'' = Some c \<and> fix_range c ''clareza'' = Inr c'
             \<and> set_named e ''cta'' c' = Inr e')"
proof -
  from in_child_Inr [OF assms [unfolded fix_clareza_def]] obtain e e' where
    e: "get_named n ''experiencia'' = Some e" "get_named n' ''experiencia'' = Some e'"
    and f: "in_child e ''cta'' (\<lambda>c. fix_range c ''clareza'') = Inr e'"
    and o: "is_object n" "is_object n'" "same_except n n' [''experiencia'']"
    by auto
  from f obtain c c' where "get_named e ''cta'' = Some c" "fix_range c ''clareza'' = Inr c'"
    "set_named e ''cta'' c' = Inr e'"
    by (auto simp: in_child_def bind_Inr_iff split: option.splits)
  with e o show ?thesis by blast
qed

lemma js_gt_JNum: "js_gt E (JNum r) b = Inr (b < r)"
  by (simp add: js_gt_def js_number_def)

lemma ensure_prioridadesTop3_Inr:
  assumes "ensure_prioridadesTop3 n = Inr n'" and "is_object n"
  shows "is_object n' \<and> same_except n n' [''prioridadesTop3'']
       \<and> (\<exists>p. get_named n' ''prioridadesTop3'' = Some p \<and> truthy p
             \<and> get_named p ''length'' \<noteq> Some (JNum 0)
             \<and> (case get_named n ''prioridadesTop3'' of
                  None \<Rightarrow> p = default_prioridadesTop3
                | Some q \<Rightarrow> if \<not> truthy q \<or> get_named q ''length'' = Some (JNum 0)
                            then p = default_prioridadesTop3 else p = q))"
proof (cases "case get_named n ''prioridadesTop3'' of None \<Rightarrow> True
              | Some q \<Rightarrow> \<not> truthy q \<or> get_named q ''length'' = Some (JNum 0)")
  case True
  with assms have s: "set_named n ''prioridadesTop3'' default_prioridadesTop3 = Inr n'"
    by (auto simp: ensure_prioridadesTop3_def split: option.splits)
  from set_named_is_object [OF s] same_except_set [OF s] get_set_same [OF s] True
  show ?thesis by (auto simp: default_prioridadesTop3_def split: option.splits)
next
  case False
  with assms have "n' = n"
    by (auto simp: ensure_prioridadesTop3_def split: option.splits)
  with False assms(2) show ?thesis
    by (auto simp: same_except_refl split: option.splits)
qed

lemma cap_step:
  assumes "(case get_named p ''length'' of
         None \<Rightarrow> Inr p
       | Some l \<Rightarrow> bind (js_gt E l 3) (\<lambda>longer. if longer then slice3 p else Inr p)) = Inr p'"
    and "truthy p" and "get_named p ''length'' \<noteq> Some (JNum 0)"
  shows "p' = first3 p \<and> capped E p'"
proof (cases p)
  case (JArr xs ps)
  with assms show ?thesis
    by (auto simp: js_gt_JNum capped_def split: if_splits)
next
  case (JStr s)
  with assms show ?thesis
    by (auto simp: js_gt_JNum capped_def split: if_splits)
next
  case (JObj kvs)
  with assms show ?thesis
    by (auto simp: capped_def bind_Inr_iff split: option.splits if_splits)
qed (use assms in \<open>auto simp: capped_def\<close>)

lemma cap_prioridadesTop3_Inr:
  assumes "cap_prioridadesTop3 E n = Inr n'"
  shows "is_object n \<and> is_object n' \<and> same_except n n' [''prioridadesTop3'']
       \<and> (\<exists>p p'. get_named n ''prioridadesTop3'' = Some p \<and> get_named n' ''prioridadesTop3'' = Some p'
             \<and> (case get_named p ''length'' of
                   None \<Rightarrow> Inr p
                 | Some l \<Rightarrow> bind (js_gt E l 3) (\<lambda>longer. if longer then slice3 p else Inr p)) = Inr p')"
  using in_child_Inr [OF assms [unfolded cap_prioridadesTop3_def]] by blast

text \<open>A section after the later statements that repair its numbers.\<close>

lemma tomDeVoz_compose:
  assumes "section_or old default_tomDeVoz t1
                 (\<lambda>t t'. same_except t t' [''manter'', ''mudar'']
                    \<and> kept_or t t' ''manter'' (JArr [] []) \<and> kept_or t t' ''mudar'' (JArr [] []))"
    and "fix_range t1 ''nota'' = Inr t2"
  shows "section_or old default_tomDeVoz t2 tomDeVoz_rel"
proof (cases "truthy_opt old")
  case False
  with assms(1) have "t1 = default_tomDeVoz"
    by (auto simp: section_or_def truthy_opt_def split: option.splits)
  with assms(2) have "t2 = default_tomDeVoz"
    by (simp add: fix_range_def in_range_def default_tomDeVoz_def)
  with False show ?thesis by (simp add: section_or_default)
next
  case True
  then obtain t where t: "old = Some t" "truthy t" by (rule truthy_optE)
  with assms(1) have 1: "is_object t" "same_except t t1 [''manter'', ''mudar'']"
    "kept_or t t1 ''manter'' (JArr [] [])" "kept_or t t1 ''mudar'' (JArr [] [])"
    by (simp_all add: section_or_def)
  from fix_range_Inr [OF assms(2)] have 2: "is_object t2" "same_except t1 t2 [''nota'']"
    "kept_range t1 t2 ''nota''" by simp_all
  from 1(2) 2(2) have s: "same_except t t2 [''manter'', ''mudar'', ''nota'']"
    by (rule same_except_trans) simp
  from 1(2) 2(2) have "get_named t1 ''nota'' = get_named t ''nota''"
    "get_named t2 ''manter'' = get_named t1 ''manter''" "get_named t2 ''mudar'' = get_named t1 ''mudar''"
    by (simp_all add: same_except_def)
  with s 1(3,4) 2(3) have "tomDeVoz_rel t t2"
    by (simp add: tomDeVoz_rel_def kept_or_def kept_range_def)
  with t 1(1) 2(1) show ?thesis by (simp add: section_or_def)
qed

lemma cta_compose:
  assumes "kept_or e e1 ''cta'' default_cta" and "get_named e1 ''cta'' = Some c"
    and "fix_range c ''clareza'' = Inr c'"
  shows "section_or (get_named e ''cta'') default_cta c' cta_rel"
proof (cases "truthy_opt (get_named e ''cta'')")
  case False
  with assms(1,2) have "c = default_cta" by (simp add: kept_or_def)
  with assms(3) have "c' = default_cta"
    by (simp add: fix_range_def in_range_def default_cta_def)
  with False show ?thesis by (simp add: section_or_default)
next
  case True
  then obtain c0 where c0: "get_named e ''cta'' = Some c0" "truthy c0" by (rule truthy_optE)
  with True assms(1,2) have "c0 = c" by (simp add: kept_or_def)
  with c0 fix_range_Inr [OF assms(3)] show ?thesis
    by (simp add: section_or_def cta_rel_def)
qed

lemma experiencia_compose:
  assumes "section_or old default_experiencia e1
                 (\<lambda>e e'. same_except e e' [''usabilidade'', ''visual'', ''acessibilidade'', ''cta'']
                    \<and> kept_or e e' ''usabilidade'' (JArr [] [])
                    \<and> kept_or e e' ''visual'' (JArr [] [])
                    \<and> kept_or e e' ''acessibilidade'' (JArr [] [])
                    \<and> kept_or e e' ''cta'' default_cta)"
    and "fix_range e1 ''nota'' = Inr e2"
    and "get_named e2 ''cta'' = Some c" and "fix_range c ''clareza'' = Inr c'"
    and "set_named e2 ''cta'' c' = Inr e3"
  shows "section_or old default_experiencia e3 experiencia_rel"
proof (cases "truthy_opt old")
  case False
  with assms(1) have "e1 = default_experiencia"
    by (auto simp: section_or_def truthy_opt_def split: option.splits)
  with assms(2) have e2: "e2 = default_experiencia"
    by (simp add: fix_range_def in_range_def default_experiencia_def)
  with assms(3) have "c = default_cta" by (simp add: default_experiencia_def)
  with assms(4) have "c' = c"
    by (simp add: fix_range_def in_range_def default_cta_def)
  with assms(3,5) have "e3 = e2" by (simp add: set_named_same)
  with e2 False show ?thesis by (simp add: section_or_default)
next
  case True
  then obtain e where e: "old = Some e" "truthy e" by (rule truthy_optE)
  with assms(1) have 1: "is_object e"
    "same_except e e1 [''usabilidade'', ''visual'', ''acessibilidade'', ''cta'']"
    "kept_or e e1 ''usabilidade'' (JArr [] [])" "kept_or e e1 ''visual'' (JArr [] [])"
    "kept_or e e1 ''acessibilidade'' (JArr [] [])" "kept_or e e1 ''cta'' default_cta"
    by (simp_all add: section_or_def)
  from fix_range_Inr [OF assms(2)] have 2: "same_except e1 e2 [''nota'']" "kept_range e1 e2 ''nota''"
    by simp_all
  from set_named_is_object [OF assms(5)] same_except_set [OF assms(5)] get_set_same [OF assms(5)]
  have 3: "is_object e3" "same_except e2 e3 [''cta'']" "get_named e3 ''cta'' = Some c'"
    by simp_all
  from 1(2) 2(1) have "same_except e e2 [''usabilidade'', ''visual'', ''acessibilidade'', ''cta'', ''nota'']"
    by (rule same_except_trans) auto
  from this 3(2) have s: "same_except e e3 [''usabilidade'', ''visual'', ''acessibilidade'', ''cta'', ''nota'']"
    by (rule same_except_trans) auto
  from 1(2) 2(1) 3(2) have g: "get_named e1 ''nota'' = get_named e ''nota''"
    "get_named e2 ''cta'' = get_named e1 ''cta''"
    "get_named e3 ''nota'' = get_named e2 ''nota''"
    "get_named e3 ''usabilidade'' = get_named e1 ''usabilidade''"
    "get_named e3 ''visual'' = get_named e1 ''visual''"
    "get_named e3 ''acessibilidade'' = get_named e1 ''acessibilidade''"
    by (simp_all add: same_except_def)
  from g(2) assms(3) have "get_named e1 ''cta'' = Some c" by simp
  from cta_compose [OF 1(6) this assms(4)]
  have "section_or (get_named e ''cta'') default_cta c' cta_rel" .
  with s g 1(3,4,5) 2(2) 3(3) have "experiencia_rel e e3"
    by (simp add: experiencia_rel_def kept_or_def kept_range_def)
  with e 1(1) 3(1) show ?thesis by (simp add: section_or_def)
qed

lemma set_named_plain: "set_named t k v = Inr t' \<Longrightarrow> is_plain t' = is_plain t"
  by (cases t) auto

lemma default_if_falsy_plain: "default_if_falsy t k d = Inr t' \<Longrightarrow> is_plain t' = is_plain t"
  by (auto simp: default_if_falsy_def set_named_plain split: if_splits)

lemma fix_range_plain: "fix_range t k = Inr t' \<Longrightarrow> is_plain t' = is_plain t"
  by (auto simp: fix_range_def set_named_plain split: if_splits)

lemma in_child_plain: "in_child t k f = Inr t' \<Longrightarrow> is_plain t' = is_plain t"
  by (auto simp: in_child_def bind_Inr_iff set_named_plain split: option.splits)

lemma ensure_prioridadesTop3_plain: "ensure_prioridadesTop3 t = Inr t' \<Longrightarrow> is_plain t' = is_plain t"
  by (auto simp: ensure_prioridadesTop3_def set_named_plain split: option.splits if_splits)

lemma first3_default [simp]: "first3 default_prioridadesTop3 = default_prioridadesTop3"
  by (simp add: default_prioridadesTop3_def)

text \<open>The eleven statements in sequence.\<close>

lemma normalizeV6Data_steps:
  assumes "normalizeV6Data E x = Inr y"
  obtains n1 n2 n3 n4 n5 n6 n7 n8 n9 n10 where
    "set_named (JObj (spread x)) ''schemaVersion'' (JStr ''v6'') = Inr n1"
    "default_if_falsy n1 ''objetivoInferido'' (JStr '''') = Inr n2"
    "ensure_jobToBeDone n2 = Inr n3"
    "ensure_tomDeVoz n3 = Inr n4"
    "ensure_experiencia n4 = Inr n5"
    "ensure_prioridadesTop3 n5 = Inr n6"
    "cap_prioridadesTop3 E n6 = Inr n7"
    "fix_range n7 ''pontuacaoGeral'' = Inr n8"
    "fix_nota n8 ''tomDeVoz'' = Inr n9"
    "fix_nota n9 ''experiencia'' = Inr n10"
    "fix_clareza n10 = Inr y"
  using assms unfolding normalizeV6Data_def bind_Inr_iff by blast

lemma normalizeV6Data_char:
  assumes "normalizeV6Data E x = Inr y"
  shows "normalized_from (JObj (spread x)) y"
    and "\<exists>p. get_named y ''prioridadesTop3'' = Some p \<and> capped E p"
proof -
  let ?X = "JObj (spread x)"
  from assms obtain n1 n2 n3 n4 n5 n6 n7 n8 n9 n10 where
    s1: "set_named ?X ''schemaVersion'' (JStr ''v6'') = Inr n1" and
    s2: "default_if_falsy n1 ''objetivoInferido'' (JStr '''') = Inr n2" and
    s3: "ensure_jobToBeDone n2 = Inr n3" and
    s4: "ensure_tomDeVoz n3 = Inr n4" and
    s5: "ensure_experiencia n4 = Inr n5" and
    s6: "ensure_prioridadesTop3 n5 = Inr n6" and
    s7: "cap_prioridadesTop3 E n6 = Inr n7" and
    s8: "fix_range n7 ''pontuacaoGeral'' = Inr n8" and
    s9: "fix_nota n8 ''tomDeVoz'' = Inr n9" and
    s10: "fix_nota n9 ''experiencia'' = Inr n10" and
    s11: "fix_clareza n10 = Inr y"
    by (rule normalizeV6Data_steps)
  note r2 = default_if_falsy_Inr [OF s2]
  note r3 = ensure_jobToBeDone_Inr [OF s3]
  note r4 = ensure_tomDeVoz_Inr [OF s4]
  note r5 = ensure_experiencia_Inr [OF s5]
  from r5 have o5: "is_object n5" by simp
  note r6 = ensure_prioridadesTop3_Inr [OF s6 o5]
  note r7 = cap_prioridadesTop3_Inr [OF s7]
  note r8 = fix_range_Inr [OF s8]
  note r9 = fix_nota_Inr [OF s9]
  note r10 = fix_nota_Inr [OF s10]
  note r11 = fix_clareza_Inr [OF s11]
  have f1: "\<And>k. k \<noteq> ''schemaVersion'' \<Longrightarrow> get_named n1 k = get_named ?X k"
    using same_except_set [OF s1] by (simp add: same_except_def)
  have f2: "\<And>k. k \<noteq> ''objetivoInferido'' \<Longrightarrow> get_named n2 k = get_named n1 k"
    using r2 by (simp add: same_except_def)
  have f3: "\<And>k. k \<noteq> ''jobToBeDone'' \<Longrightarrow> get_named n3 k = get_named n2 k"
    using r3 by (simp add: same_except_def)
  have f4: "\<And>k. k \<noteq> ''tomDeVoz'' \<Longrightarrow> get_named n4 k = get_named n3 k"
    using r4 by (simp add: same_except_def)
  have f5: "\<And>k. k \<noteq> ''experiencia'' \<Longrightarrow> get_named n5 k = get_named n4 k"
    using r5 by (simp add: same_except_def)
  have f6: "\<And>k. k \<noteq> ''prioridadesTop3'' \<Longrightarrow> get_named n6 k = get_named n5 k"
    using r6 by (simp add: same_except_def)
  have f7: "\<And>k. k \<noteq> ''prioridadesTop3'' \<Longrightarrow> get_named n7 k = get_named n6 k"
    using r7 by (simp add: same_except_def)
  have f8: "\<And>k. k \<noteq> ''pontuacaoGeral'' \<Longrightarrow> get_named n8 k = get_named n7 k"
    using r8 by (simp add: same_except_def)
  have f9: "\<And>k. k \<noteq> ''tomDeVoz'' \<Longrightarrow> get_named n9 k = get_named n8 k"
    using r9 by (simp add: same_except_def)
  have f10: "\<And>k. k \<noteq> ''experiencia'' \<Longrightarrow> get_named n10 k = get_named n9 k"
    using r10 by (simp add: same_except_def)
  have f11: "\<And>k. k \<noteq> ''experiencia'' \<Longrightarrow> get_named y k = get_named n10 k"
    using r11 by (simp add: same_except_def)
  note frames = f1 f2 f3 f4 f5 f6 f7 f8 f9 f10 f11
  have plain: "is_plain y"
    using set_named_plain [OF s1] default_if_falsy_plain [OF s2]
      in_child_plain [of n2 "''jobToBeDone''" _ n3] set_named_plain [of n2 _ _ n3] s3
      in_child_plain [of n3 "''tomDeVoz''" _ n4] set_named_plain [of n3 _ _ n4] s4
      in_child_plain [of n4 "''experiencia''" _ n5] set_named_plain [of n4 _ _ n5] s5
      ensure_prioridadesTop3_plain [OF s6] in_child_plain [OF s7 [unfolded cap_prioridadesTop3_def]]
      fix_range_plain [OF s8] in_child_plain [OF s9 [unfolded fix_nota_def]]
      in_child_plain [OF s10 [unfolded fix_nota_def]] in_child_plain [OF s11 [unfolded fix_clareza_def]]
    by (auto simp: ensure_jobToBeDone_def ensure_tomDeVoz_def ensure_experiencia_def split: if_splits)
  then have el: "elements y = elements ?X" by (cases y) simp_all
  have same: "same_except ?X y handled"
    using el by (simp add: same_except_def handled_def frames)
  have sv: "get_named y ''schemaVersion'' = Some (JStr ''v6'')"
    using get_set_same [OF s1] by (simp add: frames)
  have obj: "kept_or ?X y ''objetivoInferido'' (JStr '''')"
    using r2 by (simp add: kept_or_def frames)
  have pg: "kept_range ?X y ''pontuacaoGeral''"
    using r8 by (simp add: kept_range_def frames)
  have jtbd: "\<exists>j'. get_named y ''jobToBeDone'' = Some j'
            \<and> section_or (get_named ?X ''jobToBeDone'') default_jobToBeDone j' jobToBeDone_rel"
    using r3 by (simp add: frames)
  have tdv: "\<exists>t'. get_named y ''tomDeVoz'' = Some t'
            \<and> section_or (get_named ?X ''tomDeVoz'') default_tomDeVoz t' tomDeVoz_rel"
  proof -
    from r4 obtain t1 where t1: "get_named n4 ''tomDeVoz'' = Some t1"
      and so: "section_or (get_named n3 ''tomDeVoz'') default_tomDeVoz t1
                 (\<lambda>t t'. same_except t t' [''manter'', ''mudar'']
                    \<and> kept_or t t' ''manter'' (JArr [] []) \<and> kept_or t t' ''mudar'' (JArr [] []))"
      by blast
    from r9 obtain s s' where s: "get_named n8 ''tomDeVoz'' = Some s" "get_named n9 ''tomDeVoz'' = Some s'"
      "fix_range s ''nota'' = Inr s'" by auto
    from s(1) t1 have "s = t1" by (simp add: frames)
    with s(3) have "fix_range t1 ''nota'' = Inr s'" by simp
    from tomDeVoz_compose [OF so this] s(2) show ?thesis by (simp add: frames)
  qed
  have exp: "\<exists>e'. get_named y ''experiencia'' = Some e'
            \<and> section_or (get_named ?X ''experiencia'') default_experiencia e' experiencia_rel"
  proof -
    from r5 obtain e1 where e1: "get_named n5 ''experiencia'' = Some e1"
      and so: "section_or (get_named n4 ''experiencia'') default_experiencia e1
                 (\<lambda>e e'. same_except e e' [''usabilidade'', ''visual'', ''acessibilidade'', ''cta'']
                    \<and> kept_or e e' ''usabilidade'' (JArr [] [])
                    \<and> kept_or e e' ''visual'' (JArr [] [])
                    \<and> kept_or e e' ''acessibilidade'' (JArr [] [])
                    \<and> kept_or e e' ''cta'' default_cta)"
      by blast
    from r10 obtain s e2 where s: "get_named n9 ''experiencia'' = Some s"
      "get_named n10 ''experiencia'' = Some e2" "fix_range s ''nota'' = Inr e2" by auto
    from s(1) e1 have "s = e1" by (simp add: frames)
    with s(3) have fx: "fix_range e1 ''nota'' = Inr e2" by simp
    from r11 s(2) obtain e3 c c' where c: "get_named y ''experiencia'' = Some e3"
      "get_named e2 ''cta'' = Some c" "fix_range c ''clareza'' = Inr c'" "set_named e2 ''cta'' c' = Inr e3"
      by auto
    from experiencia_compose [OF so fx c(2,3,4)] c(1) show ?thesis by (simp add: frames)
  qed
  have pri: "\<exists>p'. get_named y ''prioridadesTop3'' = Some p'
            \<and> prioridadesTop3_rel (get_named ?X ''prioridadesTop3'') p' \<and> capped E p'"
  proof -
    from r6 obtain p where p: "get_named n6 ''prioridadesTop3'' = Some p" "truthy p"
      "get_named p ''length'' \<noteq> Some (JNum 0)"
      and c: "(case get_named n5 ''prioridadesTop3'' of
                  None \<Rightarrow> p = default_prioridadesTop3
                | Some q \<Rightarrow> if \<not> truthy q \<or> get_named q ''length'' = Some (JNum 0)
                            then p = default_prioridadesTop3 else p = q)"
      by blast
    from r7 p(1) obtain p' where p': "get_named n7 ''prioridadesTop3'' = Some p'"
      "(case get_named p ''length'' of
                   None \<Rightarrow> Inr p
                 | Some l \<Rightarrow> bind (js_gt E l 3) (\<lambda>longer. if longer then slice3 p else Inr p)) = Inr p'"
      by auto
    from cap_step [OF p'(2) p(2,3)] have 1: "p' = first3 p" "capped E p'" by blast+
    from c have "prioridadesTop3_rel (get_named ?X ''prioridadesTop3'') (first3 p)"
      by (auto simp: prioridadesTop3_rel_def frames split: option.splits if_splits)
    with 1 p'(1) show ?thesis by (simp add: frames)
  qed
  from plain same sv obj pg jtbd tdv exp pri show "normalized_from ?X y"
    unfolding normalized_from_def by blast
  from pri show "\<exists>p. get_named y ''prioridadesTop3'' = Some p \<and> capped E p" by blast
qed

text \<open>A normalized document is a fixed point of every statement.\<close>

lemma kept_or_stable: "kept_or t t' k d \<Longrightarrow> truthy_opt (get_named t' k) \<or> get_named t' k = Some d"
  by (simp add: kept_or_def split: if_splits)

lemma kept_range_stable: "kept_range t t' k \<Longrightarrow> in_range (get_named t' k)"
  by (simp add: kept_range_def in_range_def split: if_splits)

lemma section_or_cases:
  assumes "section_or old d new R"
  obtains "new = d" | s where "is_object new" "R s new"
  using assms by (auto simp: section_or_def split: option.splits if_splits)

lemma section_or_split:
  assumes "section_or old d new R"
  shows "(new = d \<and> \<not> truthy_opt old) \<or> (\<exists>s. old = Some s \<and> truthy s \<and> is_object s \<and> is_object new \<and> R s new)"
  using assms by (auto simp: section_or_def truthy_opt_def split: option.splits if_splits)

lemma avaliacao_fixed:
  assumes "section_or old default_avaliacao a' avaliacao_rel"
  shows "truthy a' \<and> default_if_falsy a' ''sugestoes'' (JArr [] []) = Inr a'"
  using assms
proof (cases rule: section_or_cases)
  case 1
  then show ?thesis
    by (simp add: default_avaliacao_def default_if_falsy_def truthy_opt_def)
next
  case (2 s)
  from 2(2) have "kept_or s a' ''sugestoes'' (JArr [] [])" by (simp add: avaliacao_rel_def)
  from kept_or_stable [OF this] have "truthy_opt (get_named a' ''sugestoes'')"
    by (auto simp: truthy_opt_def)
  with 2(1) show ?thesis by (simp add: default_if_falsy_def is_object_truthy)
qed

lemma jobToBeDone_fixed:
  assumes "get_named y ''jobToBeDone'' = Some j'"
    and "section_or old default_jobToBeDone j' jobToBeDone_rel"
  shows "ensure_jobToBeDone y = Inr y"
proof -
  have "truthy j' \<and> bind (default_if_falsy j' ''placeholderExemplo'' (JStr '''')) (\<lambda>j.
          if \<not> truthy_opt (get_named j ''avaliacao'')
          then set_named j ''avaliacao'' default_avaliacao
          else in_child j ''avaliacao'' (\<lambda>a. default_if_falsy a ''sugestoes'' (JArr [] []))) = Inr j'"
    using assms(2)
  proof (cases rule: section_or_cases)
    case 1
    then show ?thesis
      by (simp add: default_jobToBeDone_def default_avaliacao_def default_if_falsy_def
          truthy_opt_def in_child_def)
  next
    case (2 s)
    from 2(2) obtain a' where k: "kept_or s j' ''placeholderExemplo'' (JStr '''')"
      and a: "get_named j' ''avaliacao'' = Some a'"
      and so: "section_or (get_named s ''avaliacao'') default_avaliacao a' avaliacao_rel"
      by (auto simp: jobToBeDone_rel_def)
    from kept_or_stable [OF k] have 1: "default_if_falsy j' ''placeholderExemplo'' (JStr '''') = Inr j'"
      by (rule default_if_falsy_id) simp
    from avaliacao_fixed [OF so] have 2: "truthy a'" "default_if_falsy a' ''sugestoes'' (JArr [] []) = Inr a'"
      by simp_all
    from a 2(2) have "in_child j' ''avaliacao'' (\<lambda>a. default_if_falsy a ''sugestoes'' (JArr [] [])) = Inr j'"
      by (rule in_child_id) simp
    with 1 a 2(1) \<open>is_object j'\<close> show ?thesis
      by (simp add: truthy_opt_def is_object_truthy)
  qed
  with assms(1) show ?thesis
    by (simp add: ensure_jobToBeDone_def truthy_opt_def in_child_def set_named_same)
qed

lemma tomDeVoz_fixed:
  assumes "get_named y ''tomDeVoz'' = Some t'"
    and "section_or old default_tomDeVoz t' tomDeVoz_rel"
  shows "ensure_tomDeVoz y = Inr y \<and> fix_nota y ''tomDeVoz'' = Inr y"
proof -
  have "truthy t' \<and> bind (default_if_falsy t' ''manter'' (JArr [] [])) (\<lambda>t.
          default_if_falsy t ''mudar'' (JArr [] [])) = Inr t' \<and> fix_range t' ''nota'' = Inr t'"
    using assms(2)
  proof (cases rule: section_or_cases)
    case 1
    then show ?thesis
      by (simp add: default_tomDeVoz_def default_if_falsy_def truthy_opt_def fix_range_def in_range_def)
  next
    case (2 s)
    from 2(2) have k: "kept_or s t' ''manter'' (JArr [] [])" "kept_or s t' ''mudar'' (JArr [] [])"
      "kept_range s t' ''nota''"
      by (auto simp: tomDeVoz_rel_def)
    from kept_or_stable [OF k(1)] have 1: "default_if_falsy t' ''manter'' (JArr [] []) = Inr t'"
      by (rule default_if_falsy_id) simp
    from kept_or_stable [OF k(2)] have 2: "default_if_falsy t' ''mudar'' (JArr [] []) = Inr t'"
      by (rule default_if_falsy_id) simp
    from kept_range_stable [OF k(3)] have 3: "fix_range t' ''nota'' = Inr t'"
      by (rule fix_range_id)
    from 1 2 3 \<open>is_object t'\<close> show ?thesis by (simp add: is_object_truthy)
  qed
  with assms(1) show ?thesis
    by (simp add: ensure_tomDeVoz_def fix_nota_def truthy_opt_def in_child_def set_named_same)
qed

lemma cta_fixed:
  assumes "section_or old default_cta c' cta_rel"
  shows "truthy c' \<and> fix_range c' ''clareza'' = Inr c'"
  using assms
proof (cases rule: section_or_cases)
  case 1
  then show ?thesis by (simp add: default_cta_def fix_range_def in_range_def)
next
  case (2 s)
  from 2(2) have "kept_range s c' ''clareza''" by (simp add: cta_rel_def)
  from kept_range_stable [OF this] 2(1) show ?thesis
    by (simp add: fix_range_id is_object_truthy)
qed

lemma experiencia_fixed:
  assumes "get_named y ''experiencia'' = Some e'"
    and "section_or old default_experiencia e' experiencia_rel"
  shows "ensure_experiencia y = Inr y \<and> fix_nota y ''experiencia'' = Inr y \<and> fix_clareza y = Inr y"
proof -
  have "truthy e' \<and> bind (default_if_falsy e' ''usabilidade'' (JArr [] [])) (\<lambda>e.
        bind (default_if_falsy e ''visual'' (JArr [] [])) (\<lambda>e.
        bind (default_if_falsy e ''acessibilidade'' (JArr [] [])) (\<lambda>e.
          default_if_falsy e ''cta'' default_cta))) = Inr e'
        \<and> fix_range e' ''nota'' = Inr e'
        \<and> in_child e' ''cta'' (\<lambda>c. fix_range c ''clareza'') = Inr e'"
    using assms(2)
  proof (cases rule: section_or_cases)
    case 1
    then show ?thesis
      by (simp add: default_experiencia_def default_cta_def default_if_falsy_def truthy_opt_def
          fix_range_def in_range_def in_child_def)
  next
    case (2 s)
    from 2(2) obtain c' where k: "kept_or s e' ''usabilidade'' (JArr [] [])"
      "kept_or s e' ''visual'' (JArr [] [])" "kept_or s e' ''acessibilidade'' (JArr [] [])"
      "kept_range s e' ''nota''"
      and c: "get_named e' ''cta'' = Some c'"
      and so: "section_or (get_named s ''cta'') default_cta c' cta_rel"
      by (auto simp: experiencia_rel_def)
    from kept_or_stable [OF k(1)] have 1: "default_if_falsy e' ''usabilidade'' (JArr [] []) = Inr e'"
      by (rule default_if_falsy_id) simp
    from kept_or_stable [OF k(2)] have 2: "default_if_falsy e' ''visual'' (JArr [] []) = Inr e'"
      by (rule default_if_falsy_id) simp
    from kept_or_stable [OF k(3)] have 3: "default_if_falsy e' ''acessibilidade'' (JArr [] []) = Inr e'"
      by (rule default_if_falsy_id) simp
    from kept_range_stable [OF k(4)] have 4: "fix_range e' ''nota'' = Inr e'"
      by (rule fix_range_id)
    from cta_fixed [OF so] have 5: "truthy c'" "fix_range c' ''clareza'' = Inr c'" by simp_all
    from c 5(1) have 6: "default_if_falsy e' ''cta'' default_cta = Inr e'"
      by (simp add: default_if_falsy_def truthy_opt_def)
    from c 5(2) have 7: "in_child e' ''cta'' (\<lambda>c. fix_range c ''clareza'') = Inr e'"
      by (rule in_child_id) simp
    from 1 2 3 4 6 7 \<open>is_object e'\<close> show ?thesis by (simp add: is_object_truthy)
  qed
  with assms(1) show ?thesis
    by (simp add: ensure_experiencia_def fix_nota_def fix_clareza_def truthy_opt_def in_child_def
        set_named_same)
qed

lemma prioridadesTop3_fixed:
  assumes "get_named y ''prioridadesTop3'' = Some p" and "capped E p"
  shows "ensure_prioridadesTop3 y = Inr y \<and> cap_prioridadesTop3 E y = Inr y"
proof -
  from assms(2) have "(case get_named p ''length'' of
         None \<Rightarrow> Inr p
       | Some l \<Rightarrow> bind (js_gt E l 3) (\<lambda>longer. if longer then slice3 p else Inr p)) = Inr p"
    by (auto simp: capped_def split: option.splits)
  with assms show ?thesis
    by (simp add: ensure_prioridadesTop3_def cap_prioridadesTop3_def capped_def in_child_def
        set_named_same)
qed

lemma normalized_fixed:
  assumes "normalized_from X y" and "get_named y ''prioridadesTop3'' = Some p" and "capped E p"
  shows "normalizeV6Data E y = Inr y"
proof -
  from assms(1) obtain j' t' e' where
    plain: "is_plain y" and
    sv: "get_named y ''schemaVersion'' = Some (JStr ''v6'')" and
    obj: "kept_or X y ''objetivoInferido'' (JStr '''')" and
    pg: "kept_range X y ''pontuacaoGeral''" and
    j: "get_named y ''jobToBeDone'' = Some j'"
       "section_or (get_named X ''jobToBeDone'') default_jobToBeDone j' jobToBeDone_rel" and
    t: "get_named y ''tomDeVoz'' = Some t'"
       "section_or (get_named X ''tomDeVoz'') default_tomDeVoz t' tomDeVoz_rel" and
    e: "get_named y ''experiencia'' = Some e'"
       "section_or (get_named X ''experiencia'') default_experiencia e' experiencia_rel"
    unfolding normalized_from_def by blast
  from plain have 0: "JObj (spread y) = y" by (cases y) simp_all
  from sv have 1: "set_named y ''schemaVersion'' (JStr ''v6'') = Inr y"
    by (rule set_named_same) simp
  from kept_or_stable [OF obj] have 2: "default_if_falsy y ''objetivoInferido'' (JStr '''') = Inr y"
    by (rule default_if_falsy_id) simp
  note 3 = jobToBeDone_fixed [OF j]
  note 4 = tomDeVoz_fixed [OF t]
  note 5 = experiencia_fixed [OF e]
  note 6 = prioridadesTop3_fixed [OF assms(2,3)]
  from kept_range_stable [OF pg] have 7: "fix_range y ''pontuacaoGeral'' = Inr y"
    by (rule fix_range_id)
  from 0 1 2 3 4 5 6 7 show ?thesis
    by (simp add: normalizeV6Data_def)
qed

section \<open>When the normalizer throws\<close>

lemma primitive_section:
  assumes "truthy v" and "\<not> is_object v" and "k \<noteq> ''length''"
  shows "default_if_falsy v k d = Inl TypeError"
  using assms by (cases v) (simp_all add: default_if_falsy_def truthy_opt_def)

lemma in_child_Inl:
  assumes "in_child t k f = Inl e" and "\<And>c e. f c = Inl e \<Longrightarrow> e = TypeError"
  shows "e = TypeError"
  using assms
  by (auto simp: in_child_def bind_Inl_iff split: option.splits dest: set_named_Inl)

lemma avaliacao_Inl:
  assumes "(if \<not> truthy_opt (get_named j ''avaliacao'')
            then set_named j ''avaliacao'' default_avaliacao
            else in_child j ''avaliacao'' (\<lambda>a. default_if_falsy a ''sugestoes'' (JArr [] []))) = Inl e"
  shows "e = TypeError"
proof (cases "truthy_opt (get_named j ''avaliacao'')")
  case False
  with assms show ?thesis by (auto dest: set_named_Inl)
next
  case True
  with assms have "in_child j ''avaliacao'' (\<lambda>a. default_if_falsy a ''sugestoes'' (JArr [] [])) = Inl e"
    by simp
  then show ?thesis by (rule in_child_Inl) (auto dest: default_if_falsy_Inl)
qed

lemma ensure_jobToBeDone_Inl: "ensure_jobToBeDone n = Inl e \<Longrightarrow> e = TypeError"
proof -
  assume a: "ensure_jobToBeDone n = Inl e"
  show ?thesis
  proof (cases "truthy_opt (get_named n ''jobToBeDone'')")
    case False
    with a show ?thesis by (auto simp: ensure_jobToBeDone_def dest: set_named_Inl)
  next
    case True
    with a have "in_child n ''jobToBeDone'' (\<lambda>j.
        bind (default_if_falsy j ''placeholderExemplo'' (JStr '''')) (\<lambda>j.
          if \<not> truthy_opt (get_named j ''avaliacao'')
          then set_named j ''avaliacao'' default_avaliacao
          else in_child j ''avaliacao'' (\<lambda>a. default_if_falsy a ''sugestoes'' (JArr [] [])))) = Inl e"
      by (simp add: ensure_jobToBeDone_def)
    then show ?thesis
    proof (rule in_child_Inl)
      fix c e'
      assume "bind (default_if_falsy c ''placeholderExemplo'' (JStr '''')) (\<lambda>j.
          if \<not> truthy_opt (get_named j ''avaliacao'')
          then set_named j ''avaliacao'' default_avaliacao
          else in_child j ''avaliacao'' (\<lambda>a. default_if_falsy a ''sugestoes'' (JArr [] []))) = Inl e'"
      then show "e' = TypeError"
        unfolding bind_Inl_iff using default_if_falsy_Inl avaliacao_Inl by blast
    qed
  qed
qed

lemma ensure_tomDeVoz_Inl: "ensure_tomDeVoz n = Inl e \<Longrightarrow> e = TypeError"
proof -
  assume a: "ensure_tomDeVoz n = Inl e"
  show ?thesis
  proof (cases "truthy_opt (get_named n ''tomDeVoz'')")
    case False
    with a show ?thesis by (auto simp: ensure_tomDeVoz_def dest: set_named_Inl)
  next
    case True
    with a have "in_child n ''tomDeVoz'' (\<lambda>t.
        bind (default_if_falsy t ''manter'' (JArr [] [])) (\<lambda>t.
          default_if_falsy t ''mudar'' (JArr [] []))) = Inl e"
      by (simp add: ensure_tomDeVoz_def)
    then show ?thesis
    proof (rule in_child_Inl)
      fix c e'
      assume "bind (default_if_falsy c ''manter'' (JArr [] [])) (\<lambda>t.
          default_if_falsy t ''mudar'' (JArr [] [])) = Inl e'"
      then show "e' = TypeError"
        unfolding bind_Inl_iff using default_if_falsy_Inl by blast
    qed
  qed
qed

text \<open>A section that is a truthy primitive stops the statement that fills it in.\<close>

lemma ensure_jobToBeDone_primitive:
  assumes "get_named n ''jobToBeDone'' = Some v" and "truthy v" and "\<not> is_object v"
  shows "ensure_jobToBeDone n = Inl TypeError"
  using assms primitive_section [OF assms(2,3), of "''placeholderExemplo''" "JStr ''''"]
  by (simp add: ensure_jobToBeDone_def truthy_opt_def in_child_def)

lemma ensure_tomDeVoz_primitive:
  assumes "get_named n ''tomDeVoz'' = Some v" and "truthy v" and "\<not> is_object v"
  shows "ensure_tomDeVoz n = Inl TypeError"
  using assms primitive_section [OF assms(2,3), of "''manter''" "JArr [] []"]
  by (simp add: ensure_tomDeVoz_def truthy_opt_def in_child_def)

lemma ensure_experiencia_primitive:
  assumes "get_named n ''experiencia'' = Some v" and "truthy v" and "\<not> is_object v"
  shows "ensure_experiencia n = Inl TypeError"
  using assms primitive_section [OF assms(2,3), of "''usabilidade''" "JArr [] []"]
  by (simp add: ensure_experiencia_def truthy_opt_def in_child_def)

lemma normalizeV6Data_primitive_section:
  assumes "k \<in> set sections" and "get_named (JObj (spread x)) k = Some v"
    and "truthy v" and "\<not> is_object v"
  shows "normalizeV6Data E x = Inl TypeError"
proof -
  let ?X = "JObj (spread x)"
  obtain n1 where s1: "set_named ?X ''schemaVersion'' (JStr ''v6'') = Inr n1" by simp
  from set_named_is_object [OF s1] obtain n2 where
    s2: "default_if_falsy n1 ''objetivoInferido'' (JStr '''') = Inr n2"
    using default_if_falsy_object by blast
  have f1: "\<And>k. k \<noteq> ''schemaVersion'' \<Longrightarrow> get_named n1 k = get_named ?X k"
    using same_except_set [OF s1] by (simp add: same_except_def)
  have f2: "\<And>k. k \<noteq> ''objetivoInferido'' \<Longrightarrow> get_named n2 k = get_named n1 k"
    using default_if_falsy_Inr [OF s2] by (simp add: same_except_def)
  have start: "normalizeV6Data E x =
     bind (ensure_jobToBeDone n2) (\<lambda>normalized.
     bind (ensure_tomDeVoz normalized) (\<lambda>normalized.
     bind (ensure_experiencia normalized) (\<lambda>normalized.
     bind (ensure_prioridadesTop3 normalized) (\<lambda>normalized.
     bind (cap_prioridadesTop3 E normalized) (\<lambda>normalized.
     bind (fix_range normalized ''pontuacaoGeral'') (\<lambda>normalized.
     bind (fix_nota normalized ''tomDeVoz'') (\<lambda>normalized.
     bind (fix_nota normalized ''experiencia'') (\<lambda>normalized.
       fix_clareza normalized))))))))"
    unfolding normalizeV6Data_def s1 s2 [simplified] by (simp add: s2)
  show ?thesis
  proof (cases "ensure_jobToBeDone n2")
    case (Inl e)
    with ensure_jobToBeDone_Inl [OF Inl] start show ?thesis by simp
  next
    case n3: (Inr n3)
    have f3: "\<And>k. k \<noteq> ''jobToBeDone'' \<Longrightarrow> get_named n3 k = get_named n2 k"
      using ensure_jobToBeDone_Inr [OF n3] by (simp add: same_except_def)
    have k1: "k \<noteq> ''jobToBeDone''"
      using ensure_jobToBeDone_primitive [of n2 v] n3 assms(2,3,4) by (auto simp: f1 f2)
    show ?thesis
    proof (cases "ensure_tomDeVoz n3")
      case (Inl e)
      with ensure_tomDeVoz_Inl [OF Inl] start n3 show ?thesis by simp
    next
      case n4: (Inr n4)
      have f4: "\<And>k. k \<noteq> ''tomDeVoz'' \<Longrightarrow> get_named n4 k = get_named n3 k"
        using ensure_tomDeVoz_Inr [OF n4] by (simp add: same_except_def)
      have k2: "k \<noteq> ''tomDeVoz''"
        using ensure_tomDeVoz_primitive [of n3 v] n4 assms(2,3,4) by (auto simp: f1 f2 f3)
      from assms(1) k1 k2 have k: "k = ''experiencia''" by (simp add: sections_def)
      with assms(2) have "get_named n4 ''experiencia'' = Some v" by (simp add: f1 f2 f3 f4)
      from ensure_experiencia_primitive [OF this assms(3,4)] start n3 n4 show ?thesis by simp
    qed
  qed
qed

section \<open>When the normalizer returns\<close>

lemma object_or_unsetD: "object_or_unset (Some s) \<Longrightarrow> truthy s \<Longrightarrow> is_object s"
  by (simp add: object_or_unset_def)

lemma avaliacao_returns:
  assumes "is_object j" and "object_or_unset (get_named j ''avaliacao'')"
  shows "\<exists>j'. (if \<not> truthy_opt (get_named j ''avaliacao'')
            then set_named j ''avaliacao'' default_avaliacao
            else in_child j ''avaliacao'' (\<lambda>a. default_if_falsy a ''sugestoes'' (JArr [] []))) = Inr j'"
proof (cases "truthy_opt (get_named j ''avaliacao'')")
  case False
  with assms(1) set_named_Inr_iff [of j "''avaliacao''" default_avaliacao] show ?thesis by simp
next
  case True
  then obtain a where a: "get_named j ''avaliacao'' = Some a" "truthy a" by (rule truthy_optE)
  with assms(2) have "is_object a" by (simp add: object_or_unsetD)
  then obtain a' where a': "default_if_falsy a ''sugestoes'' (JArr [] []) = Inr a'"
    using default_if_falsy_object by blast
  have "\<exists>j'. in_child j ''avaliacao'' (\<lambda>a. default_if_falsy a ''sugestoes'' (JArr [] [])) = Inr j'"
    by (rule in_child_returns [OF a(1)], rule a', simp)
  with True show ?thesis by simp
qed

lemma ensure_jobToBeDone_returns:
  assumes "is_object n" and "object_or_unset (get_named n ''jobToBeDone'')"
    and "object_or_unset (child_of (get_named n ''jobToBeDone'') ''avaliacao'')"
  shows "\<exists>n'. ensure_jobToBeDone n = Inr n'"
proof (cases "truthy_opt (get_named n ''jobToBeDone'')")
  case False
  with assms(1) set_named_Inr_iff [of n "''jobToBeDone''" default_jobToBeDone] show ?thesis
    by (simp add: ensure_jobToBeDone_def)
next
  case True
  then obtain j where j: "get_named n ''jobToBeDone'' = Some j" "truthy j" by (rule truthy_optE)
  with assms(2) have oj: "is_object j" by (simp add: object_or_unsetD)
  then obtain j1 where j1: "default_if_falsy j ''placeholderExemplo'' (JStr '''') = Inr j1"
    using default_if_falsy_object by blast
  from default_if_falsy_Inr [OF j1] have 1: "is_object j1" "get_named j1 ''avaliacao'' = get_named j ''avaliacao''"
    by (simp_all add: same_except_def)
  from assms(3) j have "object_or_unset (get_named j ''avaliacao'')" by (simp add: child_of_def)
  with 1 have "object_or_unset (get_named j1 ''avaliacao'')" by simp
  from avaliacao_returns [OF 1(1) this] obtain j' where
    "(if \<not> truthy_opt (get_named j1 ''avaliacao'')
            then set_named j1 ''avaliacao'' default_avaliacao
            else in_child j1 ''avaliacao'' (\<lambda>a. default_if_falsy a ''sugestoes'' (JArr [] []))) = Inr j'" ..
  with j1 have b: "bind (default_if_falsy j ''placeholderExemplo'' (JStr '''')) (\<lambda>j.
          if \<not> truthy_opt (get_named j ''avaliacao'')
          then set_named j ''avaliacao'' default_avaliacao
          else in_child j ''avaliacao'' (\<lambda>a. default_if_falsy a ''sugestoes'' (JArr [] []))) = Inr j'"
    by simp
  have "\<exists>n'. in_child n ''jobToBeDone'' (\<lambda>j.
        bind (default_if_falsy j ''placeholderExemplo'' (JStr '''')) (\<lambda>j.
          if \<not> truthy_opt (get_named j ''avaliacao'')
          then set_named j ''avaliacao'' default_avaliacao
          else in_child j ''avaliacao'' (\<lambda>a. default_if_falsy a ''sugestoes'' (JArr [] [])))) = Inr n'"
    by (rule in_child_returns [OF j(1)], rule b, simp)
  with True show ?thesis by (simp add: ensure_jobToBeDone_def)
qed

lemma ensure_tomDeVoz_returns:
  assumes "is_object n" and "object_or_unset (get_named n ''tomDeVoz'')"
  shows "\<exists>n'. ensure_tomDeVoz n = Inr n'"
proof (cases "truthy_opt (get_named n ''tomDeVoz'')")
  case False
  with assms(1) set_named_Inr_iff [of n "''tomDeVoz''" default_tomDeVoz] show ?thesis
    by (simp add: ensure_tomDeVoz_def)
next
  case True
  then obtain t where t: "get_named n ''tomDeVoz'' = Some t" "truthy t" by (rule truthy_optE)
  with assms(2) have "is_object t" by (simp add: object_or_unsetD)
  then obtain t1 where t1: "default_if_falsy t ''manter'' (JArr [] []) = Inr t1"
    using default_if_falsy_object by blast
  from default_if_falsy_Inr [OF t1] have "is_object t1" by simp
  then obtain t2 where t2: "default_if_falsy t1 ''mudar'' (JArr [] []) = Inr t2"
    using default_if_falsy_object by blast
  with t1 have b: "bind (default_if_falsy t ''manter'' (JArr [] [])) (\<lambda>t.
          default_if_falsy t ''mudar'' (JArr [] [])) = Inr t2" by simp
  have "\<exists>n'. in_child n ''tomDeVoz'' (\<lambda>t.
        bind (default_if_falsy t ''manter'' (JArr [] [])) (\<lambda>t.
          default_if_falsy t ''mudar'' (JArr [] []))) = Inr n'"
    by (rule in_child_returns [OF t(1)], rule b, simp)
  with True show ?thesis by (simp add: ensure_tomDeVoz_def)
qed

lemma ensure_experiencia_returns:
  assumes "is_object n" and "object_or_unset (get_named n ''experiencia'')"
  shows "\<exists>n'. ensure_experiencia n = Inr n'"
proof (cases "truthy_opt (get_named n ''experiencia'')")
  case False
  with assms(1) set_named_Inr_iff [of n "''experiencia''" default_experiencia] show ?thesis
    by (simp add: ensure_experiencia_def)
next
  case True
  then obtain e where e: "get_named n ''experiencia'' = Some e" "truthy e" by (rule truthy_optE)
  with assms(2) have "is_object e" by (simp add: object_or_unsetD)
  then obtain e1 where e1: "default_if_falsy e ''usabilidade'' (JArr [] []) = Inr e1"
    using default_if_falsy_object by blast
  from default_if_falsy_Inr [OF e1] have "is_object e1" by simp
  then obtain e2 where e2: "default_if_falsy e1 ''visual'' (JArr [] []) = Inr e2"
    using default_if_falsy_object by blast
  from default_if_falsy_Inr [OF e2] have "is_object e2" by simp
  then obtain e3 where e3: "default_if_falsy e2 ''acessibilidade'' (JArr [] []) = Inr e3"
    using default_if_falsy_object by blast
  from default_if_falsy_Inr [OF e3] have "is_object e3" by simp
  then obtain e4 where e4: "default_if_falsy e3 ''cta'' default_cta = Inr e4"
    using default_if_falsy_object by blast
  from e1 e2 e3 e4 have b: "bind (default_if_falsy e ''usabilidade'' (JArr [] [])) (\<lambda>e.
        bind (default_if_falsy e ''visual'' (JArr [] [])) (\<lambda>e.
        bind (default_if_falsy e ''acessibilidade'' (JArr [] [])) (\<lambda>e.
          default_if_falsy e ''cta'' default_cta))) = Inr e4" by simp
  have "\<exists>n'. in_child n ''experiencia'' (\<lambda>e.
        bind (default_if_falsy e ''usabilidade'' (JArr [] [])) (\<lambda>e.
        bind (default_if_falsy e ''visual'' (JArr [] [])) (\<lambda>e.
        bind (default_if_falsy e ''acessibilidade'' (JArr [] [])) (\<lambda>e.
          default_if_falsy e ''cta'' default_cta)))) = Inr n'"
    by (rule in_child_returns [OF e(1)], rule b, simp)
  with True show ?thesis by (simp add: ensure_experiencia_def)
qed

lemma ensure_prioridadesTop3_returns: "is_object n \<Longrightarrow> \<exists>n'. ensure_prioridadesTop3 n = Inr n'"
  using set_named_Inr_iff [of n "''prioridadesTop3''" default_prioridadesTop3]
  by (auto simp: ensure_prioridadesTop3_def split: option.splits)

lemma cap_returns:
  assumes "no_own_length (Some p)"
  shows "\<exists>p'. (case get_named p ''length'' of
         None \<Rightarrow> Inr p
       | Some l \<Rightarrow> bind (js_gt E l 3) (\<lambda>longer. if longer then slice3 p else Inr p)) = Inr p'"
  using assms by (cases p) (simp_all add: no_own_length_def js_gt_JNum)

lemma section_or_object: "section_or old d new R \<Longrightarrow> is_object d \<Longrightarrow> is_object new"
  by (auto simp: section_or_def split: option.splits if_splits)

lemma normalizeV6Data_returns:
  assumes "sections_well_typed x"
  shows "\<exists>y. normalizeV6Data E x = Inr y"
proof -
  let ?X = "JObj (spread x)"
  from assms have w:
    "object_or_unset (get_named ?X ''jobToBeDone'')"
    "object_or_unset (child_of (get_named ?X ''jobToBeDone'') ''avaliacao'')"
    "object_or_unset (get_named ?X ''tomDeVoz'')"
    "object_or_unset (get_named ?X ''experiencia'')"
    "object_or_unset (child_of (get_named ?X ''experiencia'') ''cta'')"
    "no_own_length (get_named ?X ''prioridadesTop3'')"
    by (simp_all add: sections_well_typed_def)
  obtain n1 where s1: "set_named ?X ''schemaVersion'' (JStr ''v6'') = Inr n1" by simp
  have f1: "\<And>k. k \<noteq> ''schemaVersion'' \<Longrightarrow> get_named n1 k = get_named ?X k"
    using same_except_set [OF s1] by (simp add: same_except_def)
  from set_named_is_object [OF s1] obtain n2 where
    s2: "default_if_falsy n1 ''objetivoInferido'' (JStr '''') = Inr n2"
    using default_if_falsy_object by blast
  note r2 = default_if_falsy_Inr [OF s2]
  have f2: "\<And>k. k \<noteq> ''objetivoInferido'' \<Longrightarrow> get_named n2 k = get_named n1 k"
    using r2 by (simp add: same_except_def)
  from r2 w(1,2) obtain n3 where s3: "ensure_jobToBeDone n2 = Inr n3"
    using ensure_jobToBeDone_returns [of n2] by (auto simp: f1 f2)
  note r3 = ensure_jobToBeDone_Inr [OF s3]
  have f3: "\<And>k. k \<noteq> ''jobToBeDone'' \<Longrightarrow> get_named n3 k = get_named n2 k"
    using r3 by (simp add: same_except_def)
  from r3 w(3) obtain n4 where s4: "ensure_tomDeVoz n3 = Inr n4"
    using ensure_tomDeVoz_returns [of n3] by (auto simp: f1 f2 f3)
  note r4 = ensure_tomDeVoz_Inr [OF s4]
  have f4: "\<And>k. k \<noteq> ''tomDeVoz'' \<Longrightarrow> get_named n4 k = get_named n3 k"
    using r4 by (simp add: same_except_def)
  from r4 w(4) obtain n5 where s5: "ensure_experiencia n4 = Inr n5"
    using ensure_experiencia_returns [of n4] by (auto simp: f1 f2 f3 f4)
  note r5 = ensure_experiencia_Inr [OF s5]
  have f5: "\<And>k. k \<noteq> ''experiencia'' \<Longrightarrow> get_named n5 k = get_named n4 k"
    using r5 by (simp add: same_except_def)
  from r5 have o5: "is_object n5" by simp
  from ensure_prioridadesTop3_returns [OF o5] obtain n6 where s6: "ensure_prioridadesTop3 n5 = Inr n6" ..
  note r6 = ensure_prioridadesTop3_Inr [OF s6 o5]
  have f6: "\<And>k. k \<noteq> ''prioridadesTop3'' \<Longrightarrow> get_named n6 k = get_named n5 k"
    using r6 by (simp add: same_except_def)
  from r6 obtain p where p: "get_named n6 ''prioridadesTop3'' = Some p"
    and c: "(case get_named n5 ''prioridadesTop3'' of
                  None \<Rightarrow> p = default_prioridadesTop3
                | Some q \<Rightarrow> if \<not> truthy q \<or> get_named q ''length'' = Some (JNum 0)
                            then p = default_prioridadesTop3 else p = q)"
    by blast
  from c w(6) have "no_own_length (Some p)"
    by (auto simp: f1 f2 f3 f4 f5 no_own_length_def default_prioridadesTop3_def
        split: option.splits if_splits)
  from cap_returns [OF this] obtain p' where p':
    "(case get_named p ''length'' of
         None \<Rightarrow> Inr p
       | Some l \<Rightarrow> bind (js_gt E l 3) (\<lambda>longer. if longer then slice3 p else Inr p)) = Inr p'" ..
  have "\<exists>n7. cap_prioridadesTop3 E n6 = Inr n7"
    unfolding cap_prioridadesTop3_def by (rule in_child_returns [OF p], rule p', simp)
  then obtain n7 where s7: "cap_prioridadesTop3 E n6 = Inr n7" ..
  note r7 = cap_prioridadesTop3_Inr [OF s7]
  have f7: "\<And>k. k \<noteq> ''prioridadesTop3'' \<Longrightarrow> get_named n7 k = get_named n6 k"
    using r7 by (simp add: same_except_def)
  from r7 obtain n8 where s8: "fix_range n7 ''pontuacaoGeral'' = Inr n8"
    using fix_range_object by blast
  note r8 = fix_range_Inr [OF s8]
  have f8: "\<And>k. k \<noteq> ''pontuacaoGeral'' \<Longrightarrow> get_named n8 k = get_named n7 k"
    using r8 by (simp add: same_except_def)
  from r4 obtain t1 where t1: "get_named n4 ''tomDeVoz'' = Some t1" "is_object t1"
    by (auto simp: default_tomDeVoz_def dest!: section_or_object)
  then obtain t2 where t2: "fix_range t1 ''nota'' = Inr t2" using fix_range_object by blast
  from t1 have g8: "get_named n8 ''tomDeVoz'' = Some t1" by (simp add: f5 f6 f7 f8)
  have "\<exists>n9. fix_nota n8 ''tomDeVoz'' = Inr n9"
    unfolding fix_nota_def by (rule in_child_returns [OF g8], rule t2, simp)
  then obtain n9 where s9: "fix_nota n8 ''tomDeVoz'' = Inr n9" ..
  note r9 = fix_nota_Inr [OF s9]
  have f9: "\<And>k. k \<noteq> ''tomDeVoz'' \<Longrightarrow> get_named n9 k = get_named n8 k"
    using r9 by (simp add: same_except_def)
  from r5 obtain e1 where e1: "get_named n5 ''experiencia'' = Some e1"
    and so: "section_or (get_named n4 ''experiencia'') default_experiencia e1
                 (\<lambda>e e'. same_except e e' [''usabilidade'', ''visual'', ''acessibilidade'', ''cta'']
                    \<and> kept_or e e' ''usabilidade'' (JArr [] [])
                    \<and> kept_or e e' ''visual'' (JArr [] [])
                    \<and> kept_or e e' ''acessibilidade'' (JArr [] [])
                    \<and> kept_or e e' ''cta'' default_cta)"
    by blast
  from section_or_object [OF so] have oe1: "is_object e1" by (simp add: default_experiencia_def)
  then obtain e2 where e2: "fix_range e1 ''nota'' = Inr e2" using fix_range_object by blast
  from e1 have g9: "get_named n9 ''experiencia'' = Some e1" by (simp add: f6 f7 f8 f9)
  have "\<exists>n10. fix_nota n9 ''experiencia'' = Inr n10"
    unfolding fix_nota_def by (rule in_child_returns [OF g9], rule e2, simp)
  then obtain n10 where s10: "fix_nota n9 ''experiencia'' = Inr n10" ..
  note r10 = fix_nota_Inr [OF s10]
  from r10 g9 e2 have g10: "get_named n10 ''experiencia'' = Some e2" by auto
  from fix_range_Inr [OF e2] have 2: "is_object e2" "get_named e2 ''cta'' = get_named e1 ''cta''"
    by (simp_all add: same_except_def)
  have "\<exists>c. get_named e1 ''cta'' = Some c \<and> is_object c"
    using section_or_split [OF so]
  proof
    assume "e1 = default_experiencia \<and> \<not> truthy_opt (get_named n4 ''experiencia'')"
    then show ?thesis by (simp add: default_experiencia_def default_cta_def)
  next
    assume "\<exists>s. get_named n4 ''experiencia'' = Some s \<and> truthy s \<and> is_object s \<and> is_object e1 \<and>
        (same_except s e1 [''usabilidade'', ''visual'', ''acessibilidade'', ''cta'']
                    \<and> kept_or s e1 ''usabilidade'' (JArr [] [])
                    \<and> kept_or s e1 ''visual'' (JArr [] [])
                    \<and> kept_or s e1 ''acessibilidade'' (JArr [] [])
                    \<and> kept_or s e1 ''cta'' default_cta)"
    then obtain s where s: "get_named n4 ''experiencia'' = Some s" "truthy s"
      "kept_or s e1 ''cta'' default_cta" by blast
    from s(1,2) w(5) have ou: "object_or_unset (get_named s ''cta'')"
      by (simp add: child_of_def f1 f2 f3 f4)
    show ?thesis
    proof (cases "truthy_opt (get_named s ''cta'')")
      case False
      with s(3) show ?thesis by (simp add: kept_or_def default_cta_def)
    next
      case True
      then obtain c where c: "get_named s ''cta'' = Some c" "truthy c" by (rule truthy_optE)
      with ou have "is_object c" by (simp add: object_or_unsetD)
      with True c s(3) show ?thesis by (simp add: kept_or_def)
    qed
  qed
  with 2(2) obtain c where c: "get_named e2 ''cta'' = Some c" "is_object c" by auto
  then obtain c' where c': "fix_range c ''clareza'' = Inr c'" using fix_range_object by blast
  have "\<exists>e3. in_child e2 ''cta'' (\<lambda>c. fix_range c ''clareza'') = Inr e3"
    by (rule in_child_returns [OF c(1)], rule c', simp)
  then obtain e3 where e3: "in_child e2 ''cta'' (\<lambda>c. fix_range c ''clareza'') = Inr e3" ..
  have "\<exists>y. fix_clareza n10 = Inr y"
    unfolding fix_clareza_def by (rule in_child_returns [OF g10], rule e3, simp)
  then obtain y where s11: "fix_clareza n10 = Inr y" ..
  from s1 s2 s3 s4 s5 s6 s7 s8 s9 s10 s11 have "normalizeV6Data E x = Inr y"
    by (simp add: normalizeV6Data_def)
  then show ?thesis ..
qed

section \<open>Claims about the normalizer\<close>

lemmas norm_eval =
  normalizeV6Data_def default_if_falsy_def truthy_opt_def
  ensure_jobToBeDone_def ensure_tomDeVoz_def ensure_experiencia_def ensure_prioridadesTop3_def
  cap_prioridadesTop3_def fix_range_def fix_nota_def fix_clareza_def in_child_def in_range_def
  js_gt_def js_number_def
  default_jobToBeDone_def default_avaliacao_def default_tomDeVoz_def default_experiencia_def
  default_cta_def default_prioridadesTop3_def

lemma example_run: "normalizeV6Data sample_engine example_document = Inr example_normalized"
  by (simp add: norm_eval example_document_def example_normalized_def)

text \<open>
  Claim C3. \<^verbatim>\<open>normalizeV6Data\<close> is idempotent: when it returns \<open>y\<close> for \<open>x\<close>, it
  returns \<open>y\<close> for \<open>y\<close>, the same document with the same properties in the same order.
\<close>

theorem normalizeV6Data_idempotent:
  assumes "normalizeV6Data E x = Inr y"
  shows "normalizeV6Data E y = Inr y"
proof -
  from normalizeV6Data_char(2) [OF assms] obtain p where
    "get_named y ''prioridadesTop3'' = Some p" "capped E p" by blast
  with normalizeV6Data_char(1) [OF assms] show ?thesis by (rule normalized_fixed)
qed

theorem normalizeV6Data_idempotent_witness:
  "normalizeV6Data sample_engine example_document = Inr example_normalized
   \<and> normalizeV6Data sample_engine example_normalized = Inr example_normalized"
  using example_run normalizeV6Data_idempotent [OF example_run] by simp








text \<open>
  Claim C6, as the code has it. The document \<open>y\<close> that \<^verbatim>\<open>normalizeV6Data\<close> returns for
  \<open>x\<close> is a plain object that keeps every property of \<open>x\<close>. A property other than the
  seven that the normalizer assigns keeps its value. \<^verbatim>\<open>schemaVersion\<close> is
  \<^verbatim>\<open>'v6'\<close>. \<^verbatim>\<open>objetivoInferido\<close>, the three sections, \<^verbatim>\<open>placeholderExemplo\<close>,
  \<^verbatim>\<open>avaliacao\<close>, \<^verbatim>\<open>sugestoes\<close>, \<^verbatim>\<open>manter\<close>, \<^verbatim>\<open>mudar\<close>, \<^verbatim>\<open>usabilidade\<close>, \<^verbatim>\<open>visual\<close>,
  \<^verbatim>\<open>acessibilidade\<close> and \<^verbatim>\<open>cta\<close> keep a truthy supplied value (a section also the
  properties that the normalizer does not assign, and its array elements) and
  are replaced by their default when absent or falsy (\<^verbatim>\<open>null\<close>, \<^verbatim>\<open>false\<close>, \<open>0\<close>, the
  empty string). The four numeric fields keep a number in \<open>[0,10]\<close> and are \<open>0\<close>
  otherwise. \<^verbatim>\<open>prioridadesTop3\<close> is the placeholder entry with its fixed text when absent,
  falsy or of length \<open>0\<close>, its first three entries when longer, and unchanged otherwise.
\<close>

theorem normalizeV6Data_frame:
  assumes "normalizeV6Data E x = Inr y"
  shows "normalized_from (JObj (spread x)) y"
  using assms by (rule normalizeV6Data_char(1))

theorem normalizeV6Data_frame_witness:
  "normalizeV6Data sample_engine example_document = Inr example_normalized
   \<and> normalized_from (JObj (spread example_document)) example_normalized"
  using example_run normalizeV6Data_frame [OF example_run] by simp

text \<open>
  The claim as stated fails on a supplied value that is falsy and on an empty list of
  priorities: the supplied \<open>0\<close> of \<^verbatim>\<open>objetivoInferido\<close> does not survive, and the list
  comes back with an entry whose text the normalizer wrote.
\<close>

theorem normalizeV6Data_frame_counterexample:
  "get_path (JObj [(''objetivoInferido'', JNum 0), (''prioridadesTop3'', JArr [] [])]) [''objetivoInferido'']
     = Some (JNum 0)
   \<and> field_of (normalizeV6Data sample_engine
        (JObj [(''objetivoInferido'', JNum 0), (''prioridadesTop3'', JArr [] [])])) [''objetivoInferido'']
     = Some (JStr '''')
   \<and> field_of (normalizeV6Data sample_engine
        (JObj [(''objetivoInferido'', JNum 0), (''prioridadesTop3'', JArr [] [])])) [''prioridadesTop3'']
     = Some (JArr [JObj [(''resumo'', JStr (''Prioridade n'' @ [CHR 0xE3] @ ''o identificada'')),
                 (''motivo'', JStr (''An'' @ [CHR 0xE1] @ ''lise incompleta ou dados insuficientes''))]] [])"
  by (simp add: norm_eval field_of_def)

section \<open>Properties of the prompt builder\<close>

lemma find_first_Some: "find_first pat s = Some (pre, post) \<Longrightarrow> s = pre @ pat @ post"
proof (induction s arbitrary: pre)
  case Nil
  then show ?case by (simp split: if_splits)
next
  case (Cons c cs)
  show ?case
  proof (cases "prefix pat (c # cs)")
    case True
    with Cons.prems show ?thesis by (auto simp: prefix_def)
  next
    case False
    with Cons.prems obtain b where "find_first pat cs = Some (b, post)" "pre = c # b"
      by auto
    with Cons.IH show ?thesis by simp
  qed
qed

lemma substitution_plain: "CHR ''$'' \<notin> set r \<Longrightarrow> substitution m b a r = r"
  by (induction m b a r rule: substitution.induct) auto

text \<open>
  A replacement value without a dollar sign takes the place of the first occurrence of
  the token and the rest of the string stays as it is; a string without the token is
  returned as it is.
\<close>

lemma js_replace_plain:
  "find_first pat s = Some (pre, post) \<Longrightarrow> CHR ''$'' \<notin> set v \<Longrightarrow> js_replace s pat v = pre @ v @ post"
  by (simp add: js_replace_def substitution_plain)

lemma js_replace_absent: "find_first pat s = None \<Longrightarrow> js_replace s pat v = s"
  by (simp add: js_replace_def)

text \<open>
  Claim C9 fails on the code. A supplied value that contains \<^verbatim>\<open>$$\<close> is not inserted as
  it is: for the template \<^verbatim>\<open>Contexto: {{CONTEXT}}\<close> and the context \<^verbatim>\<open>planos $$$\<close> the
  prompt is \<^verbatim>\<open>Contexto: planos $$\<close>.
\<close>

theorem buildPrompt_dollar:
  "buildPrompt sample_engine
     \<lparr>system_prompt = '''', prompt_template = ''Contexto: {{CONTEXT}}''\<rparr>
     \<lparr>voice_principles = ''v'', rules = ''r''\<rparr>
     (JObj [(''context'', JStr ''planos $$$''), (''jtbd'', JStr ''j''), (''image'', JStr ''i'')])
   = Inr ''Contexto: planos $$''"
  by (simp add: buildPrompt_def js_string_def js_replace_def)

section \<open>Properties of the orchestrator\<close>

lemmas io_eval = io_return_def io_throw_def io_lift_def io_bind_def io_catch_def io_finally_def
  sendSSEMessage_def closeWriter_def sendErrorResponse_def sendProgressUpdate_def sendResult_def
  closed_def required_row_def

lemma progress_not_closed: "list_all is_progress ps \<Longrightarrow> closed (w @ ps) = closed w"
proof -
  assume "list_all is_progress ps"
  then have "Close \<notin> set ps" by (induction ps) auto
  then show ?thesis by (simp add: closed_def)
qed

lemma only_progress_send: "only_progress (sendProgressUpdate step msg)"
  unfolding only_progress_def
proof (intro allI impI)
  fix w assume "\<not> closed w"
  then have "list_all is_progress [Write \<lparr>type = ''progress'', data = Progress step msg\<rparr>]
    \<and> snd (sendProgressUpdate step msg w) = w @ [Write \<lparr>type = ''progress'', data = Progress step msg\<rparr>]"
    by (simp add: sendProgressUpdate_def sendSSEMessage_def)
  then show "\<exists>ps. list_all is_progress ps \<and> snd (sendProgressUpdate step msg w) = w @ ps" by blast
qed

lemma only_progress_silent:
  "only_progress (io_lift r)" "only_progress (io_throw e)" "only_progress (io_return a)"
  by (auto simp: only_progress_def io_lift_def io_throw_def io_return_def intro: exI [of _ "[]"])

lemma only_progress_row: "only_progress (required_row r msg)"
  by (auto simp: required_row_def only_progress_silent split: query.splits option.splits bool.splits)

lemma only_progress_if: "only_progress a \<Longrightarrow> only_progress b \<Longrightarrow> only_progress (if c then a else b)"
  by simp

lemma only_progress_bind:
  assumes "only_progress m" and "\<And>a. only_progress (f a)"
  shows "only_progress (io_bind m f)"
  unfolding only_progress_def
proof (intro allI impI)
  fix w :: writer assume w: "\<not> closed w"
  with assms(1) obtain ps where ps: "list_all is_progress ps" "snd (m w) = w @ ps"
    by (auto simp: only_progress_def)
  show "\<exists>ps. list_all is_progress ps \<and> snd (io_bind m f w) = w @ ps"
  proof (cases "fst (m w)")
    case (Inl e)
    with ps have "snd (io_bind m f w) = w @ ps"
      by (cases "m w") (simp add: io_bind_def)
    with ps(1) show ?thesis by blast
  next
    case (Inr a)
    from w ps(1) have "\<not> closed (w @ ps)" by (simp add: progress_not_closed)
    with assms(2) [of a] obtain qs where qs: "list_all is_progress qs" "snd (f a (w @ ps)) = w @ ps @ qs"
      by (auto simp: only_progress_def)
    from Inr ps(2) have "io_bind m f w = f a (w @ ps)"
      by (cases "m w") (simp add: io_bind_def)
    with qs ps(1) have "list_all is_progress (ps @ qs) \<and> snd (io_bind m f w) = w @ (ps @ qs)" by simp
    then show ?thesis by blast
  qed
qed

lemma io_bind_Inl: "fst (m w) = Inl e \<Longrightarrow> io_bind m f w = (Inl e, snd (m w))"
  by (cases "m w") (simp add: io_bind_def)

lemma io_bind_Inr: "fst (m w) = Inr a \<Longrightarrow> io_bind m f w = f a (snd (m w))"
  by (cases "m w") (simp add: io_bind_def)

lemma ends_stream_bind:
  assumes "only_progress m" and "\<And>a. ends_stream (f a)"
  shows "ends_stream (io_bind m f)"
  unfolding ends_stream_def
proof (intro allI impI)
  fix w :: writer assume w: "\<not> closed w"
  with assms(1) obtain ps where ps: "list_all is_progress ps" "snd (m w) = w @ ps"
    by (auto simp: only_progress_def)
  show "\<exists>ps. list_all is_progress ps \<and>
        (case fst (io_bind m f w) of
           Inl e \<Rightarrow> snd (io_bind m f w) = w @ ps
         | Inr a \<Rightarrow> \<exists>t cs. is_terminal t \<and> (cs = [] \<or> cs = [Close]) \<and> snd (io_bind m f w) = w @ ps @ [t] @ cs)"
  proof (cases "fst (m w)")
    case (Inl e)
    from io_bind_Inl [where m = m and w = w and f = f, OF Inl] ps have "list_all is_progress ps \<and>
        (case fst (io_bind m f w) of
           Inl e \<Rightarrow> snd (io_bind m f w) = w @ ps
         | Inr a \<Rightarrow> \<exists>t cs. is_terminal t \<and> (cs = [] \<or> cs = [Close]) \<and> snd (io_bind m f w) = w @ ps @ [t] @ cs)"
      by simp
    then show ?thesis by blast
  next
    case (Inr a)
    from w ps(1) have "\<not> closed (w @ ps)" by (simp add: progress_not_closed)
    with assms(2) [of a] obtain qs where qs: "list_all is_progress qs"
      "(case fst (f a (w @ ps)) of
           Inl e \<Rightarrow> snd (f a (w @ ps)) = (w @ ps) @ qs
         | Inr b \<Rightarrow> \<exists>t cs. is_terminal t \<and> (cs = [] \<or> cs = [Close]) \<and> snd (f a (w @ ps)) = (w @ ps) @ qs @ [t] @ cs)"
      unfolding ends_stream_def by blast
    from io_bind_Inr [where m = m and w = w and f = f, OF Inr] ps(2) have eq: "io_bind m f w = f a (w @ ps)" by simp
    from ps(1) qs(1) have pq: "list_all is_progress (ps @ qs)" by simp
    from qs(2) have "(case fst (io_bind m f w) of
           Inl e \<Rightarrow> snd (io_bind m f w) = w @ (ps @ qs)
         | Inr a \<Rightarrow> \<exists>t cs. is_terminal t \<and> (cs = [] \<or> cs = [Close]) \<and> snd (io_bind m f w) = w @ (ps @ qs) @ [t] @ cs)"
      unfolding eq by (cases "fst (f a (w @ ps))") simp_all
    with pq show ?thesis by blast
  qed
qed

lemma ends_stream_if: "ends_stream a \<Longrightarrow> ends_stream b \<Longrightarrow> ends_stream (if c then a else b)"
  by simp

lemma sendErrorResponse_open:
  "\<not> closed w \<Longrightarrow> sendErrorResponse err w = (Inr (), w @ [Write \<lparr>type = ''error'', data = Failure err\<rparr>, Close])"
  by (simp add: io_eval)

lemma sendResult_open:
  "\<not> closed w \<Longrightarrow> sendResult r w = (Inr (), w @ [Write \<lparr>type = ''result'', data = Result r\<rparr>])"
  by (simp add: io_eval)

lemma completes_sendErrorResponse: "completes (sendErrorResponse err)"
  unfolding completes_def
proof (intro allI impI)
  fix w assume "\<not> closed w"
  then have "list_all is_progress [] \<and> is_terminal (Write \<lparr>type = ''error'', data = Failure err\<rparr>)
      \<and> ([Close] = [] \<or> [Close] = [Close])
      \<and> sendErrorResponse err w = (Inr (), w @ [] @ [Write \<lparr>type = ''error'', data = Failure err\<rparr>] @ [Close])"
    by (simp add: sendErrorResponse_open)
  then show "\<exists>ps t cs. list_all is_progress ps \<and> is_terminal t \<and> (cs = [] \<or> cs = [Close])
      \<and> sendErrorResponse err w = (Inr (), w @ ps @ [t] @ cs)" by blast
qed

lemma completes_sendResult: "completes (sendResult r)"
  unfolding completes_def
proof (intro allI impI)
  fix w assume "\<not> closed w"
  then have "list_all is_progress [] \<and> is_terminal (Write \<lparr>type = ''result'', data = Result r\<rparr>)
      \<and> ([] = [] \<or> [] = [Close])
      \<and> sendResult r w = (Inr (), w @ [] @ [Write \<lparr>type = ''result'', data = Result r\<rparr>] @ [])"
    by (simp add: sendResult_open)
  then show "\<exists>ps t cs. list_all is_progress ps \<and> is_terminal t \<and> (cs = [] \<or> cs = [Close])
      \<and> sendResult r w = (Inr (), w @ ps @ [t] @ cs)" by blast
qed

lemma completes_ends_stream: "completes m \<Longrightarrow> ends_stream m"
  unfolding completes_def ends_stream_def
proof (intro allI impI)
  fix w assume "\<forall>w. \<not> closed w \<longrightarrow> (\<exists>ps t cs. list_all is_progress ps \<and> is_terminal t
        \<and> (cs = [] \<or> cs = [Close]) \<and> m w = (Inr (), w @ ps @ [t] @ cs))" and "\<not> closed w"
  then obtain ps t cs where *: "list_all is_progress ps" "is_terminal t" "cs = [] \<or> cs = [Close]"
    "m w = (Inr (), w @ ps @ [t] @ cs)" by blast
  then have "(case fst (m w) of
           Inl e \<Rightarrow> snd (m w) = w @ ps
         | Inr a \<Rightarrow> \<exists>t cs. is_terminal t \<and> (cs = [] \<or> cs = [Close]) \<and> snd (m w) = w @ ps @ [t] @ cs)"
    by simp
  with *(1) show "\<exists>ps. list_all is_progress ps \<and>
        (case fst (m w) of
           Inl e \<Rightarrow> snd (m w) = w @ ps
         | Inr a \<Rightarrow> \<exists>t cs. is_terminal t \<and> (cs = [] \<or> cs = [Close]) \<and> snd (m w) = w @ ps @ [t] @ cs)"
    by blast
qed

text \<open>A handler that sends the error response turns the exception into the terminal event.\<close>

lemma completes_catch:
  assumes "ends_stream m"
  shows "completes (io_catch m (\<lambda>e. sendErrorResponse (h e)))"
  unfolding completes_def
proof (intro allI impI)
  fix w :: writer assume w: "\<not> closed w"
  with assms obtain ps where ps: "list_all is_progress ps"
    "(case fst (m w) of
           Inl e \<Rightarrow> snd (m w) = w @ ps
         | Inr a \<Rightarrow> \<exists>t cs. is_terminal t \<and> (cs = [] \<or> cs = [Close]) \<and> snd (m w) = w @ ps @ [t] @ cs)"
    unfolding ends_stream_def by blast
  show "\<exists>ps t cs. list_all is_progress ps \<and> is_terminal t \<and> (cs = [] \<or> cs = [Close])
      \<and> io_catch m (\<lambda>e. sendErrorResponse (h e)) w = (Inr (), w @ ps @ [t] @ cs)"
  proof (cases "fst (m w)")
    case (Inl e)
    with ps(2) have mw: "m w = (Inl e, w @ ps)" by (cases "m w") simp
    from w ps(1) have "\<not> closed (w @ ps)" by (simp add: progress_not_closed)
    with mw have "io_catch m (\<lambda>e. sendErrorResponse (h e)) w
        = (Inr (), w @ ps @ [Write \<lparr>type = ''error'', data = Failure (h e)\<rparr>] @ [Close])"
      by (simp add: io_catch_def sendErrorResponse_open)
    moreover have "is_terminal (Write \<lparr>type = ''error'', data = Failure (h e)\<rparr>)" by simp
    ultimately show ?thesis using ps(1) by blast
  next
    case (Inr a)
    with ps(2) obtain t cs where tc: "is_terminal t" "cs = [] \<or> cs = [Close]" "snd (m w) = w @ ps @ [t] @ cs"
      by auto
    from Inr tc(3) have "m w = (Inr a, w @ ps @ [t] @ cs)" by (cases "m w") simp
    then have "io_catch m (\<lambda>e. sendErrorResponse (h e)) w = (Inr (), w @ ps @ [t] @ cs)"
      by (simp add: io_catch_def)
    with ps(1) tc(1,2) show ?thesis by blast
  qed
qed

lemma ends_stream_sendErrorResponse: "ends_stream (sendErrorResponse err)"
  by (rule completes_ends_stream) (rule completes_sendErrorResponse)

lemma ends_stream_sendResult: "ends_stream (sendResult r)"
  by (rule completes_ends_stream) (rule completes_sendResult)

lemma processAnalysis_completes: "completes (processAnalysis E S requestBody)"
  unfolding processAnalysis_def
  by (intro completes_catch ends_stream_bind ends_stream_if
      ends_stream_sendErrorResponse ends_stream_sendResult
      only_progress_send only_progress_silent only_progress_row only_progress_if)

lemma ends_stream_processAnalysis: "ends_stream (processAnalysis E S requestBody)"
  by (rule completes_ends_stream) (rule processAnalysis_completes)

lemma completes_empty:
  assumes "completes m"
  shows "\<exists>ps t cs. list_all is_progress ps \<and> is_terminal t \<and> (cs = [] \<or> cs = [Close])
      \<and> m [] = (Inr (), ps @ [t] @ cs)"
proof -
  have "\<not> closed []" by (simp add: closed_def)
  with assms show ?thesis unfolding completes_def by (metis append_Nil)
qed

lemma processRequest_trace:
  "\<exists>ps t cs. list_all is_progress ps \<and> is_terminal t \<and> (cs = [] \<or> cs = [Close])
      \<and> processRequest E S req [] = (Inr (), ps @ [t] @ cs @ [Close])"
proof -
  have "completes (io_catch
        (io_bind (sendProgressUpdate ''inicializando'' (''Iniciando an'' @ [a_acute] @ ''lise...'')) (\<lambda>u.
         io_bind (io_lift (createClients S)) (\<lambda>u.
         io_bind (io_lift (json_body req)) (\<lambda>requestBody.
         io_bind (io_lift (missing_parameters requestBody)) (\<lambda>missing.
           if missing then sendErrorResponse missing_parameters_error
           else processAnalysis E S requestBody)))))
        (\<lambda>e. sendErrorResponse (internal_error S e)))"
    by (intro completes_catch ends_stream_bind ends_stream_if
      ends_stream_sendErrorResponse ends_stream_processAnalysis
      only_progress_send only_progress_silent)
  from completes_empty [OF this] obtain ps t cs where
    "list_all is_progress ps" "is_terminal t" "cs = [] \<or> cs = [Close]"
    "io_catch
        (io_bind (sendProgressUpdate ''inicializando'' (''Iniciando an'' @ [a_acute] @ ''lise...'')) (\<lambda>u.
         io_bind (io_lift (createClients S)) (\<lambda>u.
         io_bind (io_lift (json_body req)) (\<lambda>requestBody.
         io_bind (io_lift (missing_parameters requestBody)) (\<lambda>missing.
           if missing then sendErrorResponse missing_parameters_error
           else processAnalysis E S requestBody)))))
        (\<lambda>e. sendErrorResponse (internal_error S e)) [] = (Inr (), ps @ [t] @ cs)"
    by blast
  then have "list_all is_progress ps \<and> is_terminal t \<and> (cs = [] \<or> cs = [Close])
      \<and> processRequest E S req [] = (Inr (), ps @ [t] @ cs @ [Close])"
    by (simp add: processRequest_def io_finally_def closeWriter_def)
  then show ?thesis by blast
qed

lemma terminal_not_progress: "is_terminal t \<Longrightarrow> \<not> is_progress t"
  by (cases t) auto

lemma stream_protocol_shape:
  assumes "list_all is_progress ps" and "is_terminal t" and "cs = [] \<or> cs = [Close]"
  shows "stream_protocol (ps @ [t] @ cs @ [Close])"
proof -
  from assms(1) have "\<forall>a\<in>set ps. is_progress a" by (simp add: list_all_iff)
  with terminal_not_progress [OF assms(2)]
  have "dropWhile is_progress (ps @ [t] @ cs @ [Close]) = t # cs @ [Close]"
    by (simp add: dropWhile_append)
  with assms(2,3) show ?thesis by (auto simp: stream_protocol_def)
qed

text \<open>What \<^verbatim>\<open>processAnalysis\<close> does once the text of the model has been parsed.\<close>

lemma closed_append_progress: "closed (w @ analysis_progress) = closed w"
  by (simp add: closed_def analysis_progress_def)

lemma processAnalysis_after_parse:
  assumes "reaches_document E S requestBody document" and "\<not> closed w"
  shows "processAnalysis E S requestBody w =
     io_catch
       (io_bind (io_lift (normalizeV6Data E document)) (\<lambda>normalizedData.
        io_bind (io_lift (validateJsonSchema E normalizedData ANALYSIS_SCHEMA)) (\<lambda>validation.
          if \<not> valid validation then sendErrorResponse (schema_violation (errors validation))
          else sendResult normalizedData)))
       (\<lambda>e. sendErrorResponse (analysis_error S e))
       (w @ analysis_progress)"
proof -
  from assms(1) obtain aiConfig brandManual finalPrompt imageContent completion where h:
    "getAIConfig S = Inr (Query (Some aiConfig) False)"
    "getBrandManual S = Inr (Query (Some brandManual) False)"
    "buildPrompt E aiConfig brandManual requestBody = Inr finalPrompt"
    "prepareImageContent E (get_named requestBody ''image'') (get_named requestBody ''imageType'')
          = Inr imageContent"
    "createCompletion S
           (buildCompletionParams ANALYSIS_SCHEMA (system_prompt aiConfig) finalPrompt imageContent)
          = Inr completion"
    "extractAnalysisResult completion \<noteq> []"
    "JSON_parse E (extractAnalysisResult completion) = Inr document"
    unfolding reaches_document_def by blast
  from assms(2) show ?thesis
    unfolding processAnalysis_def
    by (simp add: h io_return_def io_throw_def io_lift_def io_bind_def io_catch_def
        sendSSEMessage_def sendProgressUpdate_def closed_def required_row_def analysis_progress_def)
qed

lemma validateJsonSchema_Inr:
  "validateJsonSchema E d s = Inr v \<Longrightarrow> validate E d s ''root'' = Inr (errors v) \<and> valid v = (errors v = [])"
  by (auto simp: validateJsonSchema_def bind_Inr_iff)

text \<open>
  Claim C1. When the text of the model parses to a document whose normalization
  returns and whose validation against \<^verbatim>\<open>ANALYSIS_SCHEMA\<close> returns a list of errors that
  is not empty, \<^verbatim>\<open>processAnalysis\<close> writes, after its five progress events, one error event
  and closes the writer: the payload has the code \<^verbatim>\<open>LLM_SCHEMA_VIOLATION\<close> and its
  \<^verbatim>\<open>details.errors\<close> is the whole list that \<^verbatim>\<open>validate\<close> returned, in its order. No
  result event is written.
\<close>

theorem schema_violation_reported:
  assumes "reaches_document E S requestBody document"
    and "normalizeV6Data E document = Inr normalizedData"
    and "validateJsonSchema E normalizedData ANALYSIS_SCHEMA = Inr validation"
    and "errors validation \<noteq> []"
    and "\<not> closed w"
  shows "processAnalysis E S requestBody w =
           (Inr (), w @ analysis_progress
              @ [Write \<lparr>type = ''error'', data = Failure (schema_violation (errors validation))\<rparr>, Close])
       \<and> code (schema_violation (errors validation)) = Some ''LLM_SCHEMA_VIOLATION''
       \<and> details (schema_violation (errors validation)) = Some (errors validation)
       \<and> validate E normalizedData ANALYSIS_SCHEMA ''root'' = Inr (errors validation)"
proof -
  from validateJsonSchema_Inr [OF assms(3)] assms(4) have v: "\<not> valid validation"
    "validate E normalizedData ANALYSIS_SCHEMA ''root'' = Inr (errors validation)" by simp_all
  from assms(5) have "\<not> closed (w @ analysis_progress)" by (simp add: closed_append_progress)
  with v show ?thesis
    unfolding processAnalysis_after_parse [OF assms(1,5)]
    by (simp add: assms(2,3) io_lift_def io_bind_def io_catch_def sendErrorResponse_open
        schema_violation_def)
qed

lemma sample_reaches:
  "reaches_document sample_engine (sample_services violating_text) sample_body violating_document"
  unfolding reaches_document_def
  by (intro exI [of _ "\<lparr>system_prompt = ''s'', prompt_template = ''{{CONTEXT}}''\<rparr>"]
        exI [of _ "\<lparr>voice_principles = ''v'', rules = ''r''\<rparr>"]
        exI [of _ "''c''"] exI [of _ "\<lparr>url = Some (JStr ''http://i'')\<rparr>"]
        exI [of _ "[Some violating_text]"])
     (simp add: sample_services_def sample_body_def sample_engine_def buildPrompt_def js_string_def
        js_replace_def prepareImageContent_def extractAnalysisResult_def violating_text_def)

lemma violating_normalized:
  "normalizeV6Data sample_engine violating_document =
     Inr (JObj [(''tomDeVoz'', JObj [(''manter'', JStr ''x''), (''mudar'', JArr [] []), (''nota'', JNum 0)]),
                (''schemaVersion'', JStr ''v6''), (''objetivoInferido'', JStr ''''),
                (''jobToBeDone'', default_jobToBeDone), (''experiencia'', default_experiencia),
                (''prioridadesTop3'', default_prioridadesTop3), (''pontuacaoGeral'', JNum 0)])"
  by (simp add: norm_eval violating_document_def)

lemma violating_validated:
  "validateJsonSchema sample_engine
     (JObj [(''tomDeVoz'', JObj [(''manter'', JStr ''x''), (''mudar'', JArr [] []), (''nota'', JNum 0)]),
            (''schemaVersion'', JStr ''v6''), (''objetivoInferido'', JStr ''''),
            (''jobToBeDone'', default_jobToBeDone), (''experiencia'', default_experiencia),
            (''prioridadesTop3'', default_prioridadesTop3), (''pontuacaoGeral'', JNum 0)])
     ANALYSIS_SCHEMA
   = Inr \<lparr>valid = False,
          errors = [\<lparr>message = ''Expected array at root.tomDeVoz.manter'', path = ''root.tomDeVoz.manter''\<rparr>]\<rparr>"
  by (simp add: validateJsonSchema_def ANALYSIS_SCHEMA_def score_def change_item_def string_or_null_def
      missing_required_def js_in_def js_lt_def js_gt_def js_number_def type_matches_def
      default_jobToBeDone_def default_avaliacao_def default_experiencia_def default_cta_def
      default_prioridadesTop3_def show_nat.simps digit_def)

theorem schema_violation_reported_witness:
  "processAnalysis sample_engine (sample_services violating_text) sample_body [] =
     (Inr (), analysis_progress
        @ [Write \<lparr>type = ''error'',
                  data = Failure (schema_violation
                    [\<lparr>message = ''Expected array at root.tomDeVoz.manter'', path = ''root.tomDeVoz.manter''\<rparr>])\<rparr>,
           Close])"
proof -
  have "\<not> closed []" by (simp add: closed_def)
  from schema_violation_reported [OF sample_reaches violating_normalized violating_validated _ this]
  show ?thesis by simp
qed

text \<open>
  Claim C10, as the code has it. A document in which \<^verbatim>\<open>jobToBeDone\<close>, \<^verbatim>\<open>tomDeVoz\<close> or
  \<^verbatim>\<open>experiencia\<close> is a truthy primitive makes \<^verbatim>\<open>normalizeV6Data\<close> throw a
  \<^verbatim>\<open>TypeError\<close>. It returns whenever these three sections, \<^verbatim>\<open>jobToBeDone.avaliacao\<close> and
  \<^verbatim>\<open>experiencia.cta\<close> are absent, falsy or objects and \<^verbatim>\<open>prioridadesTop3\<close> is not a plain
  object with a \<^verbatim>\<open>length\<close> of its own. When it throws on the parsed document,
  \<^verbatim>\<open>processAnalysis\<close> writes the error event of its \<^verbatim>\<open>catch\<close>, which carries no code, and
  closes the writer.
\<close>

theorem primitive_section_throws:
  "(\<forall>k v. k \<in> set sections \<and> get_named (JObj (spread x)) k = Some v \<and> truthy v \<and> \<not> is_object v
        \<longrightarrow> normalizeV6Data E x = Inl TypeError)
   \<and> (sections_well_typed x \<longrightarrow> (\<exists>y. normalizeV6Data E x = Inr y))
   \<and> (reaches_document E S requestBody x \<and> normalizeV6Data E x = Inl e \<and> \<not> closed w
        \<longrightarrow> processAnalysis E S requestBody w =
             (Inr (), w @ analysis_progress
                @ [Write \<lparr>type = ''error'', data = Failure (analysis_error S e)\<rparr>, Close])
           \<and> code (analysis_error S e) = None)"
proof (intro conjI allI impI)
  fix k v
  assume "k \<in> set sections \<and> get_named (JObj (spread x)) k = Some v \<and> truthy v \<and> \<not> is_object v"
  then show "normalizeV6Data E x = Inl TypeError"
    using normalizeV6Data_primitive_section [of k x v E] by blast
next
  assume "sections_well_typed x"
  then show "\<exists>y. normalizeV6Data E x = Inr y" by (rule normalizeV6Data_returns)
next
  assume a: "reaches_document E S requestBody x \<and> normalizeV6Data E x = Inl e \<and> \<not> closed w"
  then have r: "reaches_document E S requestBody x" and n: "normalizeV6Data E x = Inl e"
    and w: "\<not> closed w" by blast+
  from w have o: "\<not> closed (w @ analysis_progress)" by (simp add: closed_append_progress)
  show "processAnalysis E S requestBody w =
             (Inr (), w @ analysis_progress
                @ [Write \<lparr>type = ''error'', data = Failure (analysis_error S e)\<rparr>, Close])"
    unfolding processAnalysis_after_parse [OF r w]
    by (simp add: n io_lift_def io_bind_def io_catch_def sendErrorResponse_open [OF o])
next
  show "code (analysis_error S e) = None" by (simp add: analysis_error_def)
qed

lemma primitive_reaches:
  "reaches_document sample_engine (sample_services primitive_text) sample_body primitive_document"
  unfolding reaches_document_def
  by (intro exI [of _ "\<lparr>system_prompt = ''s'', prompt_template = ''{{CONTEXT}}''\<rparr>"]
        exI [of _ "\<lparr>voice_principles = ''v'', rules = ''r''\<rparr>"]
        exI [of _ "''c''"] exI [of _ "\<lparr>url = Some (JStr ''http://i'')\<rparr>"]
        exI [of _ "[Some primitive_text]"])
     (simp add: sample_services_def sample_body_def sample_engine_def buildPrompt_def js_string_def
        js_replace_def prepareImageContent_def extractAnalysisResult_def violating_text_def
        primitive_text_def)

theorem primitive_section_throws_witness:
  "normalizeV6Data sample_engine primitive_document = Inl TypeError
   \<and> sections_well_typed example_document
   \<and> normalizeV6Data sample_engine example_document = Inr example_normalized
   \<and> processAnalysis sample_engine (sample_services primitive_text) sample_body [] =
        (Inr (), analysis_progress
           @ [Write \<lparr>type = ''error'',
                     data = Failure (analysis_error (sample_services primitive_text) TypeError)\<rparr>, Close])"
proof -
  note t = primitive_section_throws [of primitive_document sample_engine
      "sample_services primitive_text" sample_body TypeError "[]"]
  have 1: "''jobToBeDone'' \<in> set sections \<and> get_named (JObj (spread primitive_document)) ''jobToBeDone''
      = Some (JStr ''x'') \<and> truthy (JStr ''x'') \<and> \<not> is_object (JStr ''x'')"
    by (simp add: sections_def primitive_document_def)
  with t have 2: "normalizeV6Data sample_engine primitive_document = Inl TypeError" by blast
  have 3: "\<not> closed []" by (simp add: closed_def)
  from t primitive_reaches 2 3 have 4:
    "processAnalysis sample_engine (sample_services primitive_text) sample_body [] =
        (Inr (), [] @ analysis_progress
           @ [Write \<lparr>type = ''error'',
                     data = Failure (analysis_error (sample_services primitive_text) TypeError)\<rparr>, Close])"
    by blast
  have 5: "sections_well_typed example_document"
    by (simp add: sections_well_typed_def example_document_def object_or_unset_def child_of_def
        no_own_length_def)
  from 2 4 5 example_run show ?thesis by simp
qed

text \<open>
  The claim as stated fails on a section that is an object with a primitive inside:
  \<^verbatim>\<open>{"jobToBeDone": {"avaliacao": "x"}}\<close> has every section absent or an object, and the
  normalizer throws on line 124.
\<close>

theorem primitive_section_throws_counterexample:
  "normalizeV6Data sample_engine (JObj [(''jobToBeDone'', JObj [(''avaliacao'', JStr ''x'')])])
     = Inl TypeError"
  by (simp add: norm_eval)

text \<open>
  Claim C2, as the code has it. For a POST request whose body is not \<^verbatim>\<open>null\<close> and lacks a
  truthy \<^verbatim>\<open>context\<close>, \<^verbatim>\<open>jtbd\<close> or \<^verbatim>\<open>image\<close>, \<^verbatim>\<open>handleRequest\<close> answers with the event
  stream and \<^verbatim>\<open>processRequest\<close> writes to it the progress event \<^verbatim>\<open>inicializando\<close>, then
  the error event for the missing parameters, and closes it. The handler before
  streaming is the one that returns the JSON response with status 400, when \<^verbatim>\<open>context\<close>
  or \<^verbatim>\<open>image\<close> is missing.
\<close>

theorem missing_field_reported_in_stream:
  assumes "http_method req = ''POST''" and "createClients S = Inr ()"
    and "json_body req = Inr requestBody" and "missing_parameters requestBody = Inr True"
  shows "handleRequest E S req =
           (EventStream,
            [request_progress, Write \<lparr>type = ''error'', data = Failure missing_parameters_error\<rparr>,
             Close, Close])
       \<and> (\<not> truthy_opt (get_named requestBody ''context'') \<or> \<not> truthy_opt (get_named requestBody ''image'')
            \<longrightarrow> legacy_serve_check S req = Some legacy_bad_request)"
proof -
  from assms(4) have "requestBody \<noteq> JNull"
    by (auto simp: missing_parameters_def)
  with assms show ?thesis
    by (cases requestBody)
      (simp_all add: handleRequest_def processRequest_def legacy_serve_check_def request_progress_def
        io_eval)
qed

theorem missing_field_reported_in_stream_witness:
  "handleRequest sample_engine (sample_services [])
     \<lparr>http_method = ''POST'', json_body = Inr (JObj [(''context'', JStr ''c''), (''image'', JStr ''http://i'')])\<rparr>
   = (EventStream,
      [request_progress, Write \<lparr>type = ''error'', data = Failure missing_parameters_error\<rparr>,
       Close, Close])"
proof -
  have "missing_parameters (JObj [(''context'', JStr ''c''), (''image'', JStr ''http://i'')]) = Inr True"
    by (simp add: missing_parameters_def truthy_opt_def)
  from missing_field_reported_in_stream [of "\<lparr>http_method = ''POST'', json_body = Inr (JObj [(''context'', JStr ''c''), (''image'', JStr ''http://i'')])\<rparr>"
      "sample_services []" _ sample_engine, OF _ _ _ this]
  show ?thesis by (simp add: sample_services_def truthy_opt_def)
qed

text \<open>
  The claim as stated fails on the streaming handler: for a body without \<^verbatim>\<open>image\<close> the
  response is the event stream, not a JSON error, and a progress event is written
  before the error event.
\<close>

theorem missing_field_reported_in_stream_counterexample:
  "fst (handleRequest sample_engine (sample_services [])
     \<lparr>http_method = ''POST'', json_body = Inr (JObj [(''context'', JStr ''c''), (''jtbd'', JStr ''j'')])\<rparr>)
     = EventStream
   \<and> list_ex is_progress (snd (handleRequest sample_engine (sample_services [])
     \<lparr>http_method = ''POST'', json_body = Inr (JObj [(''context'', JStr ''c''), (''jtbd'', JStr ''j'')])\<rparr>))"
  by (simp add: handleRequest_def processRequest_def missing_parameters_def truthy_opt_def
      sample_services_def io_eval)

section \<open>Properties of the lifecycles\<close>

text \<open>
  When the consumer keeps reading and every awaited call settles, the functions of a
  lifecycle are the functions of the orchestrator.
\<close>

lemma lifted_return: "task_return a = lifted (io_return a)"
  by (rule ext) (simp add: lifted_def task_return_def io_return_def settled_def)

lemma lifted_throw: "task_throw e = lifted (io_throw e)"
  by (rule ext) (simp add: lifted_def task_throw_def io_throw_def settled_def)

lemma lifted_lift: "task_lift r = lifted (io_lift r)"
  by (rule ext) (simp add: lifted_def task_lift_def io_lift_def)

lemma lifted_awaited: "settles L c \<Longrightarrow> awaited L c r = lifted (io_lift r)"
  by (rule ext) (simp add: lifted_def awaited_def io_lift_def)

lemma lifted_bind: "task_bind (lifted m) (\<lambda>a. lifted (f a)) = lifted (io_bind m f)"
  by (rule ext) (simp add: lifted_def task_bind_def io_bind_def settled_def split: prod.splits sum.splits)

lemma lifted_catch: "task_catch (lifted m) (\<lambda>e. lifted (h e)) = lifted (io_catch m h)"
  by (rule ext) (simp add: lifted_def task_catch_def io_catch_def settled_def split: prod.splits sum.splits)

lemma lifted_finally: "task_finally (lifted m) (lifted c) = lifted (io_finally m c)"
  by (rule ext) (simp add: lifted_def task_finally_def io_finally_def settled_def split: prod.splits sum.splits)

lemma lifted_if: "(if b then lifted m else lifted n) = lifted (if b then m else n)"
  by simp

lemma lifted_sendSSEMessage:
  "reader L = KeepsReading \<Longrightarrow> sendSSEMessage_in L t d = lifted (sendSSEMessage t d)"
  by (rule ext) (simp add: lifted_def sendSSEMessage_in_def sendSSEMessage_def write_fate_def settled_def)

lemma lifted_closeWriter: "closeWriter_in = lifted closeWriter"
  by (rule ext) (simp add: lifted_def closeWriter_in_def closeWriter_def settled_def)

lemma lifted_sendErrorResponse:
  "reader L = KeepsReading \<Longrightarrow> sendErrorResponse_in L err = lifted (sendErrorResponse err)"
  by (simp add: sendErrorResponse_in_def sendErrorResponse_def lifted_sendSSEMessage
      lifted_closeWriter lifted_bind)

lemma lifted_sendProgressUpdate:
  "reader L = KeepsReading \<Longrightarrow> sendProgressUpdate_in L step msg = lifted (sendProgressUpdate step msg)"
  by (simp add: sendProgressUpdate_in_def sendProgressUpdate_def lifted_sendSSEMessage)

lemma lifted_sendResult:
  "reader L = KeepsReading \<Longrightarrow> sendResult_in L r = lifted (sendResult r)"
  by (simp add: sendResult_in_def sendResult_def lifted_sendSSEMessage)

lemma lifted_required_row: "required_row_in r msg = lifted (required_row r msg)"
  by (simp add: required_row_in_def required_row_def lifted_return lifted_throw
      split: query.splits option.splits bool.splits)

lemma lifted_processAnalysis:
  assumes "reader L = KeepsReading" and "\<forall>c. settles L c"
  shows "processAnalysis_in L E S requestBody = lifted (processAnalysis E S requestBody)"
  unfolding processAnalysis_in_def processAnalysis_def
  by (simp only: assms lifted_sendProgressUpdate lifted_sendErrorResponse lifted_sendResult
      lifted_required_row lifted_awaited lifted_lift lifted_return lifted_throw lifted_if
      lifted_bind lifted_catch)

lemma lifted_processRequest:
  assumes "reader L = KeepsReading" and "\<forall>c. settles L c"
  shows "processRequest_in L E S req = lifted (processRequest E S req)"
  unfolding processRequest_in_def processRequest_def
  by (simp only: assms lifted_sendProgressUpdate lifted_sendErrorResponse
      lifted_processAnalysis [OF assms] lifted_awaited lifted_lift lifted_if
      lifted_bind lifted_catch lifted_finally lifted_closeWriter)


text \<open>With a consumer that keeps reading, every write on the writer while it is open arrives.\<close>

lemma accepted_open:
  "\<not> closed (made @ ws) \<Longrightarrow> accepted KeepsReading made ws = filter (\<lambda>a. a \<noteq> Close) ws"
proof (induction ws arbitrary: made)
  case Nil
  then show ?case by simp
next
  case (Cons a ws)
  then show ?case
    by (cases a) (auto simp: write_fate_def closed_def)
qed

lemma accepted_closed:
  "closed made \<Longrightarrow> list_all (\<lambda>a. a = Close) ws \<Longrightarrow> accepted c made ws = []"
  by (induction ws arbitrary: made) (auto simp: closed_def)

lemma accepted_append:
  "accepted c made (xs @ ys) = accepted c made xs @ accepted c (made @ xs) ys"
proof (induction xs arbitrary: made)
  case Nil
  then show ?case by simp
next
  case (Cons a xs)
  then show ?case by (cases a) simp_all
qed

lemma delivered_trace:
  assumes "list_all is_progress ps" and "is_terminal t" and "list_all (\<lambda>a. a = Close) cs"
  shows "delivered KeepsReading (ps @ [t] @ cs @ [Close]) = ps @ [t]"
proof -
  from assms(1) have ps: "Close \<notin> set ps" by (auto simp: list_all_iff)
  from assms(2) have t: "t \<noteq> Close" by auto
  from ps t have o: "\<not> closed ([] @ (ps @ [t]))" by (simp add: closed_def)
  from ps t have f: "filter (\<lambda>a. a \<noteq> Close) (ps @ [t]) = ps @ [t]"
    by (auto simp: filter_id_conv)
  have "accepted KeepsReading [] ((ps @ [t]) @ (cs @ [Close]))
      = accepted KeepsReading [] (ps @ [t]) @ accepted KeepsReading ([] @ (ps @ [t])) (cs @ [Close])"
    by (rule accepted_append)
  also have "accepted KeepsReading [] (ps @ [t]) = ps @ [t]"
    using accepted_open [OF o] f by simp
  also have "accepted KeepsReading ([] @ (ps @ [t])) (cs @ [Close]) = []"
  proof -
    have "accepted KeepsReading (ps @ [t]) (cs @ [Close])
        = accepted KeepsReading (ps @ [t]) cs @ accepted KeepsReading ((ps @ [t]) @ cs) [Close]"
      by (rule accepted_append)
    moreover have "accepted KeepsReading (ps @ [t]) cs = filter (\<lambda>a. a \<noteq> Close) cs"
    proof (cases cs)
      case Nil
      then show ?thesis by simp
    next
      case (Cons c cs')
      with assms(3) have "c = Close" by simp
      with Cons assms(3) show ?thesis
        using accepted_closed [of "(ps @ [t]) @ [Close]" cs' KeepsReading]
        by (auto simp: closed_def filter_empty_conv list_all_iff)
    qed
    moreover from assms(3) have "filter (\<lambda>a. a \<noteq> Close) cs = []"
      by (auto simp: filter_empty_conv list_all_iff)
    ultimately show ?thesis by simp
  qed
  finally show ?thesis by (simp add: delivered_def)
qed

lemma lifted_Inr: "m w = (Inr a, w') \<Longrightarrow> lifted m w = (Returned a, w')"
  by (simp add: lifted_def settled_def)

lemmas task_eval = task_return_def task_throw_def task_lift_def awaited_def task_bind_def
  task_catch_def task_finally_def settled_def write_fate_def closed_def sendSSEMessage_in_def
  closeWriter_in_def sendErrorResponse_in_def sendProgressUpdate_in_def sendResult_in_def
  required_row_in_def

text \<open>
  Claim C5, as the code has it. In every request lifecycle in which the consumer keeps
  reading the stream and every awaited call settles, \<^verbatim>\<open>processRequest\<close> returns, and the
  calls it has made on the writer of the stream are: writes of progress events, then the
  write of exactly one terminal event (result or error), then nothing but closing; each
  of these events reaches the consumer, and no write follows a close. For a POST
  request this is the whole life of the stream that \<^verbatim>\<open>handleRequest\<close> creates.
\<close>

theorem settled_stream_lifecycle:
  assumes "reader L = KeepsReading" and "\<forall>c. settles L c"
  shows "\<exists>ps t cs. list_all is_progress ps \<and> is_terminal t \<and> (cs = [] \<or> cs = [Close])
           \<and> processRequest_in L E S req [] = (Returned (), ps @ [t] @ cs @ [Close])
           \<and> stream_protocol (ps @ [t] @ cs @ [Close])
           \<and> delivered (reader L) (ps @ [t] @ cs @ [Close]) = ps @ [t]
           \<and> (http_method req = ''POST'' \<longrightarrow>
                handleRequest_in L E S req = (EventStream, Returned (), ps @ [t] @ cs @ [Close]))"
proof -
  from processRequest_trace [of E S req] obtain ps t cs where h:
    "list_all is_progress ps" "is_terminal t" "cs = [] \<or> cs = [Close]"
    "processRequest E S req [] = (Inr (), ps @ [t] @ cs @ [Close])" by blast
  from h(3) have cs: "list_all (\<lambda>a. a = Close) cs" by auto
  have run: "processRequest_in L E S req [] = (Returned (), ps @ [t] @ cs @ [Close])"
    unfolding lifted_processRequest [OF assms] using h(4) by (rule lifted_Inr)
  moreover from h(1,2,3) have "stream_protocol (ps @ [t] @ cs @ [Close])"
    by (rule stream_protocol_shape)
  moreover from delivered_trace [OF h(1,2) cs] assms(1)
  have "delivered (reader L) (ps @ [t] @ cs @ [Close]) = ps @ [t]" by simp
  moreover from run have "http_method req = ''POST'' \<longrightarrow>
      handleRequest_in L E S req = (EventStream, Returned (), ps @ [t] @ cs @ [Close])"
    by (simp add: handleRequest_in_def)
  ultimately show ?thesis using h(1,2,3) by blast
qed

theorem settled_stream_lifecycle_witness:
  "reader reliable = KeepsReading \<and> (\<forall>c. settles reliable c)
   \<and> http_method sample_request = ''POST''
   \<and> (\<exists>w. handleRequest_in reliable sample_engine (sample_services violating_text) sample_request
            = (EventStream, Returned (), w)
          \<and> stream_protocol w)"
proof -
  have 1: "reader reliable = KeepsReading" and 2: "\<forall>c. settles reliable c"
    and 3: "http_method sample_request = ''POST''"
    by (simp_all add: reliable_def sample_request_def)
  from settled_stream_lifecycle [OF 1 2, of sample_engine "sample_services violating_text" sample_request]
    1 2 3 show ?thesis by auto
qed

text \<open>
  The claim as stated fails on a lifecycle in which the consumer goes away: once it has
  cancelled, the write of the third progress event rejects, the \<^verbatim>\<open>catch\<close> of
  \<^verbatim>\<open>processAnalysis\<close> writes an error event, which rejects, and the \<^verbatim>\<open>catch\<close> of
  \<^verbatim>\<open>processRequest\<close> writes another; two terminal events are written and none arrives. It
  also fails when the provider never answers: five progress events are written, no
  terminal event follows and the writer is never closed.
\<close>

theorem settled_stream_lifecycle_counterexample:
  "processRequest_in consumer_gone sample_engine (sample_services violating_text) sample_request []
     = (Thrown (Error ''cancelled''),
        request_progress # take 2 analysis_progress
          @ [Write \<lparr>type = ''error'',
                    data = Failure (analysis_error (sample_services violating_text) (Error ''cancelled''))\<rparr>,
             Write \<lparr>type = ''error'',
                    data = Failure (internal_error (sample_services violating_text) (Error ''cancelled''))\<rparr>,
             Close])
   \<and> \<not> stream_protocol
        (snd (processRequest_in consumer_gone sample_engine (sample_services violating_text) sample_request []))
   \<and> delivered (reader consumer_gone)
        (snd (processRequest_in consumer_gone sample_engine (sample_services violating_text) sample_request []))
       = request_progress # take 1 analysis_progress
   \<and> processRequest_in provider_silent sample_engine (sample_services violating_text) sample_request []
       = (Pending, request_progress # take 4 analysis_progress)
   \<and> \<not> stream_protocol
        (snd (processRequest_in provider_silent sample_engine (sample_services violating_text) sample_request []))"
proof -
  have gone: "processRequest_in consumer_gone sample_engine (sample_services violating_text) sample_request []
     = (Thrown (Error ''cancelled''),
        request_progress # take 2 analysis_progress
          @ [Write \<lparr>type = ''error'',
                    data = Failure (analysis_error (sample_services violating_text) (Error ''cancelled''))\<rparr>,
             Write \<lparr>type = ''error'',
                    data = Failure (internal_error (sample_services violating_text) (Error ''cancelled''))\<rparr>,
             Close])"
    by (simp add: processRequest_in_def processAnalysis_in_def task_eval consumer_gone_def
        sample_request_def sample_body_def sample_services_def missing_parameters_def truthy_opt_def
        request_progress_def analysis_progress_def)
  have silent: "processRequest_in provider_silent sample_engine (sample_services violating_text) sample_request []
       = (Pending, request_progress # take 4 analysis_progress)"
    by (simp add: processRequest_in_def processAnalysis_in_def task_eval provider_silent_def
        sample_request_def sample_body_def sample_services_def missing_parameters_def truthy_opt_def
        request_progress_def analysis_progress_def buildPrompt_def js_string_def js_replace_def
        prepareImageContent_def)
  show ?thesis
    unfolding gone silent
    by (simp add: stream_protocol_def delivered_def write_fate_def closed_def consumer_gone_def
        request_progress_def analysis_progress_def)
qed

end
